theory Spec2Isabelle
  imports Complex_Main "HOL-Library.Word"
begin

section \<open>Python exceptions\<close>

text \<open>
  Every \<^verbatim>\<open>raise\<close> of the modelled code, and every exception of a library call the
  code makes, is a value of this type; a function that can raise returns
  \<open>error + 'a\<close> with \<open>Inl\<close> for the exception. The constructor is the Python
  exception class, the string its message where the repository's code writes one.
\<close>

datatype error =
    ValueError string
  | TypeError string
  | IndexError string
  | RuntimeError string
  | OverflowError string
  | AttributeError string

section \<open>Numbers\<close>

text \<open>
  An array element or a Python float: a real number, one of the two infinities, or
  not-a-number. The operations of this section are exact on finite values; the
  special values follow IEEE 754, with a single unsigned zero standing for \<open>+0\<close>.
  The rounding and the overflow of the 32-bit format come with the operations of the
  section on the arithmetic of float32, for the properties that depend on them.
\<close>

datatype fval = Fin real | PInf | NInf | NaN

fun is_nan :: "fval \<Rightarrow> bool" where
  "is_nan NaN = True"
| "is_nan _ = False"

fun is_fin :: "fval \<Rightarrow> bool" where
  "is_fin (Fin _) = True"
| "is_fin _ = False"

fun f_neg :: "fval \<Rightarrow> fval" where
  "f_neg (Fin r) = Fin (- r)"
| "f_neg PInf = NInf"
| "f_neg NInf = PInf"
| "f_neg NaN = NaN"

fun f_add :: "fval \<Rightarrow> fval \<Rightarrow> fval" where
  "f_add NaN _ = NaN"
| "f_add _ NaN = NaN"
| "f_add (Fin a) (Fin b) = Fin (a + b)"
| "f_add PInf NInf = NaN"
| "f_add NInf PInf = NaN"
| "f_add PInf _ = PInf"
| "f_add NInf _ = NInf"
| "f_add _ PInf = PInf"
| "f_add _ NInf = NInf"

definition f_sub :: "fval \<Rightarrow> fval \<Rightarrow> fval" where
  "f_sub a b = f_add a (f_neg b)"

text \<open>The sign of an infinity times or over a finite value \<open>r\<close>.\<close>

definition signed_inf :: "bool \<Rightarrow> fval" where
  "signed_inf pos = (if pos then PInf else NInf)"

fun f_mul :: "fval \<Rightarrow> fval \<Rightarrow> fval" where
  "f_mul NaN _ = NaN"
| "f_mul _ NaN = NaN"
| "f_mul (Fin a) (Fin b) = Fin (a * b)"
| "f_mul PInf (Fin b) = (if b = 0 then NaN else signed_inf (0 < b))"
| "f_mul NInf (Fin b) = (if b = 0 then NaN else signed_inf (b < 0))"
| "f_mul (Fin a) PInf = (if a = 0 then NaN else signed_inf (0 < a))"
| "f_mul (Fin a) NInf = (if a = 0 then NaN else signed_inf (a < 0))"
| "f_mul PInf PInf = PInf"
| "f_mul NInf NInf = PInf"
| "f_mul PInf NInf = NInf"
| "f_mul NInf PInf = NInf"

fun f_div :: "fval \<Rightarrow> fval \<Rightarrow> fval" where
  "f_div NaN _ = NaN"
| "f_div _ NaN = NaN"
| "f_div (Fin a) (Fin b) =
     (if b = 0 then (if a = 0 then NaN else signed_inf (0 < a)) else Fin (a / b))"
| "f_div (Fin a) _ = Fin 0"
| "f_div PInf (Fin b) = signed_inf (0 \<le> b)"
| "f_div NInf (Fin b) = signed_inf (b < 0)"
| "f_div _ _ = NaN"

fun f_tanh :: "fval \<Rightarrow> fval" where
  "f_tanh (Fin r) = Fin (tanh r)"
| "f_tanh PInf = Fin 1"
| "f_tanh NInf = Fin (- 1)"
| "f_tanh NaN = NaN"

fun f_exp :: "fval \<Rightarrow> fval" where
  "f_exp (Fin r) = Fin (exp r)"
| "f_exp PInf = PInf"
| "f_exp NInf = Fin 0"
| "f_exp NaN = NaN"

fun f_log :: "fval \<Rightarrow> fval" where
  "f_log (Fin r) = (if 0 < r then Fin (ln r) else if r = 0 then NInf else NaN)"
| "f_log PInf = PInf"
| "f_log NInf = NaN"
| "f_log NaN = NaN"

fun f_log1p :: "fval \<Rightarrow> fval" where
  "f_log1p (Fin r) = (if - 1 < r then Fin (ln (1 + r)) else if r = - 1 then NInf else NaN)"
| "f_log1p PInf = PInf"
| "f_log1p NInf = NaN"
| "f_log1p NaN = NaN"

text \<open>Comparison: false as soon as one side is not-a-number.\<close>

fun f_le :: "fval \<Rightarrow> fval \<Rightarrow> bool" where
  "f_le NaN _ = False"
| "f_le _ NaN = False"
| "f_le NInf _ = True"
| "f_le _ PInf = True"
| "f_le (Fin a) (Fin b) = (a \<le> b)"
| "f_le _ _ = False"

definition f_lt :: "fval \<Rightarrow> fval \<Rightarrow> bool" where
  "f_lt a b = (f_le a b \<and> a \<noteq> b)"

text \<open>
  \<^verbatim>\<open>clamp(x, min=lo, max=hi)\<close> on one element: \<open>min (max x lo) hi\<close>, a
  not-a-number element staying so.
\<close>

definition f_clamp :: "fval \<Rightarrow> fval \<Rightarrow> fval \<Rightarrow> fval" where
  "f_clamp lo hi x =
     (if is_nan x then NaN
      else let y = (if f_lt x lo then lo else x) in if f_lt hi y then hi else y)"

text \<open>
  Python's \<^verbatim>\<open>int(x)\<close> on a float: truncation towards zero; it raises on a
  not-a-number and on an infinity.
\<close>

fun py_int :: "fval \<Rightarrow> error + int" where
  "py_int (Fin r) = Inr (if 0 \<le> r then \<lfloor>r\<rfloor> else \<lceil>r\<rceil>)"
| "py_int NaN = Inl (ValueError ''cannot convert float NaN to integer'')"
| "py_int _ = Inl (OverflowError ''cannot convert float infinity to integer'')"

section \<open>Spaces\<close>

text \<open>
  What a caller can pass as an observation or action space. \<open>gym\<close> and
  \<open>gymnasium\<close> are two unrelated class hierarchies with the same space classes, so a
  space carries the library it comes from. A \<open>Box\<close> has its shape and its two bound
  arrays (row-major element lists). \<open>OtherSpace\<close> is any other subclass of the
  library's \<open>Space\<close> (MultiDiscrete, Tuple, ...), \<open>OtherObject\<close> any Python object that
  is neither a number of type \<open>int\<close> or \<open>float\<close>, a tuple or list, nor a space.
\<close>

datatype lib = Gym | Gymnasium

datatype space =
    IntSpace int
  | FloatSpace fval
  | SeqSpace "int list"
  | Discrete lib int
  | Box lib "nat list" "fval list" "fval list"
  | Dict lib "(string \<times> space) list"
  | OtherSpace lib
  | OtherObject

text \<open>
  \<^verbatim>\<open>numpy.prod\<close> of a sequence of integers that fit 64 bits: the product in 64-bit
  two's complement (the empty product is 1).
\<close>

definition np_prod :: "int list \<Rightarrow> int" where
  "np_prod xs = sint (word_of_int (prod_list xs) :: 64 word)"

subsection \<open>Model._get_space_size (skrl/models/jax/base.py)\<close>

text \<open>
  The branches are those of the source, in its order; the \<open>gym\<close> and the
  \<open>gymnasium\<close> branch are the same code and are one equation each here. A branch
  that leaves \<^verbatim>\<open>size\<close> at \<^verbatim>\<open>None\<close> raises the \<^verbatim>\<open>ValueError\<close> (its message
  without the name of the type); the others return \<^verbatim>\<open>int(size)\<close>. \<open>get_space_sizes\<close> is the list comprehension inside the
  \<^verbatim>\<open>sum\<close> of the Dict branch: the children are resolved in order and the first
  one that raises ends the call.
\<close>

fun get_space_size :: "space \<Rightarrow> bool \<Rightarrow> error + int"
  and get_space_sizes :: "(string \<times> space) list \<Rightarrow> bool \<Rightarrow> error + int list" where
  "get_space_size (IntSpace n) number_of_elements = Inr n"
| "get_space_size (FloatSpace x) number_of_elements = py_int x"
| "get_space_size (SeqSpace dims) number_of_elements = Inr (np_prod dims)"
| "get_space_size (Discrete l n) number_of_elements =
     (if number_of_elements then Inr n else Inr 1)"
| "get_space_size (Box l shp lo hi) number_of_elements = Inr (np_prod (map int shp))"
| "get_space_size (Dict l spaces) number_of_elements =
     (case get_space_sizes spaces number_of_elements of
        Inl e \<Rightarrow> Inl e
      | Inr sizes \<Rightarrow> Inr (sum_list sizes))"
| "get_space_size (OtherSpace l) number_of_elements =
     Inl (ValueError ''Space type not supported'')"
| "get_space_size OtherObject number_of_elements =
     Inl (ValueError ''Space type not supported'')"
| "get_space_sizes [] number_of_elements = Inr []"
| "get_space_sizes ((key, sp) # rest) number_of_elements =
     (case get_space_size sp number_of_elements of
        Inl e \<Rightarrow> Inl e
      | Inr n \<Rightarrow>
          (case get_space_sizes rest number_of_elements of
             Inl e \<Rightarrow> Inl e
           | Inr ns \<Rightarrow> Inr (n # ns)))"

section \<open>Arrays\<close>

text \<open>
  A \<^verbatim>\<open>torch.Tensor\<close> or a \<^verbatim>\<open>jax.numpy\<close> array: its shape and its elements in
  row-major order. A well-formed array has as many elements as its shape says.
\<close>

datatype tensor = Tensor (shape: "nat list") (data: "fval list")

definition wf_tensor :: "tensor \<Rightarrow> bool" where
  "wf_tensor t = (length (data t) = prod_list (shape t))"

text \<open>\<^verbatim>\<open>t.dim()\<close>, the number of axes.\<close>

definition tensor_dim :: "tensor \<Rightarrow> nat" where
  "tensor_dim t = length (shape t)"

text \<open>
  All index tuples of a shape, in row-major order, and the position of one of them.
  \<open>get\<close> reads the element at an index tuple; it is used at the index tuples of the
  shape only.
\<close>

fun all_indices :: "nat list \<Rightarrow> nat list list" where
  "all_indices [] = [[]]"
| "all_indices (n # ns) = concat (map (\<lambda>i. map ((#) i) (all_indices ns)) [0..<n])"

fun offset :: "nat list \<Rightarrow> nat list \<Rightarrow> nat" where
  "offset (n # ns) (i # idx) = i * prod_list ns + offset ns idx"
| "offset _ _ = 0"

definition get :: "tensor \<Rightarrow> nat list \<Rightarrow> fval" where
  "get t idx = data t ! offset (shape t) idx"

definition tabulate :: "nat list \<Rightarrow> (nat list \<Rightarrow> fval) \<Rightarrow> tensor" where
  "tabulate s f = Tensor s (map f (all_indices s))"

subsection \<open>Broadcasting\<close>

text \<open>
  The rule of numpy, torch and jax: the shorter shape is padded with 1s on the left;
  then two dimensions go together when they are equal or one of them is 1.
  \<open>bidx s idx\<close> is where an operand of shape \<open>s\<close> is read for the element \<open>idx\<close> of
  the result.
\<close>

fun bdims :: "nat list \<Rightarrow> nat list \<Rightarrow> nat list option" where
  "bdims [] [] = Some []"
| "bdims (m # ms) (n # ns) =
     (if m = n \<or> n = 1 then map_option ((#) m) (bdims ms ns)
      else if m = 1 then map_option ((#) n) (bdims ms ns)
      else None)"
| "bdims _ _ = None"

definition bshape :: "nat list \<Rightarrow> nat list \<Rightarrow> nat list option" where
  "bshape s1 s2 =
     (let k = max (length s1) (length s2)
      in bdims (replicate (k - length s1) 1 @ s1) (replicate (k - length s2) 1 @ s2))"

definition bidx :: "nat list \<Rightarrow> nat list \<Rightarrow> nat list" where
  "bidx s idx = map2 (\<lambda>n i. if n = 1 then 0 else i) s (drop (length idx - length s) idx)"

definition bget :: "tensor \<Rightarrow> nat list \<Rightarrow> fval" where
  "bget t idx = get t (bidx (shape t) idx)"

text \<open>An array expanded to a larger shape it broadcasts to.\<close>

definition expand :: "nat list \<Rightarrow> tensor \<Rightarrow> tensor" where
  "expand s t = tabulate s (bget t)"

text \<open>
  An elementwise operation: on one array, on an array and a Python number, and on two
  arrays (\<open>None\<close> when the shapes do not broadcast; torch and jax raise different
  exceptions there).
\<close>

definition map1 :: "(fval \<Rightarrow> fval) \<Rightarrow> tensor \<Rightarrow> tensor" where
  "map1 f t = Tensor (shape t) (map f (data t))"

definition map2T :: "(fval \<Rightarrow> fval \<Rightarrow> fval) \<Rightarrow> tensor \<Rightarrow> tensor \<Rightarrow> tensor option" where
  "map2T f a b =
     (case bshape (shape a) (shape b) of
        None \<Rightarrow> None
      | Some s \<Rightarrow> Some (tabulate s (\<lambda>idx. f (bget a idx) (bget b idx))))"

text \<open>Sequencing of calls that can raise: the first exception ends the computation.\<close>

fun bind :: "error + 'a \<Rightarrow> ('a \<Rightarrow> error + 'b) \<Rightarrow> error + 'b" where
  "bind (Inl e) f = Inl e"
| "bind (Inr x) f = f x"

section \<open>The function approximator's parameters (skrl/models/jax/base.py)\<close>

text \<open>
  The parameter container of flax: a tree whose inner nodes are dictionaries from names
  to subtrees and whose leaves are arrays. A dictionary is the list of its items in the
  order in which jax flattens it (sorted by key). \<^verbatim>\<open>StateDict\<close> holds the apply
  function (of any type \<open>'f\<close>: an update only carries it along) and the tree.
\<close>

datatype ptree = Leaf tensor | Node "(string \<times> ptree) list"

record 'f state_dict =
  apply_fn :: 'f
  params :: ptree

subsection \<open>jax.tree_util.tree_map on two trees\<close>

text \<open>
  \<^verbatim>\<open>tree_map(f, tree, rest)\<close> first flattens \<open>rest\<close> up to the leaves of \<open>tree\<close>,
  which raises a \<^verbatim>\<open>ValueError\<close> unless \<open>tree\<close> is a prefix of \<open>rest\<close> (same
  dictionaries with the same keys down to the leaves of \<open>tree\<close>); only then is
  \<open>f\<close> called, leaf by leaf in order, with the leaf of \<open>tree\<close> and the subtree of
  \<open>rest\<close> at its place, and the results are put back in the structure of \<open>tree\<close>.
  \<open>prefix_mismatch\<close> is the first phase (\<open>None\<close>: no error), \<open>map_leaves\<close> the second.
\<close>

fun prefix_mismatch :: "ptree \<Rightarrow> ptree \<Rightarrow> error option"
  and prefix_mismatch_items :: "(string \<times> ptree) list \<Rightarrow> (string \<times> ptree) list \<Rightarrow> error option" where
  "prefix_mismatch (Leaf a) t = None"
| "prefix_mismatch (Node items) (Leaf b) = Some (ValueError ''Tree structure mismatch'')"
| "prefix_mismatch (Node items) (Node items') =
     (if map fst items = map fst items' then prefix_mismatch_items items items'
      else Some (ValueError ''Tree structure mismatch''))"
| "prefix_mismatch_items ((k, c) # items) ((k', c') # items') =
     (case prefix_mismatch c c' of
        Some e \<Rightarrow> Some e
      | None \<Rightarrow> prefix_mismatch_items items items')"
| "prefix_mismatch_items _ _ = None"

fun map_leaves :: "(tensor \<Rightarrow> ptree \<Rightarrow> error + tensor) \<Rightarrow> ptree \<Rightarrow> ptree \<Rightarrow> error + ptree"
  and map_leaves_items :: "(tensor \<Rightarrow> ptree \<Rightarrow> error + tensor) \<Rightarrow>
      (string \<times> ptree) list \<Rightarrow> (string \<times> ptree) list \<Rightarrow> error + (string \<times> ptree) list" where
  "map_leaves f (Leaf a) t = bind (f a t) (\<lambda>r. Inr (Leaf r))"
| "map_leaves f (Node items) (Node items') =
     bind (map_leaves_items f items items') (\<lambda>rs. Inr (Node rs))"
| "map_leaves f (Node items) (Leaf b) = Inl (ValueError ''Tree structure mismatch'')"
| "map_leaves_items f ((k, c) # items) ((k', c') # items') =
     bind (map_leaves f c c') (\<lambda>r.
     bind (map_leaves_items f items items') (\<lambda>rs. Inr ((k, r) # rs)))"
| "map_leaves_items f _ _ = Inr []"

definition tree_map :: "(tensor \<Rightarrow> ptree \<Rightarrow> error + tensor) \<Rightarrow> ptree \<Rightarrow> ptree \<Rightarrow> error + ptree" where
  "tree_map f tree rest =
     (case prefix_mismatch tree rest of
        Some e \<Rightarrow> Inl e
      | None \<Rightarrow> map_leaves f tree rest)"

subsection \<open>Model.update_parameters\<close>

text \<open>
  The function mapped over the leaves in the soft update,
  \<^verbatim>\<open>lambda params, model_params: polyak * model_params + (1 - polyak) * params\<close>.
  \<open>polyak\<close> is a Python number, so \<open>1 - polyak\<close> is one too, and each product is a
  number times an array. Where the other tree has a dictionary at the place of the
  leaf, the product of a number and a dictionary raises a \<^verbatim>\<open>TypeError\<close>; two arrays
  whose shapes do not broadcast raise one in the addition. (\<open>own_params\<close> is the
  lambda's \<open>params\<close>.)
\<close>

definition soft_update_leaf :: "fval \<Rightarrow> tensor \<Rightarrow> ptree \<Rightarrow> error + tensor" where
  "soft_update_leaf polyak own_params model_params =
     (case model_params of
        Node items \<Rightarrow> Inl (TypeError ''unsupported operand type(s) for *'')
      | Leaf mp \<Rightarrow>
          (case map2T f_add (map1 (f_mul polyak) mp) (map1 (f_mul (f_sub (Fin 1) polyak)) own_params) of
             None \<Rightarrow> Inl (TypeError ''add got incompatible shapes for broadcasting'')
           | Some r \<Rightarrow> Inr r))"

text \<open>
  \<open>self\<close> is the state of this instance and \<open>model\<close> that of the source, both
  initialised. The result is the new state of this instance; when the call raises,
  the assignment to \<^verbatim>\<open>self.state_dict\<close> has not happened and the instance keeps
  \<open>self\<close>.
\<close>

definition update_parameters :: "'f state_dict \<Rightarrow> 'f state_dict \<Rightarrow> fval \<Rightarrow> error + 'f state_dict" where
  "update_parameters self model polyak =
     (if polyak = Fin 1 then Inr (self\<lparr>params := params model\<rparr>)
      else bind (tree_map (soft_update_leaf polyak) (params self) (params model))
             (\<lambda>ps. Inr (self\<lparr>params := ps\<rparr>)))"

section \<open>Notions used to state the properties of update_parameters\<close>

text \<open>
  Two trees have the same paths when they have the same dictionaries with the same keys
  and leaves at the same places; they have the same shapes when, in addition, the
  arrays at the same place have the same shape.
\<close>

fun same_paths :: "ptree \<Rightarrow> ptree \<Rightarrow> bool"
  and same_paths_items :: "(string \<times> ptree) list \<Rightarrow> (string \<times> ptree) list \<Rightarrow> bool" where
  "same_paths (Leaf a) (Leaf b) = True"
| "same_paths (Node items) (Node items') =
     (map fst items = map fst items' \<and> same_paths_items items items')"
| "same_paths _ _ = False"
| "same_paths_items ((k, c) # items) ((k', c') # items') =
     (same_paths c c' \<and> same_paths_items items items')"
| "same_paths_items _ _ = True"

fun same_shapes :: "ptree \<Rightarrow> ptree \<Rightarrow> bool"
  and same_shapes_items :: "(string \<times> ptree) list \<Rightarrow> (string \<times> ptree) list \<Rightarrow> bool" where
  "same_shapes (Leaf a) (Leaf b) = (shape a = shape b)"
| "same_shapes (Node items) (Node items') =
     (map fst items = map fst items' \<and> same_shapes_items items items')"
| "same_shapes _ _ = False"
| "same_shapes_items ((k, c) # items) ((k', c') # items') =
     (same_shapes c c' \<and> same_shapes_items items items')"
| "same_shapes_items _ _ = True"

text \<open>The arrays of a tree, in order; a tree is well formed when they are.\<close>

fun leaves :: "ptree \<Rightarrow> tensor list"
  and leaves_items :: "(string \<times> ptree) list \<Rightarrow> tensor list" where
  "leaves (Leaf a) = [a]"
| "leaves (Node items) = leaves_items items"
| "leaves_items [] = []"
| "leaves_items ((k, c) # items) = leaves c @ leaves_items items"

definition wf_tree :: "ptree \<Rightarrow> bool" where
  "wf_tree t = list_all wf_tensor (leaves t)"

definition finite_tree :: "ptree \<Rightarrow> bool" where
  "finite_tree t = list_all (\<lambda>a. list_all is_fin (data a)) (leaves t)"

text \<open>
  The soft update as the documentation states it, parameter by parameter:
  \<open>polyak * source_param + (1 - polyak) * own_param\<close>, at every place of the tree.
\<close>

definition interpolate :: "fval \<Rightarrow> fval \<Rightarrow> fval \<Rightarrow> fval" where
  "interpolate polyak source_param own_param =
     f_add (f_mul polyak source_param) (f_mul (f_sub (Fin 1) polyak) own_param)"

fun interpolate_tree :: "fval \<Rightarrow> ptree \<Rightarrow> ptree \<Rightarrow> ptree"
  and interpolate_items :: "fval \<Rightarrow> (string \<times> ptree) list \<Rightarrow> (string \<times> ptree) list \<Rightarrow> (string \<times> ptree) list" where
  "interpolate_tree polyak (Leaf a) (Leaf b) =
     Leaf (Tensor (shape a) (map2 (interpolate polyak) (data b) (data a)))"
| "interpolate_tree polyak (Node items) (Node items') = Node (interpolate_items polyak items items')"
| "interpolate_tree polyak t _ = t"
| "interpolate_items polyak ((k, c) # items) ((k', c') # items') =
     (k, interpolate_tree polyak c c') # interpolate_items polyak items items'"
| "interpolate_items polyak _ _ = []"


section \<open>Tensor operations of torch used by the Gaussian mixin\<close>

text \<open>
  Tensors carry no element type here: all are of the default type \<^verbatim>\<open>float32\<close>, the
  type the mixin gives its bounds. A binary operation on two tensors raises a
  \<^verbatim>\<open>RuntimeError\<close> when their shapes do not broadcast.
\<close>

definition tbin :: "(fval \<Rightarrow> fval \<Rightarrow> fval) \<Rightarrow> tensor \<Rightarrow> tensor \<Rightarrow> error + tensor" where
  "tbin f a b =
     (case map2T f a b of
        None \<Rightarrow> Inl (RuntimeError ''The size of tensor a must match the size of tensor b'')
      | Some t \<Rightarrow> Inr t)"

text \<open>
  \<^verbatim>\<open>torch.mean\<close>, \<^verbatim>\<open>torch.sum\<close> and \<^verbatim>\<open>torch.prod\<close> with \<^verbatim>\<open>dim=-1\<close>: the last axis
  is reduced away (a 0-dimensional tensor is reduced to itself).
\<close>

datatype reduction = TorchMean | TorchSum | TorchProd

fun reduce_list :: "reduction \<Rightarrow> fval list \<Rightarrow> fval" where
  "reduce_list TorchSum xs = foldl f_add (Fin 0) xs"
| "reduce_list TorchProd xs = foldl f_mul (Fin 1) xs"
| "reduce_list TorchMean xs = f_div (foldl f_add (Fin 0) xs) (Fin (real (length xs)))"

definition reduce_last :: "reduction \<Rightarrow> tensor \<Rightarrow> tensor" where
  "reduce_last r t =
     (let n = (if shape t = [] then 1 else last (shape t));
          s = butlast (shape t)
      in Tensor s (map (\<lambda>k. reduce_list r (take n (drop (k * n) (data t)))) [0..<prod_list s]))"

text \<open>\<^verbatim>\<open>t.unsqueeze(-1)\<close> and \<^verbatim>\<open>torch.isnan(t).any()\<close>.\<close>

definition unsqueeze_last :: "tensor \<Rightarrow> tensor" where
  "unsqueeze_last t = Tensor (shape t @ [1]) (data t)"

definition has_nan :: "tensor \<Rightarrow> bool" where
  "has_nan t = list_ex is_nan (data t)"

text \<open>
  The source prints \<^verbatim>\<open>t[:5]\<close> of most tensors it computes. The output is not
  modelled; the slice itself raises on a 0-dimensional tensor.
\<close>

definition slice5 :: "tensor \<Rightarrow> error + unit" where
  "slice5 t =
     (if shape t = [] then Inl (IndexError ''slice() cannot be applied to a 0-dim tensor.'')
      else Inr ())"

subsection \<open>torch.distributions.Normal\<close>

text \<open>
  The constructor broadcasts location and scale to one shape (argument validation is
  switched off by the module). \<^verbatim>\<open>rsample\<close> is \<^verbatim>\<open>loc + eps * scale\<close> with \<open>eps\<close> a
  tensor of standard normal draws of the distribution's shape; the draws are the
  argument \<open>noise\<close>, one finite number per index. \<^verbatim>\<open>log_prob\<close> is
  \<^verbatim>\<open>-((value - loc) ** 2) / (2 * var) - log_scale - math.log(math.sqrt(2 * math.pi))\<close>
  with \<^verbatim>\<open>var = scale ** 2\<close> and \<^verbatim>\<open>log_scale = scale.log()\<close>.
\<close>

record normal =
  loc :: tensor
  scale :: tensor

definition Normal :: "tensor \<Rightarrow> tensor \<Rightarrow> error + normal" where
  "Normal l s =
     (case bshape (shape l) (shape s) of
        None \<Rightarrow> Inl (RuntimeError ''The size of tensor a must match the size of tensor b'')
      | Some bs \<Rightarrow> Inr \<lparr>loc = expand bs l, scale = expand bs s\<rparr>)"

definition rsample :: "normal \<Rightarrow> (nat list \<Rightarrow> real) \<Rightarrow> error + tensor" where
  "rsample d noise =
     (let eps = tabulate (shape (loc d)) (\<lambda>idx. Fin (noise idx))
      in bind (tbin f_mul eps (scale d)) (\<lambda>t. tbin f_add (loc d) t))"

definition log_prob :: "normal \<Rightarrow> tensor \<Rightarrow> error + tensor" where
  "log_prob d val =
     (let var = map1 (\<lambda>x. f_mul x x) (scale d);
          log_scale = map1 f_log (scale d)
      in bind (tbin f_sub val (loc d)) (\<lambda>diff.
         bind (tbin f_div (map1 f_neg (map1 (\<lambda>x. f_mul x x) diff)) (map1 (f_mul (Fin 2)) var)) (\<lambda>q.
         bind (tbin f_sub q log_scale) (\<lambda>r.
         Inr (map1 (\<lambda>x. f_sub x (Fin (ln (sqrt (2 * pi))))) r)))))"

section \<open>GaussianMixin (skrl/models/torch/gaussian.py)\<close>

definition EPS :: fval where
  "EPS = Fin (1 / 10 ^ 6)"

text \<open>\<^verbatim>\<open>torch.finfo(torch.float32).eps\<close>.\<close>

definition finfo_eps :: real where
  "finfo_eps = 1 / 2 ^ 23"

subsection \<open>The static methods atanh and inverse_tanh\<close>

definition atanh :: "tensor \<Rightarrow> error + tensor" where
  "atanh x =
     bind (tbin f_sub (map1 f_log1p x) (map1 f_log1p (map1 f_neg x))) (\<lambda>d.
     Inr (map1 (f_mul (Fin (1 / 2))) d))"

definition inverse_tanh :: "tensor \<Rightarrow> error + tensor" where
  "inverse_tanh y =
     (let eps = finfo_eps
      in atanh (map1 (f_clamp (Fin (- 1 + eps)) (Fin (1 - eps))) y))"

subsection \<open>The instance and its constructor\<close>

text \<open>
  The attributes the mixin sets on the instance. The two bounds exist only when
  clipping is on, and the three attributes of the last evaluation are \<^verbatim>\<open>None\<close>
  until the first call of \<open>act\<close>; \<open>g_reduction\<close> is \<^verbatim>\<open>None\<close> for the reduction
  \<open>none\<close>.
\<close>

record gaussian_mixin =
  g_clip_actions :: bool
  g_clip_actions_min :: "tensor option"
  g_clip_actions_max :: "tensor option"
  g_clip_log_std :: bool
  g_log_std_min :: fval
  g_log_std_max :: fval
  g_log_std :: "tensor option"
  g_num_samples :: "nat option"
  g_distribution :: "normal option"
  g_reduction :: "reduction option"

text \<open>
  Python objects are shared: the action space the caller built and the one the
  instance holds in \<^verbatim>\<open>self.action_space\<close> are one object. The store maps a
  reference to the object it denotes; the caller and the instance hold the same
  reference.
\<close>

type_synonym ref = nat
type_synonym store = "ref \<Rightarrow> space"

fun is_gymnasium_space :: "space \<Rightarrow> bool" where
  "is_gymnasium_space (Discrete Gymnasium n) = True"
| "is_gymnasium_space (Box Gymnasium shp lo hi) = True"
| "is_gymnasium_space (Dict Gymnasium spaces) = True"
| "is_gymnasium_space (OtherSpace Gymnasium) = True"
| "is_gymnasium_space _ = False"

text \<open>
  One of the two loops of the constructor,
  \<^verbatim>\<open>for i, _ in enumerate(bound): if bound[i] == infty: bound[i] = repl\<close>, on a numpy
  array of shape \<open>shp\<close>. The loop runs over the first axis. On a vector it replaces
  each element equal to \<open>infty\<close>. On a 0-dimensional array \<^verbatim>\<open>enumerate\<close> raises. On an
  array of more dimensions \<^verbatim>\<open>bound[i]\<close> is a row: a row of one element behaves as
  that element, the comparison of a longer row has no truth value and raises in the
  first round, before anything is written, and an array with no row or with empty rows
  is left as it is.
\<close>

definition sanitize :: "fval \<Rightarrow> fval \<Rightarrow> nat list \<Rightarrow> fval list \<Rightarrow> error + fval list" where
  "sanitize infty repl shp bound =
     (case shp of
        [] \<Rightarrow> Inl (TypeError ''iteration over a 0-d array'')
      | n # rest \<Rightarrow>
          if n = 0 \<or> prod_list rest = 0 then Inr bound
          else if prod_list rest = 1 then Inr (map (\<lambda>x. if x = infty then repl else x) bound)
          else Inl (ValueError
            ''The truth value of an array with more than one element is ambiguous''))"

text \<open>
  Lines 82 to 92: both loops write into the arrays of the space object itself, then
  the two bounds of the instance are new tensors made from the arrays. A gymnasium
  space that is not a Box has no attribute \<^verbatim>\<open>low\<close>.
\<close>

definition derive_bounds :: "store \<Rightarrow> ref \<Rightarrow> error + store \<times> tensor \<times> tensor" where
  "derive_bounds st action_space =
     (case st action_space of
        Box l shp low high \<Rightarrow>
          bind (sanitize NInf (Fin (- 1)) shp low) (\<lambda>low'.
          bind (sanitize PInf (Fin 1) shp high) (\<lambda>high'.
          Inr (st(action_space := Box l shp low' high'), Tensor shp low', Tensor shp high')))
      | _ \<Rightarrow> Inl (AttributeError ''low''))"

text \<open>
  \<^verbatim>\<open>GaussianMixin.__init__\<close>. \<open>action_space\<close> is the reference in
  \<^verbatim>\<open>self.action_space\<close>, set by the constructor of the model class before this one
  runs. The result is the store after the call and the instance, or the exception
  raised: the check of \<open>reduction\<close> comes last, after the arrays have been written
  (its message is given without the quotation marks). What the constructor prints is
  not modelled.
\<close>

definition init :: "store \<Rightarrow> ref \<Rightarrow> bool \<Rightarrow> bool \<Rightarrow> fval \<Rightarrow> fval \<Rightarrow> string \<Rightarrow>
    store \<times> (error + gaussian_mixin)" where
  "init st action_space clip_actions clip_log_std min_log_std max_log_std reduction =
     (let clip = (clip_actions \<and> is_gymnasium_space (st action_space))
      in case (if clip
               then bind (derive_bounds st action_space) (\<lambda>(st', mn, mx). Inr (st', Some mn, Some mx))
               else Inr (st, None, None)) of
           Inl e \<Rightarrow> (st, Inl e)
         | Inr (st', mn, mx) \<Rightarrow>
             if reduction \<notin> set [''mean'', ''sum'', ''prod'', ''none'']
             then (st', Inl (ValueError ''reduction must be one of mean, sum, prod or none''))
             else (st', Inr \<lparr>
               g_clip_actions = clip,
               g_clip_actions_min = mn,
               g_clip_actions_max = mx,
               g_clip_log_std = clip_log_std,
               g_log_std_min = min_log_std,
               g_log_std_max = max_log_std,
               g_log_std = None,
               g_num_samples = None,
               g_distribution = None,
               g_reduction =
                 (if reduction = ''mean'' then Some TorchMean
                  else if reduction = ''sum'' then Some TorchSum
                  else if reduction = ''prod'' then Some TorchProd
                  else None)\<rparr>))"

subsection \<open>GaussianMixin.act\<close>

text \<open>
  The inputs and the extra outputs are dictionaries from strings to tensors.
  \<open>compute\<close> is the method the concrete model supplies.
\<close>

type_synonym inputs = "string \<rightharpoonup> tensor"
type_synonym outputs = "string \<rightharpoonup> tensor"

text \<open>Line 171: \<^verbatim>\<open>((scaled - min) / (max - min)) * 2.0 - 1.0\<close>.\<close>

definition unscale :: "tensor \<Rightarrow> tensor \<Rightarrow> tensor \<Rightarrow> error + tensor" where
  "unscale scaled_actions mn mx =
     bind (tbin f_sub scaled_actions mn) (\<lambda>a.
     bind (tbin f_sub mx mn) (\<lambda>range.
     bind (tbin f_div a range) (\<lambda>q.
     Inr (map1 (\<lambda>v. f_sub v (Fin 1)) (map1 (\<lambda>v. f_mul v (Fin 2)) q)))))"

text \<open>Lines 181 and 183: \<^verbatim>\<open>((x + 1) / 2.0) * (max - min) + min\<close>.\<close>

definition rescale :: "tensor \<Rightarrow> tensor \<Rightarrow> tensor \<Rightarrow> error + tensor" where
  "rescale x mn mx =
     (let half = map1 (\<lambda>v. f_div v (Fin 2)) (map1 (\<lambda>v. f_add v (Fin 1)) x)
      in bind (tbin f_sub mx mn) (\<lambda>range.
         bind (tbin f_mul half range) (\<lambda>y.
         tbin f_add y mn)))"

text \<open>
  Lines 169 to 176: the log-probability of actions taken earlier, which come scaled to
  the action space.
\<close>

definition taken_log_prob :: "normal \<Rightarrow> tensor \<Rightarrow> tensor \<Rightarrow> tensor \<Rightarrow> error + tensor" where
  "taken_log_prob d scaled_actions mn mx =
     bind (slice5 scaled_actions) (\<lambda>_.
     bind (unscale scaled_actions mn mx) (\<lambda>unscaled_actions.
     bind (slice5 unscaled_actions) (\<lambda>_.
     bind (inverse_tanh unscaled_actions) (\<lambda>gaussian_actions.
     bind (slice5 gaussian_actions) (\<lambda>_.
     bind (log_prob d gaussian_actions) (\<lambda>lp.
     bind (tbin f_mul unscaled_actions unscaled_actions) (\<lambda>sq.
     bind (tbin f_sub lp
            (map1 f_log (map1 (\<lambda>v. f_add v EPS) (map1 (\<lambda>v. f_sub (Fin 1) v) sq)))) (\<lambda>lp'.
     bind (slice5 lp') (\<lambda>_.
     Inr lp')))))))))"

text \<open>
  Lines 165 to 184, the branch with clipping: the log-probability, then the sampled
  and the mean actions scaled to the bounds. The result is
  \<open>(actions, log_prob, mean_actions)\<close>.
\<close>

definition clip_branch :: "gaussian_mixin \<Rightarrow> normal \<Rightarrow> tensor \<Rightarrow> tensor \<Rightarrow> inputs \<Rightarrow>
    error + tensor \<times> tensor \<times> tensor" where
  "clip_branch self d mean_actions actions inputs =
     (case (g_clip_actions_min self, g_clip_actions_max self) of
        (Some mn, Some mx) \<Rightarrow>
          bind (case inputs ''taken_actions'' of
                  Some scaled_actions \<Rightarrow> taken_log_prob d scaled_actions mn mx
                | None \<Rightarrow>
                    bind (log_prob d actions) (\<lambda>lp.
                    bind (slice5 lp) (\<lambda>_. Inr lp))) (\<lambda>lp.
          bind (rescale (map1 f_tanh actions) mn mx) (\<lambda>actions'.
          bind (slice5 actions') (\<lambda>_.
          bind (rescale mean_actions mn mx) (\<lambda>mean_actions'.
          bind (slice5 mean_actions') (\<lambda>_.
          Inr (actions', lp, mean_actions'))))))
      | _ \<Rightarrow> Inl (AttributeError ''_g_clip_actions_min''))"

text \<open>
  Lines 189 to 192: the reduction over the last axis, when there is one, and the
  trailing axis of size 1 put back when the rank of the result differs from the rank
  of the actions.
\<close>

definition reduce_log_prob :: "reduction option \<Rightarrow> tensor \<Rightarrow> tensor \<Rightarrow> tensor" where
  "reduce_log_prob red lp actions =
     (let lp = (case red of
                  Some r \<Rightarrow> reduce_last r lp
                | None \<Rightarrow> lp)
      in if tensor_dim lp \<noteq> tensor_dim actions then unsqueeze_last lp else lp)"

text \<open>Lines 160 to 194, after the distribution has been stored.\<close>

definition act_tail :: "gaussian_mixin \<Rightarrow> normal \<Rightarrow> tensor \<Rightarrow> outputs \<Rightarrow> (nat list \<Rightarrow> real) \<Rightarrow>
    inputs \<Rightarrow> error + tensor \<times> tensor \<times> outputs" where
  "act_tail self d mean_actions outputs noise inputs =
     bind (rsample d noise) (\<lambda>actions.
     bind (slice5 actions) (\<lambda>_.
     bind (if g_clip_actions self
           then clip_branch self d mean_actions actions inputs
           else bind (log_prob d (case inputs ''taken_actions'' of
                                    Some taken \<Rightarrow> taken
                                  | None \<Rightarrow> actions)) (\<lambda>lp.
                Inr (actions, lp, mean_actions))) (\<lambda>(actions, lp, mean_actions).
     Inr (actions, reduce_log_prob (g_reduction self) lp actions,
          outputs(''mean_actions'' \<mapsto> mean_actions)))))"

text \<open>
  Lines 141 to 194: everything before the check for not-a-number. The instance is
  returned with the attributes the call has written so far, also when the call raises.
\<close>

definition act_body :: "gaussian_mixin \<Rightarrow> (inputs \<Rightarrow> string \<Rightarrow> tensor \<times> tensor \<times> outputs) \<Rightarrow>
    (nat list \<Rightarrow> real) \<Rightarrow> inputs \<Rightarrow> string \<Rightarrow>
    gaussian_mixin \<times> (error + tensor \<times> tensor \<times> outputs)" where
  "act_body self compute noise inputs role =
     (case compute inputs role of (mean_actions, log_std, outputs) \<Rightarrow>
       (case slice5 mean_actions of
          Inl e \<Rightarrow> (self, Inl e)
        | Inr _ \<Rightarrow>
           (let log_std = (if g_clip_log_std self
                           then map1 (f_clamp (g_log_std_min self) (g_log_std_max self)) log_std
                           else log_std);
                self = self\<lparr>g_log_std := Some log_std,
                            g_num_samples := Some (hd (shape mean_actions))\<rparr>;
                mean_actions = (if g_clip_actions self then map1 f_tanh mean_actions
                                else mean_actions)
            in (case Normal mean_actions (map1 f_exp log_std) of
                  Inl e \<Rightarrow> (self, Inl e)
                | Inr d \<Rightarrow>
                   (let self = self\<lparr>g_distribution := Some d\<rparr>
                    in (self, act_tail self d mean_actions outputs noise inputs))))))"

text \<open>
  \<^verbatim>\<open>GaussianMixin.act\<close>: the body, then lines 196 to 200. \<open>noise\<close> stands for the
  random source of the call.
\<close>

definition act :: "gaussian_mixin \<Rightarrow> (inputs \<Rightarrow> string \<Rightarrow> tensor \<times> tensor \<times> outputs) \<Rightarrow>
    (nat list \<Rightarrow> real) \<Rightarrow> inputs \<Rightarrow> string \<Rightarrow>
    gaussian_mixin \<times> (error + tensor \<times> tensor \<times> outputs)" where
  "act self compute noise inputs role =
     (case act_body self compute noise inputs role of (self', result) \<Rightarrow>
        (self', bind result (\<lambda>(actions, lp, outputs).
           if has_nan actions then Inl (ValueError ''NaN values found in actions'')
           else Inr (actions, lp, outputs))))"


section \<open>Notions used to state the properties of the Gaussian mixin\<close>

text \<open>
  A shape \<open>s\<close> fits a shape \<open>t\<close> when an array of shape \<open>s\<close> broadcasts to \<open>t\<close>:
  aligned at the last axis, each dimension of \<open>s\<close> is the one of \<open>t\<close> or 1.
\<close>

definition fits :: "nat list \<Rightarrow> nat list \<Rightarrow> bool" where
  "fits s t \<longleftrightarrow> length s \<le> length t \<and>
     list_all2 (\<lambda>m n. m = n \<or> m = 1) s (drop (length t - length s) t)"


text \<open>
  The inverse hyperbolic tangent of the source on one element,
  \<open>0.5 * (log1p(x) - log1p(-x))\<close>.
\<close>

definition atanh1 :: "fval \<Rightarrow> fval" where
  "atanh1 v = f_mul (Fin (1 / 2)) (f_sub (f_log1p v) (f_log1p (f_neg v)))"


text \<open>
  The quantities of the mixin on one element, written as the documentation of the
  source and of torch states them. \<open>normal_log_density mu sigma x\<close> is the logarithm of
  the density at \<open>x\<close> of the normal distribution with mean \<open>mu\<close> and standard
  deviation \<open>sigma\<close>; \<open>to_unit\<close> maps the interval from \<open>lo\<close> to \<open>hi\<close> linearly
  onto the one from -1 to 1, and \<open>from_unit\<close> maps back; \<open>inverse_tanh1\<close> is the
  clamped inverse hyperbolic tangent; \<open>clamped_log_std\<close> is the log standard deviation
  the distribution is built from. \<open>taken_log_density\<close> is the log-probability of an
  action taken earlier under the squashed distribution: the normal log-density at the
  unsquashed action, minus the correction \<open>log(1 - u^2 + EPS)\<close> for the hyperbolic
  tangent.
\<close>

definition normal_log_density :: "fval \<Rightarrow> fval \<Rightarrow> fval \<Rightarrow> fval" where
  "normal_log_density mu sigma x =
     f_sub (f_sub (f_div (f_neg (f_mul (f_sub x mu) (f_sub x mu)))
                         (f_mul (Fin 2) (f_mul sigma sigma)))
                  (f_log sigma))
           (Fin (ln (sqrt (2 * pi))))"

definition to_unit :: "fval \<Rightarrow> fval \<Rightarrow> fval \<Rightarrow> fval" where
  "to_unit x lo hi = f_sub (f_mul (f_div (f_sub x lo) (f_sub hi lo)) (Fin 2)) (Fin 1)"

definition from_unit :: "fval \<Rightarrow> fval \<Rightarrow> fval \<Rightarrow> fval" where
  "from_unit x lo hi = f_add (f_mul (f_div (f_add x (Fin 1)) (Fin 2)) (f_sub hi lo)) lo"

definition inverse_tanh1 :: "fval \<Rightarrow> fval" where
  "inverse_tanh1 y = atanh1 (f_clamp (Fin (- 1 + finfo_eps)) (Fin (1 - finfo_eps)) y)"

definition taken_log_density :: "fval \<Rightarrow> fval \<Rightarrow> fval \<Rightarrow> fval \<Rightarrow> fval \<Rightarrow> fval" where
  "taken_log_density mu sigma taken lo hi =
     (let u = to_unit taken lo hi
      in f_sub (normal_log_density mu sigma (inverse_tanh1 u))
               (f_log (f_add (f_sub (Fin 1) (f_mul u u)) EPS)))"

definition clamped_log_std :: "gaussian_mixin \<Rightarrow> fval \<Rightarrow> fval" where
  "clamped_log_std self x =
     (if g_clip_log_std self then f_clamp (g_log_std_min self) (g_log_std_max self) x else x)"

section \<open>Arithmetic of float32\<close>

text \<open>
  The operations above compute on real numbers without rounding. The tensors of the
  mixin are of type \<^verbatim>\<open>float32\<close>, and two of its properties depend on the rounding:
  whether the scaled actions stay inside the bounds, and how far \<open>atanh\<close> of \<open>tanh\<close>
  is from its argument. For these the arithmetic of IEEE 754 binary32 is modelled
  here: 24 bits of significand, the smallest exponent of the unit in the last place
  \<open>-149\<close> (gradual underflow), every result rounded to the nearest representable
  number, a tie to the one with an even significand, and a rounded result beyond the
  largest finite number replaced by an infinity. The sign of zero is not modelled.
\<close>

text \<open>The integer nearest to \<open>x\<close>, the even one of the two when \<open>x\<close> is halfway.\<close>

definition rhe :: "real \<Rightarrow> int" where
  "rhe x = (let n = \<lfloor>x\<rfloor>; r = x - of_int n
            in if r < 1 / 2 then n else if 1 / 2 < r then n + 1 else if even n then n else n + 1)"

text \<open>
  The exponent of the unit in the last place of \<open>x\<close>, the unit itself, and \<open>x\<close>
  rounded to a multiple of it.
\<close>

definition ulp_exp :: "real \<Rightarrow> int" where
  "ulp_exp x = (if x = 0 then - 149 else max (\<lfloor>log 2 \<bar>x\<bar>\<rfloor> - 23) (- 149))"

definition ulp32 :: "real \<Rightarrow> real" where
  "ulp32 x = 2 powi ulp_exp x"

definition rnd32 :: "real \<Rightarrow> real" where
  "rnd32 x = of_int (rhe (x / ulp32 x)) * ulp32 x"

text \<open>The largest finite number of the format, and the conversion of a real number.\<close>

definition f32_max :: real where
  "f32_max = (2 - 1 / 2 ^ 23) * 2 ^ 127"

definition to_f32 :: "real \<Rightarrow> fval" where
  "to_f32 x = (let r = rnd32 x in if f32_max < \<bar>r\<bar> then signed_inf (0 < r) else Fin r)"

fun round32 :: "fval \<Rightarrow> fval" where
  "round32 (Fin x) = to_f32 x"
| "round32 v = v"

text \<open>
  The four basic operations on elements of type \<^verbatim>\<open>float32\<close>: the exact result,
  rounded. torch runs each operation of an expression as one kernel, so every
  intermediate result is rounded.
\<close>

definition f32_add :: "fval \<Rightarrow> fval \<Rightarrow> fval" where
  "f32_add a b = round32 (f_add a b)"

definition f32_sub :: "fval \<Rightarrow> fval \<Rightarrow> fval" where
  "f32_sub a b = round32 (f_sub a b)"

definition f32_mul :: "fval \<Rightarrow> fval \<Rightarrow> fval" where
  "f32_mul a b = round32 (f_mul a b)"

definition f32_div :: "fval \<Rightarrow> fval \<Rightarrow> fval" where
  "f32_div a b = round32 (f_div a b)"

text \<open>
  \<^verbatim>\<open>torch.tanh\<close> and \<^verbatim>\<open>log1p\<close> on \<^verbatim>\<open>float32\<close> are functions of the tensor library,
  and IEEE 754 does not fix their results to the last bit. They are parameters here:
  \<open>tanh32\<close> and \<open>log1p32\<close> give the result on a finite argument (for \<open>log1p32\<close> an
  argument above -1), the special cases are those of the exact functions above. A
  library is \<open>accurate\<close> when both results are within two units in the last place of
  the exact value; \<open>correctly_rounded\<close> is the library that returns the exact value
  rounded.
\<close>

record libm =
  tanh32 :: "real \<Rightarrow> real"
  log1p32 :: "real \<Rightarrow> real"

fun f32_tanh :: "libm \<Rightarrow> fval \<Rightarrow> fval" where
  "f32_tanh lib (Fin r) = Fin (tanh32 lib r)"
| "f32_tanh lib PInf = Fin 1"
| "f32_tanh lib NInf = Fin (- 1)"
| "f32_tanh lib NaN = NaN"

fun f32_log1p :: "libm \<Rightarrow> fval \<Rightarrow> fval" where
  "f32_log1p lib (Fin r) = (if - 1 < r then Fin (log1p32 lib r) else if r = - 1 then NInf else NaN)"
| "f32_log1p lib PInf = PInf"
| "f32_log1p lib NInf = NaN"
| "f32_log1p lib NaN = NaN"

definition accurate :: "libm \<Rightarrow> bool" where
  "accurate lib \<longleftrightarrow>
     (\<forall>x. \<bar>tanh32 lib x - tanh x\<bar> \<le> 2 * ulp32 (tanh x))
   \<and> (\<forall>x. - 1 < x \<longrightarrow> \<bar>log1p32 lib x - ln (1 + x)\<bar> \<le> 2 * ulp32 (ln (1 + x)))"

definition correctly_rounded :: libm where
  "correctly_rounded = \<lparr>tanh32 = (\<lambda>x. rnd32 (tanh x)), log1p32 = (\<lambda>x. rnd32 (ln (1 + x)))\<rparr>"

subsection \<open>The scaling of line 181 and the inverse hyperbolic tangent in float32\<close>

text \<open>
  Lines 181 and 183, \<^verbatim>\<open>((x + 1) / 2.0) * (max - min) + min\<close>, on \<^verbatim>\<open>float32\<close>
  tensors: the two scalars become \<^verbatim>\<open>float32\<close> numbers, and the sum, the quotient,
  the difference of the bounds, the product and the last sum are each rounded. In
  line 181 \<open>x\<close> is \<^verbatim>\<open>torch.tanh(actions)\<close>.
\<close>

definition rescale32 :: "tensor \<Rightarrow> tensor \<Rightarrow> tensor \<Rightarrow> error + tensor" where
  "rescale32 x mn mx =
     (let half = map1 (\<lambda>v. f32_div v (Fin 2)) (map1 (\<lambda>v. f32_add v (Fin 1)) x)
      in bind (tbin f32_sub mx mn) (\<lambda>range.
         bind (tbin f32_mul half range) (\<lambda>y.
         tbin f32_add y mn)))"

text \<open>
  The static methods \<open>atanh\<close>, \<^verbatim>\<open>0.5 * (x.log1p() - (-x).log1p())\<close>, and
  \<open>inverse_tanh\<close> on a \<^verbatim>\<open>float32\<close> tensor. The negation and the clamp are exact; the
  two bounds of the clamp, \<open>-1 + eps\<close> and \<open>1 - eps\<close> with \<open>eps\<close> the machine epsilon
  of the format, are numbers of the format.
\<close>

definition atanh32 :: "libm \<Rightarrow> tensor \<Rightarrow> error + tensor" where
  "atanh32 lib x =
     bind (tbin f32_sub (map1 (f32_log1p lib) x) (map1 (f32_log1p lib) (map1 f_neg x))) (\<lambda>d.
     Inr (map1 (f32_mul (Fin (1 / 2))) d))"

definition inverse_tanh32 :: "libm \<Rightarrow> tensor \<Rightarrow> error + tensor" where
  "inverse_tanh32 lib y =
     (let eps = finfo_eps
      in atanh32 lib (map1 (f_clamp (Fin (- 1 + eps)) (Fin (1 - eps))) y))"

text \<open>\<open>atanh32\<close> on one element.\<close>

definition atanh32_1 :: "libm \<Rightarrow> fval \<Rightarrow> fval" where
  "atanh32_1 lib v = f32_mul (Fin (1 / 2)) (f32_sub (f32_log1p lib v) (f32_log1p lib (f_neg v)))"

section \<open>Properties of the space-size resolver\<close>

lemma get_space_sizes_all_ok:
  "\<forall>(key, sp) \<in> set spaces. \<not> isl (get_space_size sp b) \<Longrightarrow>
   get_space_sizes spaces b = Inr (map (\<lambda>(key, sp). projr (get_space_size sp b)) spaces)"
proof (induction spaces)
  case Nil
  then show ?case by simp
next
  case (Cons p spaces)
  obtain key sp where p: "p = (key, sp)" by (cases p)
  from Cons.prems p have ok: "\<not> isl (get_space_size sp b)" by simp
  then obtain n where n: "get_space_size sp b = Inr n" by (cases "get_space_size sp b") auto
  from Cons.prems have "\<forall>(key, sp) \<in> set spaces. \<not> isl (get_space_size sp b)" by simp
  with Cons.IH have "get_space_sizes spaces b =
      Inr (map (\<lambda>(key, sp). projr (get_space_size sp b)) spaces)" by blast
  with p n show ?case by simp
qed

lemma get_space_sizes_some_fail:
  "\<exists>(key, sp) \<in> set spaces. isl (get_space_size sp b) \<Longrightarrow> isl (get_space_sizes spaces b)"
proof (induction spaces)
  case Nil
  then show ?case by simp
next
  case (Cons p spaces)
  obtain key sp where p: "p = (key, sp)" by (cases p)
  show ?case
  proof (cases "get_space_size sp b")
    case (Inl e)
    with p show ?thesis by simp
  next
    case (Inr n)
    with Cons.prems p have "\<exists>(key, sp) \<in> set spaces. isl (get_space_size sp b)" by auto
    with Cons.IH have "isl (get_space_sizes spaces b)" by blast
    with p Inr show ?thesis by (cases "get_space_sizes spaces b") auto
  qed
qed

text \<open>
  C8. The resolver is a function of the space and the flag. A number of type \<open>int\<close>
  resolves to itself and one of type \<open>float\<close> to Python's \<open>int\<close> of it; a Dict space
  whose children all resolve resolves to the sum of their sizes under the same flag,
  and one with a child that fails, fails; a Discrete space resolves to 1 when the
  flag is off, whatever its \<open>n\<close>; a space of no handled class, and an object that is
  no space at all, raise the \<open>ValueError\<close> (the spec's UnsupportedSpaceError).
\<close>

theorem get_space_size_resolves:
  "get_space_size (IntSpace n) b = Inr n
   \<and> get_space_size (FloatSpace x) b = py_int x
   \<and> ((\<forall>(key, sp) \<in> set spaces. \<not> isl (get_space_size sp b)) \<longrightarrow>
        get_space_size (Dict l spaces) b =
          Inr (\<Sum>(key, sp) \<leftarrow> spaces. projr (get_space_size sp b)))
   \<and> ((\<exists>(key, sp) \<in> set spaces. isl (get_space_size sp b)) \<longrightarrow>
        isl (get_space_size (Dict l spaces) b))
   \<and> get_space_size (Discrete l m) False = Inr 1
   \<and> get_space_size (OtherSpace l) b = Inl (ValueError ''Space type not supported'')
   \<and> get_space_size OtherObject b = Inl (ValueError ''Space type not supported'')"
proof -
  have ok: "(\<forall>(key, sp) \<in> set spaces. \<not> isl (get_space_size sp b)) \<longrightarrow>
        get_space_size (Dict l spaces) b =
          Inr (\<Sum>(key, sp) \<leftarrow> spaces. projr (get_space_size sp b))"
    by (simp add: get_space_sizes_all_ok)
  have bad: "(\<exists>(key, sp) \<in> set spaces. isl (get_space_size sp b)) \<longrightarrow>
        isl (get_space_size (Dict l spaces) b)"
  proof
    assume "\<exists>(key, sp) \<in> set spaces. isl (get_space_size sp b)"
    then have "isl (get_space_sizes spaces b)" by (rule get_space_sizes_some_fail)
    then show "isl (get_space_size (Dict l spaces) b)"
      by (cases "get_space_sizes spaces b") auto
  qed
  from ok bad show ?thesis by simp
qed

text \<open>
  The Dict space of the source's docstring, a Box of shape (2, 3) and a Discrete of 4:
  7 with the flag off. A float resolves by truncation, and a Dict with an unsupported
  child fails.
\<close>

theorem get_space_size_resolves_witness:
  "get_space_size (IntSpace 2) False = Inr 2
   \<and> get_space_size (FloatSpace (Fin (5 / 2))) False = Inr 2
   \<and> get_space_size (Dict Gymnasium
        [(''a'', Box Gymnasium [2, 3] (replicate 6 (Fin (- 1))) (replicate 6 (Fin 1))),
         (''b'', Discrete Gymnasium 4)]) False = Inr 7
   \<and> isl (get_space_size (Dict Gymnasium
        [(''a'', Discrete Gymnasium 4), (''b'', OtherSpace Gymnasium)]) False)
   \<and> get_space_size (Discrete Gymnasium 4) False = Inr 1
   \<and> get_space_size (OtherSpace Gymnasium) False = Inl (ValueError ''Space type not supported'')"
  using get_space_size_resolves [of 2 False "Fin (5 / 2)"
      "[(''a'', Box Gymnasium [2, 3] (replicate 6 (Fin (- 1))) (replicate 6 (Fin 1))),
        (''b'', Discrete Gymnasium 4)]" Gymnasium 4]
    get_space_size_resolves [of 2 False "Fin (5 / 2)"
      "[(''a'', Discrete Gymnasium 4), (''b'', OtherSpace Gymnasium)]" Gymnasium 4]
  by (simp add: np_prod_def)

section \<open>Properties of arrays and broadcasting\<close>

lemma length_all_indices: "length (all_indices s) = prod_list s"
proof (induction s)
  case Nil show ?case by simp
next
  case (Cons n ns)
  have "length (concat (map (\<lambda>i. map ((#) i) (all_indices ns)) [0..<n])) = n * prod_list ns"
    by (induction n) (simp_all add: Cons.IH)
  then show ?case by simp
qed

lemma concat_blocks: "concat (map (\<lambda>i. map (\<lambda>j. i * p + j) [0..<p]) [0..<n]) = [0..<n * p]"
proof (induction n)
  case 0 show ?case by simp
next
  case (Suc n)
  have "map (\<lambda>j. n * p + j) [0..<p] = [n * p..<n * p + p]"
    by (simp add: map_add_upt add.commute)
  moreover have "[0..<n * p] @ [n * p..<n * p + p] = [0..<n * p + p]"
    using upt_add_eq_append[of 0 "n * p" p] by simp
  ultimately show ?case using Suc by (simp add: add.commute)
qed

lemma map_offset_all_indices: "map (offset s) (all_indices s) = [0..<prod_list s]"
proof (induction s)
  case Nil show ?case by simp
next
  case (Cons n ns)
  have "map (offset (n # ns)) (all_indices (n # ns))
      = concat (map (\<lambda>i. map (\<lambda>idx. i * prod_list ns + offset ns idx) (all_indices ns)) [0..<n])"
    by (simp add: map_concat comp_def)
  also have "\<dots> = concat (map (\<lambda>i. map (\<lambda>j. i * prod_list ns + j) (map (offset ns) (all_indices ns))) [0..<n])"
    by (simp add: comp_def)
  also have "\<dots> = [0..<n * prod_list ns]"
    by (simp only: Cons.IH concat_blocks)
  finally show ?case by simp
qed

lemma offset_nth_all_indices:
  assumes "k < prod_list s"
  shows "offset s (all_indices s ! k) = k"
proof -
  have "map (offset s) (all_indices s) ! k = [0..<prod_list s] ! k"
    by (simp only: map_offset_all_indices)
  with assms show ?thesis by (simp add: length_all_indices)
qed

lemma index_in_all_indices:
  assumes "idx \<in> set (all_indices s)"
  shows "offset s idx < prod_list s \<and> all_indices s ! offset s idx = idx"
proof -
  from assms obtain k where k: "k < length (all_indices s)" "all_indices s ! k = idx"
    by (auto simp: in_set_conv_nth)
  then have "offset s idx = k" using offset_nth_all_indices[of k s] by (simp add: length_all_indices)
  with k show ?thesis by (simp add: length_all_indices)
qed

lemma get_tabulate:
  "idx \<in> set (all_indices s) \<Longrightarrow> get (tabulate s f) idx = f idx"
  using index_in_all_indices[of idx s] by (simp add: get_def tabulate_def length_all_indices)

lemma wf_tabulate: "wf_tensor (tabulate s f)"
  by (simp add: wf_tensor_def tabulate_def length_all_indices)

lemma shape_tabulate: "shape (tabulate s f) = s"
  by (simp add: tabulate_def)

lemma get_map1:
  "wf_tensor t \<Longrightarrow> idx \<in> set (all_indices (shape t)) \<Longrightarrow> get (map1 f t) idx = f (get t idx)"
  using index_in_all_indices[of idx "shape t"] by (simp add: get_def map1_def wf_tensor_def)

lemma all_indices_valid:
  "idx \<in> set (all_indices s) \<longleftrightarrow> list_all2 (<) idx s"
proof (induction s arbitrary: idx)
  case Nil show ?case by auto
next
  case (Cons n ns)
  show ?case
  proof (cases idx)
    case Nil then show ?thesis by auto
  next
    case (Cons i rest)
    have "i # rest \<in> set (all_indices (n # ns)) \<longleftrightarrow> i < n \<and> rest \<in> set (all_indices ns)"
      by auto
    with Cons show ?thesis by (simp add: Cons.IH)
  qed
qed

lemma tabulate_get:
  assumes "wf_tensor t"
  shows "tabulate (shape t) (get t) = t"
proof -
  have "map (\<lambda>idx. data t ! offset (shape t) idx) (all_indices (shape t))
      = map ((!) (data t)) (map (offset (shape t)) (all_indices (shape t)))"
    by simp
  also have "\<dots> = map ((!) (data t)) [0..<length (data t)]"
    using assms by (simp only: map_offset_all_indices wf_tensor_def)
  also have "\<dots> = data t" by (rule map_nth)
  finally show ?thesis by (cases t) (simp add: tabulate_def get_def[abs_def])
qed

lemma bdims_same: "bdims s s = Some s"
  by (induction s) auto

lemma bshape_same: "bshape s s = Some s"
  by (simp add: bshape_def bdims_same)

lemma bidx_same: "idx \<in> set (all_indices s) \<Longrightarrow> bidx s idx = idx"
proof (induction s arbitrary: idx)
  case Nil then show ?case by (simp add: bidx_def)
next
  case (Cons n ns)
  then obtain i rest where idx: "idx = i # rest" "i < n" "rest \<in> set (all_indices ns)" by auto
  from Cons.IH[OF idx(3)] have "bidx ns rest = rest" .
  moreover have "length rest = length ns" using idx(3) by (simp add: all_indices_valid list_all2_lengthD)
  ultimately show ?case using idx by (auto simp: bidx_def)
qed

lemma bget_same: "idx \<in> set (all_indices (shape t)) \<Longrightarrow> bget t idx = get t idx"
  by (simp add: bget_def bidx_same)

lemma map2T_same_shape:
  assumes "wf_tensor a" "wf_tensor b" "shape a = shape b"
  shows "map2T f a b = Some (Tensor (shape a) (map2 f (data a) (data b)))"
proof -
  let ?s = "shape a"
  have "map (\<lambda>idx. f (bget a idx) (bget b idx)) (all_indices ?s)
      = map (\<lambda>idx. f (data a ! offset ?s idx) (data b ! offset ?s idx)) (all_indices ?s)"
    using assms(3) by (intro map_cong) (simp_all add: bget_same get_def)
  also have "\<dots> = map (\<lambda>k. f (data a ! k) (data b ! k)) (map (offset ?s) (all_indices ?s))"
    by (simp add: comp_def)
  also have "\<dots> = map (\<lambda>k. f (data a ! k) (data b ! k)) [0..<prod_list ?s]"
    by (simp only: map_offset_all_indices)
  also have "\<dots> = map2 f (data a) (data b)"
    using assms by (auto simp: wf_tensor_def intro!: nth_equalityI)
  finally show ?thesis using assms(3) by (simp add: map2T_def bshape_same tabulate_def)
qed

lemma wf_map1: "wf_tensor t \<Longrightarrow> wf_tensor (map1 f t)"
  by (simp add: wf_tensor_def map1_def)


subsection \<open>Reading a broadcast operand\<close>

lemma fits_refl: "fits s s"
  by (simp add: fits_def list_all2_conv_all_nth)

lemma fits_nth:
  "fits s t \<longleftrightarrow> length s \<le> length t \<and>
     (\<forall>j < length s. s ! j = t ! (length t - length s + j) \<or> s ! j = 1)"
  by (auto simp: fits_def list_all2_conv_all_nth)

lemma fits_trans:
  assumes "fits a b" "fits b c"
  shows "fits a c"
proof -
  from assms have len: "length a \<le> length b" "length b \<le> length c" by (simp_all add: fits_nth)
  have "a ! j = c ! (length c - length a + j) \<or> a ! j = 1" if j: "j < length a" for j
  proof -
    from assms(1) j have 1: "a ! j = b ! (length b - length a + j) \<or> a ! j = 1"
      unfolding fits_nth by blast
    have "length b - length a + j < length b" using j len by simp
    with assms(2) have 2: "b ! (length b - length a + j) = c ! (length c - length b + (length b - length a + j))
        \<or> b ! (length b - length a + j) = 1"
      unfolding fits_nth by blast
    have "length c - length b + (length b - length a + j) = length c - length a + j"
      using len by simp
    with 1 2 show ?thesis by auto
  qed
  moreover have "length a \<le> length c" using len by simp
  ultimately show ?thesis unfolding fits_nth by blast
qed

lemma bdims_length:
  "bdims a b = Some c \<Longrightarrow> length a = length b \<and> length c = length a"
  by (induction a b arbitrary: c rule: bdims.induct) (auto split: if_splits)

lemma bdims_all2:
  "bdims a b = Some c \<Longrightarrow>
     list_all2 (\<lambda>m n. m = n \<or> m = 1) a c \<and> list_all2 (\<lambda>m n. m = n \<or> m = 1) b c"
  by (induction a b arbitrary: c rule: bdims.induct) (auto split: if_splits)

lemma all2_pad_fits:
  assumes "list_all2 (\<lambda>m n. m = n \<or> m = (1::nat)) (replicate k 1 @ a) c"
  shows "fits a c"
proof -
  from assms have len: "length c = k + length a" by (auto dest: list_all2_lengthD)
  from assms have "list_all2 (\<lambda>m n. m = n \<or> m = (1::nat)) (drop k (replicate k 1 @ a)) (drop k c)"
    by (rule list_all2_dropI)
  with len show ?thesis by (simp add: fits_def)
qed

lemma bshape_fits:
  assumes "bshape a b = Some c"
  shows "fits a c" "fits b c"
  using assms bdims_all2[of "replicate (max (length a) (length b) - length a) 1 @ a"
      "replicate (max (length a) (length b) - length b) 1 @ b" c]
  by (auto simp: bshape_def Let_def intro: all2_pad_fits)

lemma bshape_length:
  "bshape a b = Some c \<Longrightarrow> length c = max (length a) (length b)"
  using bdims_length[of "replicate (max (length a) (length b) - length a) 1 @ a"
      "replicate (max (length a) (length b) - length b) 1 @ b" c]
  by (auto simp: bshape_def Let_def)

lemma valid_nth:
  "idx \<in> set (all_indices s) \<longleftrightarrow> length idx = length s \<and> (\<forall>j < length s. idx ! j < s ! j)"
  by (auto simp: all_indices_valid list_all2_conv_all_nth)

lemma length_bidx: "length s \<le> length idx \<Longrightarrow> length (bidx s idx) = length s"
  by (simp add: bidx_def)

lemma nth_bidx:
  "length s \<le> length idx \<Longrightarrow> j < length s \<Longrightarrow>
     bidx s idx ! j = (if s ! j = 1 then 0 else idx ! (length idx - length s + j))"
  by (simp add: bidx_def)

lemma bidx_valid:
  assumes "fits a c" "idx \<in> set (all_indices c)"
  shows "bidx a idx \<in> set (all_indices a)"
proof -
  from assms have len: "length a \<le> length c" "length idx = length c"
    by (simp_all add: fits_nth valid_nth)
  have "bidx a idx ! j < a ! j" if j: "j < length a" for j
  proof (cases "a ! j = 1")
    case True
    with j len show ?thesis by (simp add: nth_bidx)
  next
    case False
    with assms(1) j have "a ! j = c ! (length c - length a + j)" by (auto simp: fits_nth)
    moreover have "idx ! (length c - length a + j) < c ! (length c - length a + j)"
      using assms(2) j len by (simp add: valid_nth)
    ultimately show ?thesis using False j len by (simp add: nth_bidx)
  qed
  with len show ?thesis by (simp add: valid_nth length_bidx)
qed

lemma bidx_bidx:
  assumes "fits a b" "fits b c" "idx \<in> set (all_indices c)"
  shows "bidx a (bidx b idx) = bidx a idx"
proof (rule nth_equalityI)
  from assms have len: "length a \<le> length b" "length b \<le> length c" "length idx = length c"
    by (simp_all add: fits_nth valid_nth)
  then show "length (bidx a (bidx b idx)) = length (bidx a idx)"
    by (simp add: length_bidx)
  fix j assume "j < length (bidx a (bidx b idx))"
  then have j: "j < length a" using len by (simp add: length_bidx)
  show "bidx a (bidx b idx) ! j = bidx a idx ! j"
  proof (cases "a ! j = 1")
    case True
    with j len show ?thesis by (simp add: nth_bidx length_bidx)
  next
    case False
    let ?k = "length b - length a + j"
    from assms(1) j False have ab: "a ! j = b ! ?k" by (auto simp: fits_nth)
    have k: "?k < length b" using j len by simp
    have "bidx a (bidx b idx) ! j = bidx b idx ! ?k"
      using False j len by (simp add: nth_bidx length_bidx)
    also have "\<dots> = idx ! (length idx - length b + ?k)"
      using k len ab False by (simp add: nth_bidx)
    also have "length idx - length b + ?k = length idx - length a + j"
      using len by simp
    also have "idx ! (length idx - length a + j) = bidx a idx ! j"
      using False j len by (simp add: nth_bidx)
    finally show ?thesis .
  qed
qed

lemma bget_tabulate:
  "fits s c \<Longrightarrow> idx \<in> set (all_indices c) \<Longrightarrow> bget (tabulate s f) idx = f (bidx s idx)"
  using bidx_valid[of s c idx] by (simp add: bget_def shape_tabulate get_tabulate)

lemma shape_map1: "shape (map1 f t) = shape t"
  by (simp add: map1_def)

lemma bget_map1:
  "wf_tensor t \<Longrightarrow> fits (shape t) c \<Longrightarrow> idx \<in> set (all_indices c) \<Longrightarrow>
     bget (map1 f t) idx = f (bget t idx)"
  using get_map1[of t "bidx (shape t) idx" f] bidx_valid[of "shape t" c idx]
  by (simp add: bget_def shape_map1)

lemma tbin_Inr:
  "tbin f a b = Inr r \<longleftrightarrow>
     (\<exists>s. bshape (shape a) (shape b) = Some s \<and> r = tabulate s (\<lambda>idx. f (bget a idx) (bget b idx)))"
  by (auto simp: tbin_def map2T_def split: option.splits)

lemma tbin_ok:
  "bshape (shape a) (shape b) = Some s \<Longrightarrow>
     tbin f a b = Inr (tabulate s (\<lambda>idx. f (bget a idx) (bget b idx)))"
  by (simp add: tbin_def map2T_def)

lemma bget_bidx:
  "fits (shape t) s \<Longrightarrow> fits s c \<Longrightarrow> idx \<in> set (all_indices c) \<Longrightarrow>
     bget t (bidx s idx) = bget t idx"
  by (simp add: bget_def bidx_bidx[of _ s c])

lemma bget_tbin:
  assumes "tbin f a b = Inr r" "fits (shape r) c" "idx \<in> set (all_indices c)"
  shows "bget r idx = f (bget a idx) (bget b idx)"
proof -
  from assms(1) obtain s where s: "bshape (shape a) (shape b) = Some s"
      "r = tabulate s (\<lambda>idx. f (bget a idx) (bget b idx))"
    by (auto simp: tbin_Inr)
  from s(1) have f: "fits (shape a) s" "fits (shape b) s" by (rule bshape_fits)+
  from assms(2) s(2) have sc: "fits s c" by (simp add: shape_tabulate)
  have "bget a (bidx s idx) = bget a idx" "bget b (bidx s idx) = bget b idx"
    using f sc assms(3) by (simp_all add: bget_bidx[of _ s c])
  then show ?thesis using s(2) sc assms(3)
    by (simp add: bget_tabulate[of s c])
qed

lemma tbin_props:
  assumes "tbin f a b = Inr r"
  shows "wf_tensor r" "fits (shape a) (shape r)" "fits (shape b) (shape r)"
    "bshape (shape a) (shape b) = Some (shape r)"
  using assms bshape_fits by (auto simp: tbin_Inr wf_tabulate shape_tabulate)

lemma bget_expand:
  "fits (shape t) s \<Longrightarrow> fits s c \<Longrightarrow> idx \<in> set (all_indices c) \<Longrightarrow>
     bget (expand s t) idx = bget t idx"
  by (simp add: expand_def bget_tabulate[of s c] bget_bidx[of _ s c])

section \<open>Properties of update_parameters\<close>

lemma soft_update_leaf_same_shape:
  assumes "wf_tensor a" "wf_tensor b" "shape a = shape b"
  shows "soft_update_leaf polyak a (Leaf b) = Inr (Tensor (shape a) (map2 (interpolate polyak) (data b) (data a)))"
proof -
  have "map2T f_add (map1 (f_mul polyak) b) (map1 (f_mul (f_sub (Fin 1) polyak)) a)
      = Some (Tensor (shape a) (map2 f_add (map (f_mul polyak) (data b)) (map (f_mul (f_sub (Fin 1) polyak)) (data a))))"
    using map2T_same_shape[of "map1 (f_mul polyak) b" "map1 (f_mul (f_sub (Fin 1) polyak)) a" f_add] assms
    by (simp add: wf_map1) (simp add: map1_def)
  moreover have "map2 f_add (map (f_mul polyak) (data b)) (map (f_mul (f_sub (Fin 1) polyak)) (data a))
      = map2 (interpolate polyak) (data b) (data a)"
    by (simp add: zip_map1 zip_map2 interpolate_def[abs_def] case_prod_unfold)
  ultimately show ?thesis by (simp add: soft_update_leaf_def)
qed

lemma same_shapes_prefix:
  "same_shapes t r \<Longrightarrow> prefix_mismatch t r = None"
  "same_shapes_items items items' \<Longrightarrow> prefix_mismatch_items items items' = None"
  by (induction t r and items items' rule: same_shapes_same_shapes_items.induct) auto

lemma map_leaves_same_shapes:
  "same_shapes t r \<Longrightarrow> list_all wf_tensor (leaves t) \<Longrightarrow> list_all wf_tensor (leaves r) \<Longrightarrow>
     map_leaves (soft_update_leaf polyak) t r = Inr (interpolate_tree polyak t r)"
  "same_shapes_items items items' \<Longrightarrow> map fst items = map fst items' \<Longrightarrow>
     list_all wf_tensor (leaves_items items) \<Longrightarrow> list_all wf_tensor (leaves_items items') \<Longrightarrow>
     map_leaves_items (soft_update_leaf polyak) items items' = Inr (interpolate_items polyak items items')"
proof (induction t r and items items' rule: same_shapes_same_shapes_items.induct)
  case (1 a b)
  then show ?case by (simp add: soft_update_leaf_same_shape)
next
  case (4 k c items k' c' items')
  then show ?case by simp
qed auto

lemma interpolate_zero: "is_fin m \<Longrightarrow> interpolate (Fin 0) m p = p"
  by (cases m; cases p) (simp_all add: interpolate_def f_sub_def signed_inf_def)

lemma map2_interpolate_zero:
  "list_all is_fin ms \<Longrightarrow> length ms = length ps \<Longrightarrow> map2 (interpolate (Fin 0)) ms ps = ps"
proof (induction ms arbitrary: ps)
  case Nil then show ?case by simp
next
  case (Cons m ms)
  then show ?case by (cases ps) (simp_all add: interpolate_zero)
qed

lemma interpolate_tree_zero:
  "same_shapes t r \<Longrightarrow> list_all wf_tensor (leaves t) \<Longrightarrow> list_all wf_tensor (leaves r) \<Longrightarrow>
     list_all (\<lambda>a. list_all is_fin (data a)) (leaves r) \<Longrightarrow> interpolate_tree (Fin 0) t r = t"
  "same_shapes_items items items' \<Longrightarrow> map fst items = map fst items' \<Longrightarrow>
     list_all wf_tensor (leaves_items items) \<Longrightarrow> list_all wf_tensor (leaves_items items') \<Longrightarrow>
     list_all (\<lambda>a. list_all is_fin (data a)) (leaves_items items') \<Longrightarrow>
     interpolate_items (Fin 0) items items' = items"
proof (induction t r and items items' rule: same_shapes_same_shapes_items.induct)
  case (1 a b)
  then show ?case by (cases a) (simp add: map2_interpolate_zero wf_tensor_def)
qed auto

text \<open>
  C6 (amended). With \<open>polyak = 1\<close> the tree of the source is installed as it is,
  by replacement: the new parameters are the source's, whatever the two trees are. With
  any other \<open>polyak\<close>, for two well-formed trees with the same paths and the same
  array shapes, the call succeeds and each parameter becomes
  \<open>polyak * source_param + (1 - polyak) * own_param\<close>. With \<open>polyak = 0\<close> the
  parameters are left unchanged when every element of the source's parameters is finite.
\<close>

theorem update_parameters_polyak:
  "update_parameters self model (Fin 1) = Inr (self\<lparr>params := params model\<rparr>)
   \<and> (same_shapes (params self) (params model) \<and> wf_tree (params self) \<and> wf_tree (params model)
        \<and> polyak \<noteq> Fin 1 \<longrightarrow>
      update_parameters self model polyak =
        Inr (self\<lparr>params := interpolate_tree polyak (params self) (params model)\<rparr>))
   \<and> (same_shapes (params self) (params model) \<and> wf_tree (params self) \<and> wf_tree (params model)
        \<and> finite_tree (params model) \<longrightarrow>
      update_parameters self model (Fin 0) = Inr self)"
proof -
  have soft: "update_parameters self model polyak =
        Inr (self\<lparr>params := interpolate_tree polyak (params self) (params model)\<rparr>)"
    if "same_shapes (params self) (params model)" "wf_tree (params self)" "wf_tree (params model)"
       "polyak \<noteq> Fin 1" for polyak
    using that
    by (simp add: update_parameters_def tree_map_def same_shapes_prefix map_leaves_same_shapes wf_tree_def)
  have zero: "update_parameters self model (Fin 0) = Inr self"
    if "same_shapes (params self) (params model)" "wf_tree (params self)" "wf_tree (params model)"
       "finite_tree (params model)"
  proof -
    have "interpolate_tree (Fin 0) (params self) (params model) = params self"
      using that by (simp add: interpolate_tree_zero wf_tree_def finite_tree_def)
    with soft[of "Fin 0"] that show ?thesis by simp
  qed
  show ?thesis using soft zero by (simp add: update_parameters_def)
qed

text \<open>
  A tree with one array of two elements: half-way between the two trees with
  \<open>polyak = 1/2\<close>, unchanged with \<open>polyak = 0\<close>, the source's with \<open>polyak = 1\<close>.
\<close>

theorem update_parameters_polyak_witness:
  "same_shapes (Node [(''w'', Leaf (Tensor [2] [Fin 1, Fin 3]))])
               (Node [(''w'', Leaf (Tensor [2] [Fin 5, Fin 7]))])
   \<and> wf_tree (Node [(''w'', Leaf (Tensor [2] [Fin 1, Fin 3]))])
   \<and> wf_tree (Node [(''w'', Leaf (Tensor [2] [Fin 5, Fin 7]))])
   \<and> finite_tree (Node [(''w'', Leaf (Tensor [2] [Fin 5, Fin 7]))])
   \<and> update_parameters \<lparr>apply_fn = (), params = Node [(''w'', Leaf (Tensor [2] [Fin 1, Fin 3]))]\<rparr>
         \<lparr>apply_fn = (), params = Node [(''w'', Leaf (Tensor [2] [Fin 5, Fin 7]))]\<rparr> (Fin (1 / 2))
       = Inr \<lparr>apply_fn = (), params = Node [(''w'', Leaf (Tensor [2] [Fin 3, Fin 5]))]\<rparr>
   \<and> update_parameters \<lparr>apply_fn = (), params = Node [(''w'', Leaf (Tensor [2] [Fin 1, Fin 3]))]\<rparr>
         \<lparr>apply_fn = (), params = Node [(''w'', Leaf (Tensor [2] [Fin 5, Fin 7]))]\<rparr> (Fin 0)
       = Inr \<lparr>apply_fn = (), params = Node [(''w'', Leaf (Tensor [2] [Fin 1, Fin 3]))]\<rparr>
   \<and> update_parameters \<lparr>apply_fn = (), params = Node [(''w'', Leaf (Tensor [2] [Fin 1, Fin 3]))]\<rparr>
         \<lparr>apply_fn = (), params = Node [(''w'', Leaf (Tensor [2] [Fin 5, Fin 7]))]\<rparr> (Fin 1)
       = Inr \<lparr>apply_fn = (), params = Node [(''w'', Leaf (Tensor [2] [Fin 5, Fin 7]))]\<rparr>"
  using update_parameters_polyak [of
      "\<lparr>apply_fn = (), params = Node [(''w'', Leaf (Tensor [2] [Fin 1, Fin 3]))]\<rparr>"
      "\<lparr>apply_fn = (), params = Node [(''w'', Leaf (Tensor [2] [Fin 5, Fin 7]))]\<rparr>"
      "Fin (1 / 2)"]
  by (simp add: wf_tree_def finite_tree_def wf_tensor_def interpolate_def f_sub_def)

lemma mismatch_fails:
  "\<not> same_paths t r \<Longrightarrow> prefix_mismatch t r = None \<Longrightarrow> isl (map_leaves (soft_update_leaf polyak) t r)"
  "\<not> same_paths_items items items' \<Longrightarrow> prefix_mismatch_items items items' = None \<Longrightarrow>
     isl (map_leaves_items (soft_update_leaf polyak) items items')"
proof (induction t r and items items' rule: same_paths_same_paths_items.induct)
  case (4 k c items k' c' items')
  show ?case
  proof (cases "same_paths c c'")
    case False
    with 4 have "isl (map_leaves (soft_update_leaf polyak) c c')" by (auto split: option.splits)
    then show ?thesis by (cases "map_leaves (soft_update_leaf polyak) c c'") auto
  next
    case True
    with 4 have "isl (map_leaves_items (soft_update_leaf polyak) items items')"
      by (auto split: option.splits)
    then show ?thesis
      by (cases "map_leaves (soft_update_leaf polyak) c c'";
          cases "map_leaves_items (soft_update_leaf polyak) items items'") auto
  qed
next
  case (2 items items')
  then have "isl (map_leaves_items (soft_update_leaf polyak) items items')"
    by (auto split: if_splits)
  then show ?case by (cases "map_leaves_items (soft_update_leaf polyak) items items'") auto
qed (auto simp: soft_update_leaf_def)

text \<open>
  C7 (amended). When \<open>polyak\<close> is not 1 and the two trees do not have the same paths,
  the call raises (the \<open>ValueError\<close> of \<open>tree_map\<close>, or a \<open>TypeError\<close> of the
  arithmetic on a leaf) and installs nothing. With \<open>polyak = 1\<close> there is no
  structural check: the source's tree is installed whatever its structure.
\<close>

theorem update_parameters_mismatch:
  "(polyak \<noteq> Fin 1 \<and> \<not> same_paths (params self) (params model) \<longrightarrow>
      isl (update_parameters self model polyak))
   \<and> update_parameters self model (Fin 1) = Inr (self\<lparr>params := params model\<rparr>)"
proof -
  have "isl (update_parameters self model polyak)"
    if "polyak \<noteq> Fin 1" "\<not> same_paths (params self) (params model)"
  proof (cases "prefix_mismatch (params self) (params model)")
    case (Some e)
    with that show ?thesis by (simp add: update_parameters_def tree_map_def)
  next
    case None
    with that have "isl (map_leaves (soft_update_leaf polyak) (params self) (params model))"
      by (simp add: mismatch_fails)
    with None that show ?thesis
      by (cases "map_leaves (soft_update_leaf polyak) (params self) (params model)")
         (auto simp: update_parameters_def tree_map_def)
  qed
  then show ?thesis by (simp add: update_parameters_def)
qed

text \<open>
  Two trees with different keys and \<open>polyak = 1/2\<close>: \<open>tree_map\<close> raises.
\<close>

theorem update_parameters_mismatch_witness:
  "Fin (1 / 2) \<noteq> Fin 1
   \<and> \<not> same_paths (Node [(''w'', Leaf (Tensor [1] [Fin 1]))]) (Node [(''b'', Leaf (Tensor [1] [Fin 0]))])
   \<and> isl (update_parameters \<lparr>apply_fn = (), params = Node [(''w'', Leaf (Tensor [1] [Fin 1]))]\<rparr>
         \<lparr>apply_fn = (), params = Node [(''b'', Leaf (Tensor [1] [Fin 0]))]\<rparr> (Fin (1 / 2)))
   \<and> update_parameters \<lparr>apply_fn = (), params = Node [(''w'', Leaf (Tensor [1] [Fin 1]))]\<rparr>
         \<lparr>apply_fn = (), params = Node [(''b'', Leaf (Tensor [1] [Fin 0]))]\<rparr> (Fin (1 / 2))
       = Inl (ValueError ''Tree structure mismatch'')"
  using update_parameters_mismatch [of "Fin (1 / 2)"
      "\<lparr>apply_fn = (), params = Node [(''w'', Leaf (Tensor [1] [Fin 1]))]\<rparr>"
      "\<lparr>apply_fn = (), params = Node [(''b'', Leaf (Tensor [1] [Fin 0]))]\<rparr>"]
  by (simp add: update_parameters_def tree_map_def)

text \<open>
  Against C6 as stated: two trees of the same structure, the source holding an infinite
  parameter. With \<open>polyak = 0\<close> the product \<open>0 * inf\<close> is not-a-number, and so is the
  updated parameter: the instance's parameter 1 is not left unchanged.
\<close>

theorem update_parameters_zero_counterexample:
  "same_shapes (Leaf (Tensor [1] [Fin 1])) (Leaf (Tensor [1] [PInf]))
   \<and> update_parameters \<lparr>apply_fn = (), params = Leaf (Tensor [1] [Fin 1])\<rparr>
        \<lparr>apply_fn = (), params = Leaf (Tensor [1] [PInf])\<rparr> (Fin 0)
      = Inr \<lparr>apply_fn = (), params = Leaf (Tensor [1] [NaN])\<rparr>"
  by (simp add: update_parameters_def tree_map_def soft_update_leaf_same_shape wf_tensor_def
      interpolate_def)

text \<open>
  Against C7 as stated: the two trees have different keys, and the hard update (the
  default \<open>polyak = 1\<close>) succeeds and installs the source's tree.
\<close>

theorem update_parameters_mismatch_counterexample:
  "\<not> same_paths (Node [(''w'', Leaf (Tensor [1] [Fin 1]))]) (Node [(''b'', Leaf (Tensor [2] [Fin 0, Fin 0]))])
   \<and> update_parameters \<lparr>apply_fn = (), params = Node [(''w'', Leaf (Tensor [1] [Fin 1]))]\<rparr>
        \<lparr>apply_fn = (), params = Node [(''b'', Leaf (Tensor [2] [Fin 0, Fin 0]))]\<rparr> (Fin 1)
      = Inr \<lparr>apply_fn = (), params = Node [(''b'', Leaf (Tensor [2] [Fin 0, Fin 0]))]\<rparr>"
  by (simp add: update_parameters_def)

section \<open>Properties of the constructor of the Gaussian mixin\<close>

lemma sanitize_vector:
  "length bound = n \<Longrightarrow> sanitize infty repl [n] bound = Inr (map (\<lambda>x. if x = infty then repl else x) bound)"
  by (cases "n = 0") (simp_all add: sanitize_def)

lemma map_replace_id: "map (\<lambda>x. if x = a then b else x) xs = xs \<longleftrightarrow> a \<notin> set xs \<or> a = b"
  by (induction xs) auto

text \<open>
  C10. When the action space of the instance is not a gymnasium space (a number, a
  shape sequence, a space of the other library), the constructor called with
  \<open>clip_actions = True\<close> does exactly what it does with \<open>clip_actions = False\<close>: the
  same result, the space left as it was, clipping off and no bounds on the instance;
  it raises nothing when the reduction is a valid one, and \<open>act\<close> on the instance is
  \<open>act\<close> on the instance built without clipping.
\<close>

theorem init_clip_needs_gymnasium:
  "\<not> is_gymnasium_space (st action_space) \<Longrightarrow>
     init st action_space True cls mn mx red = init st action_space False cls mn mx red
     \<and> fst (init st action_space True cls mn mx red) = st
     \<and> (\<forall>self. snd (init st action_space True cls mn mx red) = Inr self \<longrightarrow>
          \<not> g_clip_actions self \<and> g_clip_actions_min self = None \<and> g_clip_actions_max self = None)
     \<and> (\<forall>self self'. snd (init st action_space True cls mn mx red) = Inr self
            \<and> snd (init st action_space False cls mn mx red) = Inr self' \<longrightarrow>
          act self compute noise inputs role = act self' compute noise inputs role)
     \<and> (red \<in> set [''mean'', ''sum'', ''prod'', ''none''] \<longrightarrow>
          (\<exists>self. snd (init st action_space True cls mn mx red) = Inr self))"
  by (auto simp: init_def)

text \<open>A Box of the library \<open>gym\<close> with infinite bounds: nothing is clipped or written.\<close>

theorem init_clip_needs_gymnasium_witness:
  "\<not> is_gymnasium_space ((\<lambda>r. Box Gym [1] [NInf] [PInf]) 0)
   \<and> init (\<lambda>r. Box Gym [1] [NInf] [PInf]) 0 True True (Fin (- 20)) (Fin 2) ''sum''
     = init (\<lambda>r. Box Gym [1] [NInf] [PInf]) 0 False True (Fin (- 20)) (Fin 2) ''sum''
   \<and> fst (init (\<lambda>r. Box Gym [1] [NInf] [PInf]) 0 True True (Fin (- 20)) (Fin 2) ''sum'')
     = (\<lambda>r. Box Gym [1] [NInf] [PInf])
   \<and> (\<exists>self. snd (init (\<lambda>r. Box Gym [1] [NInf] [PInf]) 0 True True (Fin (- 20)) (Fin 2) ''sum'')
          = Inr self
        \<and> \<not> g_clip_actions self \<and> g_clip_actions_min self = None
        \<and> g_clip_actions_max self = None)"
proof -
  have h: "\<not> is_gymnasium_space ((\<lambda>r. Box Gym [1] [NInf] [PInf]) 0)" by simp
  note t = init_clip_needs_gymnasium [of "\<lambda>r. Box Gym [1] [NInf] [PInf]" 0 True "Fin (- 20)"
      "Fin 2" "''sum''", OF h]
  note t1 = t [THEN conjunct1]
  note t2 = t [THEN conjunct2, THEN conjunct1]
  note t3 = t [THEN conjunct2, THEN conjunct2, THEN conjunct1]
  note t5 = t [THEN conjunct2, THEN conjunct2, THEN conjunct2, THEN conjunct2]
  have "''sum'' \<in> set [''mean'', ''sum'', ''prod'', ''none'']" by simp
  with t5 obtain self where
    s: "snd (init (\<lambda>r. Box Gym [1] [NInf] [PInf]) 0 True True (Fin (- 20)) (Fin 2) ''sum'') = Inr self"
    by blast
  with t3 have "\<not> g_clip_actions self \<and> g_clip_actions_min self = None
        \<and> g_clip_actions_max self = None" by blast
  with s h t1 t2 show ?thesis by blast
qed

text \<open>
  C9 (amended). On a gymnasium Box whose bounds are vectors, the constructor with
  \<open>clip_actions = True\<close> writes into the space object the caller shares with the
  instance: every \<open>-inf\<close> of \<open>low\<close> becomes \<open>-1\<close> and every \<open>+inf\<close> of \<open>high\<close>
  becomes \<open>1\<close>, the other elements staying. With a valid reduction the instance's two
  bounds are tensors holding the arrays as written. The space is unchanged exactly
  when \<open>low\<close> holds no \<open>-inf\<close> and \<open>high\<close> no \<open>+inf\<close>.
\<close>

theorem init_sanitizes_in_place:
  "st action_space = Box Gymnasium [n] low high \<and> length low = n \<and> length high = n \<Longrightarrow>
     fst (init st action_space True cls mn mx red) =
       st(action_space := Box Gymnasium [n]
            (map (\<lambda>x. if x = NInf then Fin (- 1) else x) low)
            (map (\<lambda>x. if x = PInf then Fin 1 else x) high))
     \<and> (red \<in> set [''mean'', ''sum'', ''prod'', ''none''] \<longrightarrow>
          (\<exists>self. snd (init st action_space True cls mn mx red) = Inr self
             \<and> g_clip_actions self
             \<and> g_clip_actions_min self =
                 Some (Tensor [n] (map (\<lambda>x. if x = NInf then Fin (- 1) else x) low))
             \<and> g_clip_actions_max self =
                 Some (Tensor [n] (map (\<lambda>x. if x = PInf then Fin 1 else x) high))))
     \<and> (fst (init st action_space True cls mn mx red) = st
          \<longleftrightarrow> NInf \<notin> set low \<and> PInf \<notin> set high)"
proof -
  assume a: "st action_space = Box Gymnasium [n] low high \<and> length low = n \<and> length high = n"
  let ?lo = "map (\<lambda>x. if x = NInf then Fin (- 1) else x) low"
  let ?hi = "map (\<lambda>x. if x = PInf then Fin 1 else x) high"
  from a have d: "derive_bounds st action_space =
      Inr (st(action_space := Box Gymnasium [n] ?lo ?hi), Tensor [n] ?lo, Tensor [n] ?hi)"
    by (simp add: derive_bounds_def sanitize_vector)
  have f: "fst (init st action_space True cls mn mx red) = st(action_space := Box Gymnasium [n] ?lo ?hi)"
    using a d by (simp add: init_def)
  have s: "red \<in> set [''mean'', ''sum'', ''prod'', ''none''] \<longrightarrow>
          (\<exists>self. snd (init st action_space True cls mn mx red) = Inr self
             \<and> g_clip_actions self
             \<and> g_clip_actions_min self = Some (Tensor [n] ?lo)
             \<and> g_clip_actions_max self = Some (Tensor [n] ?hi))"
    using a d by (simp add: init_def)
  have "st(action_space := Box Gymnasium [n] ?lo ?hi) = st \<longleftrightarrow> ?lo = low \<and> ?hi = high"
    using a by (auto simp: fun_upd_idem_iff)
  then have u: "fst (init st action_space True cls mn mx red) = st
          \<longleftrightarrow> NInf \<notin> set low \<and> PInf \<notin> set high"
    using f by (simp add: map_replace_id)
  from f s u show ?thesis by blast
qed

text \<open>A Box of two dimensions with one infinite bound on each side.\<close>

theorem init_sanitizes_in_place_witness:
  "(\<lambda>r. Box Gymnasium [2] [NInf, Fin 0] [Fin 3, PInf]) 0 = Box Gymnasium [2] [NInf, Fin 0] [Fin 3, PInf]
   \<and> length [NInf, Fin 0] = 2 \<and> length [Fin 3, PInf] = 2
   \<and> fst (init (\<lambda>r. Box Gymnasium [2] [NInf, Fin 0] [Fin 3, PInf]) 0 True True (Fin (- 20)) (Fin 2) ''sum'') 0
       = Box Gymnasium [2] [Fin (- 1), Fin 0] [Fin 3, Fin 1]
   \<and> (\<exists>self. snd (init (\<lambda>r. Box Gymnasium [2] [NInf, Fin 0] [Fin 3, PInf]) 0 True True (Fin (- 20)) (Fin 2) ''sum'') = Inr self
        \<and> g_clip_actions_min self = Some (Tensor [2] [Fin (- 1), Fin 0])
        \<and> g_clip_actions_max self = Some (Tensor [2] [Fin 3, Fin 1]))"
  using init_sanitizes_in_place [of "\<lambda>r. Box Gymnasium [2] [NInf, Fin 0] [Fin 3, PInf]" 0 2
      "[NInf, Fin 0]" "[Fin 3, PInf]" True "Fin (- 20)" "Fin 2" "''sum''"]
  by auto

text \<open>
  Against C9 as stated: after the constructor, the caller's Box with bounds
  \<open>[-inf]\<close> and \<open>[+inf]\<close> holds \<open>[-1]\<close> and \<open>[1]\<close>.
\<close>

theorem init_mutates_space_counterexample:
  "fst (init (\<lambda>r. Box Gymnasium [1] [NInf] [PInf]) 0 True True (Fin (- 20)) (Fin 2) ''sum'') 0
     = Box Gymnasium [1] [Fin (- 1)] [Fin 1]
   \<and> fst (init (\<lambda>r. Box Gymnasium [1] [NInf] [PInf]) 0 True True (Fin (- 20)) (Fin 2) ''sum'')
     \<noteq> (\<lambda>r. Box Gymnasium [1] [NInf] [PInf])"
proof -
  have v: "fst (init (\<lambda>r. Box Gymnasium [1] [NInf] [PInf]) 0 True True (Fin (- 20)) (Fin 2) ''sum'') 0
     = Box Gymnasium [1] [Fin (- 1)] [Fin 1]"
    by (simp add: init_def derive_bounds_def sanitize_def)
  then have "fst (init (\<lambda>r. Box Gymnasium [1] [NInf] [PInf]) 0 True True (Fin (- 20)) (Fin 2) ''sum'') 0
     \<noteq> (\<lambda>r. Box Gymnasium [1] [NInf] [PInf]) 0" by simp
  then have "fst (init (\<lambda>r. Box Gymnasium [1] [NInf] [PInf]) 0 True True (Fin (- 20)) (Fin 2) ''sum'')
     \<noteq> (\<lambda>r. Box Gymnasium [1] [NInf] [PInf])" by (auto dest: fun_cong)
  with v show ?thesis by simp
qed

section \<open>Lemmas on atanh and the clamp\<close>

lemma map2_same_list: "map2 f (map g xs) (map h xs) = map (\<lambda>v. f (g v) (h v)) xs"
  by (induction xs) simp_all

lemma atanh_map1: "wf_tensor x \<Longrightarrow> atanh x = Inr (map1 atanh1 x)"
proof -
  assume w: "wf_tensor x"
  have "map2T f_sub (map1 f_log1p x) (map1 f_log1p (map1 f_neg x))
      = Some (Tensor (shape x) (map2 f_sub (map f_log1p (data x)) (map f_log1p (map f_neg (data x)))))"
    using map2T_same_shape[of "map1 f_log1p x" "map1 f_log1p (map1 f_neg x)" f_sub] w
    by (simp add: wf_map1 shape_map1) (simp add: map1_def)
  moreover have "map2 f_sub (map f_log1p (data x)) (map f_log1p (map f_neg (data x)))
      = map (\<lambda>v. f_sub (f_log1p v) (f_log1p (f_neg v))) (data x)"
    using map2_same_list[of f_sub f_log1p "data x" "\<lambda>v. f_log1p (f_neg v)"] by (simp add: comp_def)
  ultimately show ?thesis
    by (simp add: atanh_def tbin_def map1_def atanh1_def)
qed

lemma finfo_eps_bounds: "0 < finfo_eps" "finfo_eps < 1"
  by (simp_all add: finfo_eps_def)

lemma clamp_Fin:
  "f_clamp (Fin lo) (Fin hi) (Fin r) = Fin (if hi < (if r < lo then lo else r) then hi else (if r < lo then lo else r))"
  by (auto simp: f_clamp_def f_lt_def Let_def)

lemma clamp_range:
  assumes "lo \<le> hi"
  shows "\<exists>c. f_clamp (Fin lo) (Fin hi) (Fin r) = Fin c \<and> lo \<le> c \<and> c \<le> hi"
  using assms by (auto simp: clamp_Fin)

lemma clamp_inside:
  "lo \<le> r \<Longrightarrow> r \<le> hi \<Longrightarrow> f_clamp (Fin lo) (Fin hi) (Fin r) = Fin r"
  by (auto simp: clamp_Fin)

section \<open>Lemmas on the operations of the Gaussian mixin\<close>


lemma shape_expand: "shape (expand s t) = s"
  by (simp add: expand_def shape_tabulate)

lemma wf_expand: "wf_tensor (expand s t)"
  by (simp add: expand_def wf_tabulate)

lemma Normal_ok:
  "bshape (shape l) (shape s) = Some bs \<Longrightarrow> Normal l s = Inr \<lparr>loc = expand bs l, scale = expand bs s\<rparr>"
  by (simp add: Normal_def)

lemma Normal_Inr:
  "Normal l s = Inr d \<Longrightarrow>
     \<exists>bs. bshape (shape l) (shape s) = Some bs \<and> d = \<lparr>loc = expand bs l, scale = expand bs s\<rparr>"
  by (auto simp: Normal_def split: option.splits)

lemma rsample_shape:
  assumes "shape (loc d) = bs" "shape (scale d) = bs"
  shows "\<exists>a. rsample d noise = Inr a \<and> shape a = bs \<and> wf_tensor a"
  using assms
  by (simp add: rsample_def Let_def tbin_ok[of _ _ bs] shape_tabulate bshape_same wf_tabulate)

lemma log_prob_shape:
  assumes "shape (loc d) = bs" "shape (scale d) = bs" "bshape (shape v) bs = Some bs"
  shows "\<exists>lp. log_prob d v = Inr lp \<and> shape lp = bs \<and> wf_tensor lp"
  using assms
  by (simp add: log_prob_def Let_def tbin_ok[of _ _ bs] shape_tabulate shape_map1 bshape_same
      wf_tabulate wf_map1)

lemma shape_reduce_last: "shape (reduce_last r t) = butlast (shape t)"
  by (simp add: reduce_last_def Let_def)

lemma shape_unsqueeze_last: "shape (unsqueeze_last t) = shape t @ [1]"
  by (simp add: unsqueeze_last_def)

lemma bind_Inr: "bind m f = Inr y \<longleftrightarrow> (\<exists>x. m = Inr x \<and> f x = Inr y)"
  by (cases m) auto

lemma bind_Inl: "bind m f = Inl e \<longleftrightarrow> m = Inl e \<or> (\<exists>x. m = Inr x \<and> f x = Inl e)"
  by (cases m) auto

lemma unscale_bget:
  assumes "unscale s mn mx = Inr u"
  shows "wf_tensor u"
    and "fits (shape u) c \<Longrightarrow> idx \<in> set (all_indices c) \<Longrightarrow>
      bget u idx = to_unit (bget s idx) (bget mn idx) (bget mx idx)"
    and "fits (shape s) (shape u)"
proof -
  from assms obtain a r q where
    a: "tbin f_sub s mn = Inr a" and r: "tbin f_sub mx mn = Inr r" and q: "tbin f_div a r = Inr q"
    and u: "u = map1 (\<lambda>v. f_sub v (Fin 1)) (map1 (\<lambda>v. f_mul v (Fin 2)) q)"
    by (auto simp: unscale_def bind_Inr)
  note pq = tbin_props[OF q]
  show "wf_tensor u" using u pq(1) by (simp add: wf_map1)
  have "fits (shape s) (shape q)" using tbin_props(2)[OF a] pq(2) by (rule fits_trans)
  then show "fits (shape s) (shape u)" using u by (simp add: shape_map1)
  assume c: "fits (shape u) c" and i: "idx \<in> set (all_indices c)"
  from c u have qc: "fits (shape q) c" by (simp add: shape_map1)
  have ac: "fits (shape a) c" and rc: "fits (shape r) c"
    using pq(2,3) qc by (blast intro: fits_trans)+
  have "bget u idx = f_sub (f_mul (bget q idx) (Fin 2)) (Fin 1)"
    using u pq(1) qc i
    by (simp add: bget_map1[of _ c] wf_map1 shape_map1)
  also have "bget q idx = f_div (bget a idx) (bget r idx)"
    by (rule bget_tbin[OF q qc i])
  also have "bget a idx = f_sub (bget s idx) (bget mn idx)"
    by (rule bget_tbin[OF a ac i])
  also have "bget r idx = f_sub (bget mx idx) (bget mn idx)"
    by (rule bget_tbin[OF r rc i])
  finally show "bget u idx = to_unit (bget s idx) (bget mn idx) (bget mx idx)"
    by (simp add: to_unit_def)
qed

lemma rescale_bget:
  assumes "rescale x mn mx = Inr y" "wf_tensor x"
  shows "wf_tensor y"
    and "fits (shape mn) (shape y)"
    and "fits (shape x) (shape y)"
    and "fits (shape y) c \<Longrightarrow> idx \<in> set (all_indices c) \<Longrightarrow>
      bget y idx = from_unit (bget x idx) (bget mn idx) (bget mx idx)"
proof -
  let ?half = "map1 (\<lambda>v. f_div v (Fin 2)) (map1 (\<lambda>v. f_add v (Fin 1)) x)"
  from assms(1) obtain r p where
    r: "tbin f_sub mx mn = Inr r" and p: "tbin f_mul ?half r = Inr p" and y: "tbin f_add p mn = Inr y"
    by (auto simp: rescale_def Let_def bind_Inr)
  note py = tbin_props[OF y] and pp = tbin_props[OF p]
  show "wf_tensor y" by (rule py(1))
  show "fits (shape mn) (shape y)" by (rule py(3))
  have "fits (shape ?half) (shape y)" using pp(2) py(2) by (rule fits_trans)
  then show xy: "fits (shape x) (shape y)" by (simp add: shape_map1)
  assume c: "fits (shape y) c" and i: "idx \<in> set (all_indices c)"
  have pc: "fits (shape p) c" using py(2) c by (rule fits_trans)
  have hc: "fits (shape ?half) c" using pp(2) pc by (rule fits_trans)
  then have xc: "fits (shape x) c" by (simp add: shape_map1)
  have rc: "fits (shape r) c" using pp(3) pc by (rule fits_trans)
  have "bget y idx = f_add (bget p idx) (bget mn idx)"
    by (rule bget_tbin[OF y c i])
  also have "bget p idx = f_mul (bget ?half idx) (bget r idx)"
    by (rule bget_tbin[OF p pc i])
  also have "bget ?half idx = f_div (f_add (bget x idx) (Fin 1)) (Fin 2)"
    using assms(2) xc i by (simp add: bget_map1[of _ c] wf_map1 shape_map1)
  also have "bget r idx = f_sub (bget mx idx) (bget mn idx)"
    by (rule bget_tbin[OF r rc i])
  finally show "bget y idx = from_unit (bget x idx) (bget mn idx) (bget mx idx)"
    by (simp add: from_unit_def)
qed

lemma log_prob_bget:
  assumes "log_prob d v = Inr lp" "wf_tensor (scale d)"
  shows "wf_tensor lp"
    and "fits (shape (loc d)) (shape lp)"
    and "fits (shape (scale d)) (shape lp)"
    and "fits (shape v) (shape lp)"
    and "fits (shape lp) c \<Longrightarrow> idx \<in> set (all_indices c) \<Longrightarrow>
      bget lp idx = normal_log_density (bget (loc d) idx) (bget (scale d) idx) (bget v idx)"
proof -
  let ?var = "map1 (\<lambda>x. f_mul x x) (scale d)"
  let ?ls = "map1 f_log (scale d)"
  from assms(1) obtain diff q r where
    diff: "tbin f_sub v (loc d) = Inr diff"
    and q: "tbin f_div (map1 f_neg (map1 (\<lambda>x. f_mul x x) diff)) (map1 (f_mul (Fin 2)) ?var) = Inr q"
    and r: "tbin f_sub q ?ls = Inr r"
    and lp: "lp = map1 (\<lambda>x. f_sub x (Fin (ln (sqrt (2 * pi))))) r"
    by (auto simp: log_prob_def Let_def bind_Inr)
  note pd = tbin_props[OF diff] and pq = tbin_props[OF q] and pr = tbin_props[OF r]
  show "wf_tensor lp" using lp pr(1) by (simp add: wf_map1)
  have s: "shape lp = shape r" using lp by (simp add: shape_map1)
  have qr: "fits (shape q) (shape r)" by (rule pr(2))
  have dq: "fits (shape diff) (shape q)" using pq(2) by (simp add: shape_map1)
  have dr: "fits (shape diff) (shape r)" using dq qr by (rule fits_trans)
  show "fits (shape (loc d)) (shape lp)" using pd(3) dr s by (auto intro: fits_trans)
  show "fits (shape v) (shape lp)" using pd(2) dr s by (auto intro: fits_trans)
  show "fits (shape (scale d)) (shape lp)" using pr(3) s by (simp add: shape_map1)
  assume c: "fits (shape lp) c" and i: "idx \<in> set (all_indices c)"
  from c s have rc: "fits (shape r) c" by simp
  have qc: "fits (shape q) c" using qr rc by (rule fits_trans)
  have dc: "fits (shape diff) c" using dq qc by (rule fits_trans)
  have sc: "fits (shape (scale d)) c" using pr(3) rc by (auto simp: shape_map1 intro: fits_trans)
  have "bget lp idx = f_sub (bget r idx) (Fin (ln (sqrt (2 * pi))))"
    using lp pr(1) rc i by (simp add: bget_map1[of _ c])
  also have "bget r idx = f_sub (bget q idx) (bget ?ls idx)"
    by (rule bget_tbin[OF r rc i])
  also have "bget ?ls idx = f_log (bget (scale d) idx)"
    using assms(2) sc i by (simp add: bget_map1[of _ c])
  also have "bget q idx = f_div (bget (map1 f_neg (map1 (\<lambda>x. f_mul x x) diff)) idx)
      (bget (map1 (f_mul (Fin 2)) ?var) idx)"
    by (rule bget_tbin[OF q qc i])
  also have "bget (map1 f_neg (map1 (\<lambda>x. f_mul x x) diff)) idx
      = f_neg (f_mul (bget diff idx) (bget diff idx))"
    using pd(1) dc i by (simp add: bget_map1[of _ c] wf_map1 shape_map1)
  also have "bget (map1 (f_mul (Fin 2)) ?var) idx
      = f_mul (Fin 2) (f_mul (bget (scale d) idx) (bget (scale d) idx))"
    using assms(2) sc i by (simp add: bget_map1[of _ c] wf_map1 shape_map1)
  also have "bget diff idx = f_sub (bget v idx) (bget (loc d) idx)"
    by (rule bget_tbin[OF diff dc i])
  finally show "bget lp idx = normal_log_density (bget (loc d) idx) (bget (scale d) idx) (bget v idx)"
    by (simp add: normal_log_density_def)
qed

lemma Normal_bget:
  assumes "Normal l s = Inr d"
  shows "wf_tensor (loc d)" "wf_tensor (scale d)" "shape (scale d) = shape (loc d)"
    and "fits (shape l) (shape (loc d))" "fits (shape s) (shape (loc d))"
    and "fits (shape (loc d)) c \<Longrightarrow> idx \<in> set (all_indices c) \<Longrightarrow>
      bget (loc d) idx = bget l idx \<and> bget (scale d) idx = bget s idx"
proof -
  from Normal_Inr[OF assms] obtain bs where
    bs: "bshape (shape l) (shape s) = Some bs" and d: "d = \<lparr>loc = expand bs l, scale = expand bs s\<rparr>"
    by blast
  note f = bshape_fits[OF bs]
  show "wf_tensor (loc d)" "wf_tensor (scale d)" "shape (scale d) = shape (loc d)"
    using d by (simp_all add: wf_expand shape_expand)
  show "fits (shape l) (shape (loc d))" "fits (shape s) (shape (loc d))"
    using d f by (simp_all add: shape_expand)
  assume "fits (shape (loc d)) c" and i: "idx \<in> set (all_indices c)"
  then have c: "fits bs c" using d by (simp add: shape_expand)
  show "bget (loc d) idx = bget l idx \<and> bget (scale d) idx = bget s idx"
    using d f c i by (simp add: bget_expand[of _ bs c])
qed

lemma rsample_bget:
  assumes "rsample d noise = Inr a" "shape (scale d) = shape (loc d)"
  shows "wf_tensor a" "shape a = shape (loc d)"
    and "fits (shape a) c \<Longrightarrow> idx \<in> set (all_indices c) \<Longrightarrow>
      bget a idx = f_add (bget (loc d) idx)
        (f_mul (Fin (noise (bidx (shape a) idx))) (bget (scale d) idx))"
proof -
  let ?eps = "tabulate (shape (loc d)) (\<lambda>idx. Fin (noise idx))"
  from assms(1) obtain t where
    t: "tbin f_mul ?eps (scale d) = Inr t" and a: "tbin f_add (loc d) t = Inr a"
    by (auto simp: rsample_def Let_def bind_Inr)
  note pt = tbin_props[OF t] and pa = tbin_props[OF a]
  show "wf_tensor a" by (rule pa(1))
  from pt(4) assms(2) have st: "shape t = shape (loc d)"
    by (simp add: shape_tabulate bshape_same)
  from pa(4) st show sa: "shape a = shape (loc d)" by (simp add: bshape_same)
  assume c: "fits (shape a) c" and i: "idx \<in> set (all_indices c)"
  have tc: "fits (shape t) c" using c sa st by simp
  have ec: "fits (shape (loc d)) c" using c sa by simp
  have "bget a idx = f_add (bget (loc d) idx) (bget t idx)"
    by (rule bget_tbin[OF a c i])
  also have "bget t idx = f_mul (bget ?eps idx) (bget (scale d) idx)"
    by (rule bget_tbin[OF t tc i])
  also have "bget ?eps idx = Fin (noise (bidx (shape a) idx))"
    using ec i sa by (simp add: bget_tabulate[of _ c])
  finally show "bget a idx = f_add (bget (loc d) idx)
        (f_mul (Fin (noise (bidx (shape a) idx))) (bget (scale d) idx))" .
qed

lemma inverse_tanh_bget:
  assumes "wf_tensor u"
  shows "inverse_tanh u = Inr (map1 inverse_tanh1 u)"
proof -
  have "map1 atanh1 (map1 (f_clamp (Fin (- 1 + finfo_eps)) (Fin (1 - finfo_eps))) u)
      = map1 inverse_tanh1 u"
    unfolding map1_def inverse_tanh1_def[abs_def] by (simp add: comp_def)
  then show ?thesis
    using assms unfolding inverse_tanh_def Let_def
    by (simp only: atanh_map1[OF wf_map1[OF assms]])
qed

lemma act_body_Inr:
  assumes "compute inputs role = (mean_actions, log_std, outputs)"
    and "snd (act_body self compute noise inputs role) = Inr res"
  shows "\<exists>d. Normal (if g_clip_actions self then map1 f_tanh mean_actions else mean_actions)
            (map1 f_exp (map1 (clamped_log_std self) log_std)) = Inr d
          \<and> act_tail (self\<lparr>g_log_std := Some (if g_clip_log_std self
                  then map1 (f_clamp (g_log_std_min self) (g_log_std_max self)) log_std
                  else log_std),
                g_num_samples := Some (hd (shape mean_actions)),
                g_distribution := Some d\<rparr>) d
              (if g_clip_actions self then map1 f_tanh mean_actions else mean_actions)
              outputs noise inputs = Inr res"
proof -
  have ls: "map1 (clamped_log_std self) log_std =
      (if g_clip_log_std self then map1 (f_clamp (g_log_std_min self) (g_log_std_max self)) log_std
       else log_std)"
    by (cases log_std) (simp add: map1_def clamped_log_std_def[abs_def])
  show ?thesis
    using assms unfolding ls
    by (auto simp: act_body_def Let_def split: sum.splits)
qed

lemma clip_branch_Inr:
  assumes "g_clip_actions_min self = Some mn" "g_clip_actions_max self = Some mx"
    and "clip_branch self d mean_actions a inputs = Inr (actions, lp, mean')"
  shows "rescale (map1 f_tanh a) mn mx = Inr actions"
    and "rescale mean_actions mn mx = Inr mean'"
    and "\<And>taken. inputs ''taken_actions'' = Some taken \<Longrightarrow> taken_log_prob d taken mn mx = Inr lp"
    and "inputs ''taken_actions'' = None \<Longrightarrow> log_prob d a = Inr lp"
  using assms
  by (auto simp: clip_branch_def bind_Inr split: option.splits)

lemma get_in_data:
  "wf_tensor t \<Longrightarrow> idx \<in> set (all_indices (shape t)) \<Longrightarrow> get t idx \<in> set (data t)"
  using index_in_all_indices[of idx "shape t"] by (simp add: get_def wf_tensor_def)

lemma taken_log_prob_Inr:
  assumes "taken_log_prob d taken mn mx = Inr lp"
  shows "\<exists>u ga l0 sq. unscale taken mn mx = Inr u \<and> inverse_tanh u = Inr ga
      \<and> log_prob d ga = Inr l0 \<and> tbin f_mul u u = Inr sq
      \<and> tbin f_sub l0 (map1 f_log (map1 (\<lambda>v. f_add v EPS) (map1 (\<lambda>v. f_sub (Fin 1) v) sq))) = Inr lp"
  using assms by (auto simp: taken_log_prob_def bind_Inr)

lemma data_elem_index:
  assumes "wf_tensor t" "x \<in> set (data t)"
  shows "\<exists>idx \<in> set (all_indices (shape t)). get t idx = x"
proof -
  from tabulate_get[OF assms(1)] have "data t = map (get t) (all_indices (shape t))"
    by (cases t) (simp add: tabulate_def)
  with assms(2) show ?thesis by (metis (no_types, lifting) image_iff list.set_map)
qed

lemma map1_clamped_log_std:
  "map1 (clamped_log_std self) log_std =
      (if g_clip_log_std self then map1 (f_clamp (g_log_std_min self) (g_log_std_max self)) log_std
       else log_std)"
  by (cases log_std) (simp add: map1_def clamped_log_std_def[abs_def])

text \<open>
  The body of \<open>act\<close> without clipping, on mean actions of shape \<open>(B, D)\<close>: it
  succeeds, and its actions are the sample.
\<close>

lemma act_body_unclipped:
  assumes "\<not> g_clip_actions self"
    and "compute inputs role = (mean_actions, log_std, outputs)"
    and "shape mean_actions = [B, D]"
    and "bshape [B, D] (shape log_std) = Some [B, D]"
    and "\<forall>taken. inputs ''taken_actions'' = Some taken \<longrightarrow> bshape (shape taken) [B, D] = Some [B, D]"
  shows "\<exists>d a lp. Normal mean_actions (map1 f_exp (map1 (clamped_log_std self) log_std)) = Inr d
           \<and> rsample d noise = Inr a \<and> shape a = [B, D]
           \<and> shape lp = [B, D]
           \<and> snd (act_body self compute noise inputs role)
               = Inr (a, reduce_log_prob (g_reduction self) lp a,
                      outputs(''mean_actions'' \<mapsto> mean_actions))"
proof -
  let ?ls = "map1 (clamped_log_std self) log_std"
  let ?d = "\<lparr>loc = expand [B, D] mean_actions, scale = expand [B, D] (map1 f_exp ?ls)\<rparr>"
  let ?self = "self\<lparr>g_log_std := Some ?ls, g_num_samples := Some (hd (shape mean_actions)),
      g_distribution := Some ?d\<rparr>"
  have sl: "shape ?ls = shape log_std" by (simp add: shape_map1)
  have n: "Normal mean_actions (map1 f_exp ?ls) = Inr ?d"
    using assms(3,4) by (simp add: Normal_ok shape_map1)
  have body: "snd (act_body self compute noise inputs role)
      = act_tail ?self ?d mean_actions outputs noise inputs"
    using assms(1,2,3) n
    by (simp add: act_body_def slice5_def Let_def map1_clamped_log_std[symmetric])
  obtain a where a: "rsample ?d noise = Inr a" "shape a = [B, D]"
    using rsample_shape[of ?d "[B, D]" noise] by (auto simp: shape_expand)
  let ?v = "case inputs ''taken_actions'' of Some taken \<Rightarrow> taken | None \<Rightarrow> a"
  have "bshape (shape ?v) [B, D] = Some [B, D]"
    using assms(5) a(2) by (auto simp: bshape_same split: option.splits)
  then obtain lp where lp: "log_prob ?d ?v = Inr lp" "shape lp = [B, D]"
    using log_prob_shape[of ?d "[B, D]" ?v] by (auto simp: shape_expand)
  have tail: "act_tail ?self ?d mean_actions outputs noise inputs
      = Inr (a, reduce_log_prob (g_reduction self) lp a,
             outputs(''mean_actions'' \<mapsto> mean_actions))"
    using assms(1) a lp by (simp add: act_tail_def slice5_def Let_def)
  show ?thesis
  proof (intro exI conjI)
    show "Normal mean_actions (map1 f_exp ?ls) = Inr ?d" by (rule n)
    show "rsample ?d noise = Inr a" by (rule a(1))
    show "shape a = [B, D]" by (rule a(2))
    show "shape lp = [B, D]" by (rule lp(2))
    show "snd (act_body self compute noise inputs role)
               = Inr (a, reduce_log_prob (g_reduction self) lp a,
                      outputs(''mean_actions'' \<mapsto> mean_actions))"
      using body tail by simp
  qed
qed

lemma shape_reduce_log_prob:
  assumes "shape lp = [B, D]" "shape a = [B, D]"
  shows "shape (reduce_log_prob red lp a) = (case red of None \<Rightarrow> [B, D] | Some r \<Rightarrow> [B, 1])"
    and "tensor_dim (reduce_log_prob red lp a) = tensor_dim a"
  using assms
  by (cases red;
      simp add: reduce_log_prob_def tensor_dim_def shape_reduce_last shape_unsqueeze_last)+

text \<open>
  Without clipping, on mean actions of shape \<open>(B, D)\<close> that hold a not-a-number, the
  sample holds one at the same place, and \<open>act\<close> raises.
\<close>

lemma act_raises_on_nan_mean:
  assumes "\<not> g_clip_actions self"
    and "compute inputs role = (mean_actions, log_std, outputs)"
    and "shape mean_actions = [B, D]"
    and "bshape [B, D] (shape log_std) = Some [B, D]"
    and "\<forall>taken. inputs ''taken_actions'' = Some taken \<longrightarrow> bshape (shape taken) [B, D] = Some [B, D]"
    and "wf_tensor mean_actions" "has_nan mean_actions"
  shows "snd (act self compute noise inputs role) = Inl (ValueError ''NaN values found in actions'')"
proof -
  from act_body_unclipped[where compute = compute and inputs = inputs and role = role
      and noise = noise, OF assms(1-5)] obtain d a lp where
    n: "Normal mean_actions (map1 f_exp (map1 (clamped_log_std self) log_std)) = Inr d"
    and r: "rsample d noise = Inr a" and a: "shape a = [B, D]"
    and body: "snd (act_body self compute noise inputs role)
               = Inr (a, reduce_log_prob (g_reduction self) lp a,
                      outputs(''mean_actions'' \<mapsto> mean_actions))"
    by blast
  note nb = Normal_bget[OF n]
  note rb = rsample_bget[OF r nb(3)]
  from assms(7) obtain x where x: "x \<in> set (data mean_actions)" "is_nan x"
    by (auto simp: has_nan_def list_ex_iff)
  from data_elem_index[OF assms(6) x(1)] obtain idx where
    i: "idx \<in> set (all_indices (shape mean_actions))" "get mean_actions idx = x" by blast
  from i(1) a assms(3) have ia: "idx \<in> set (all_indices (shape a))" by simp
  have "get a idx = bget a idx" using ia by (simp add: bget_same)
  also have "\<dots> = f_add (bget (loc d) idx)
      (f_mul (Fin (noise (bidx (shape a) idx))) (bget (scale d) idx))"
    by (rule rb(3)[OF fits_refl ia])
  also have "bget (loc d) idx = bget mean_actions idx"
    using nb(6)[of "shape a" idx] rb(2) ia by (simp add: fits_refl)
  also have "bget mean_actions idx = x" using i by (simp add: bget_same)
  finally have "is_nan (get a idx)" using x(2) by (cases x) simp_all
  moreover have "get a idx \<in> set (data a)" using rb(1) ia by (rule get_in_data)
  ultimately have "has_nan a" by (auto simp: has_nan_def list_ex_iff)
  with body show ?thesis by (cases "act_body self compute noise inputs role") (simp add: act_def)
qed

text \<open>
  On finite arguments with a positive standard deviation, \<open>normal_log_density\<close> is the
  logarithm of the Gaussian density.
\<close>

lemma normal_log_density_finite:
  assumes "0 < sigma"
  shows "normal_log_density (Fin mu) (Fin sigma) (Fin x)
    = Fin (ln (exp (- ((x - mu) ^ 2) / (2 * sigma ^ 2)) / (sigma * sqrt (2 * pi))))"
proof -
  have "ln (exp (- ((x - mu) ^ 2) / (2 * sigma ^ 2)) / (sigma * sqrt (2 * pi)))
      = - ((x - mu) ^ 2) / (2 * sigma ^ 2) - ln sigma - ln (sqrt (2 * pi))"
    using assms by (simp add: ln_div ln_mult)
  then show ?thesis using assms
    by (simp add: normal_log_density_def f_sub_def power2_eq_square)
qed

text \<open>The unfolding that evaluates \<open>act\<close> on a concrete input.\<close>

lemma upt_0_2: "[0..<2] = [0, Suc 0]"
  by (simp add: numeral_2_eq_2)

lemmas eval_defs = act_def act_body_def act_tail_def clip_branch_def taken_log_prob_def
  unscale_def rescale_def inverse_tanh_def atanh_def reduce_log_prob_def
  slice5_def Normal_def bshape_def expand_def
  tabulate_def bidx_def bget_def get_def map1_def rsample_def log_prob_def tbin_def map2T_def
  reduce_last_def unsqueeze_last_def tensor_dim_def has_nan_def f_sub_def f_clamp_def f_lt_def Let_def
  finfo_eps_def EPS_def upt_0_2

section \<open>Properties of GaussianMixin.act\<close>


text \<open>
  C2. Without clipping, when \<open>compute\<close> returns mean actions of shape \<open>(B, D)\<close> and a
  log standard deviation that broadcasts to that shape (and the taken actions, if the
  inputs hold any, broadcast to it too), the body of \<open>act\<close> succeeds with actions of
  shape \<open>(B, D)\<close> and a log-probability of shape \<open>(B, 1)\<close> under a reduction (mean, sum
  or prod) and \<open>(B, D)\<close> under none; its rank is the rank of the actions, the axis
  reduced away being put back with size 1. Whatever \<open>act\<close> returns has these shapes.
\<close>

theorem act_shapes:
  assumes "\<not> g_clip_actions self"
    and "compute inputs role = (mean_actions, log_std, outputs)"
    and "shape mean_actions = [B, D]"
    and "bshape [B, D] (shape log_std) = Some [B, D]"
    and "\<forall>taken. inputs ''taken_actions'' = Some taken \<longrightarrow> bshape (shape taken) [B, D] = Some [B, D]"
  shows "(\<exists>actions lp out. snd (act_body self compute noise inputs role) = Inr (actions, lp, out)
           \<and> shape actions = [B, D]
           \<and> shape lp = (case g_reduction self of None \<Rightarrow> [B, D] | Some r \<Rightarrow> [B, 1])
           \<and> tensor_dim lp = tensor_dim actions)
       \<and> (\<forall>actions lp out. snd (act self compute noise inputs role) = Inr (actions, lp, out) \<longrightarrow>
             shape actions = [B, D]
           \<and> shape lp = (case g_reduction self of None \<Rightarrow> [B, D] | Some r \<Rightarrow> [B, 1]))"
proof -
  from act_body_unclipped[where compute = compute and inputs = inputs and role = role
      and noise = noise, OF assms] obtain a lp where
    a: "shape a = [B, D]" and lp: "shape lp = [B, D]"
    and body: "snd (act_body self compute noise inputs role)
               = Inr (a, reduce_log_prob (g_reduction self) lp a,
                      outputs(''mean_actions'' \<mapsto> mean_actions))"
    by blast
  note sh = shape_reduce_log_prob[OF lp a, of "g_reduction self"]
  have 1: "\<exists>actions lp out. snd (act_body self compute noise inputs role) = Inr (actions, lp, out)
           \<and> shape actions = [B, D]
           \<and> shape lp = (case g_reduction self of None \<Rightarrow> [B, D] | Some r \<Rightarrow> [B, 1])
           \<and> tensor_dim lp = tensor_dim actions"
    using body a sh by (intro exI conjI)
  have 2: "shape actions = [B, D]
           \<and> shape lp' = (case g_reduction self of None \<Rightarrow> [B, D] | Some r \<Rightarrow> [B, 1])"
    if "snd (act self compute noise inputs role) = Inr (actions, lp', out)" for actions lp' out
  proof -
    from that body have "actions = a \<and> lp' = reduce_log_prob (g_reduction self) lp a"
      by (auto simp: act_def split: prod.splits if_splits)
    with sh a show ?thesis by simp
  qed
  from 1 2 show ?thesis by blast
qed

text \<open>
  One state of two actions, mean and log standard deviation 0, noise 0 and the
  reduction sum: actions of shape \<open>(1, 2)\<close> and a log-probability of shape \<open>(1, 1)\<close>.
\<close>

theorem act_shapes_witness:
  "shape (Tensor [1, 2] [Fin 0, Fin 0]) = [1, 2]
   \<and> bshape [1, 2] (shape (Tensor [2] [Fin 0, Fin 0])) = Some [1, 2]
   \<and> (\<exists>actions lp out.
        snd (act_body \<lparr>g_clip_actions = False, g_clip_actions_min = None, g_clip_actions_max = None,
               g_clip_log_std = True, g_log_std_min = Fin (- 20), g_log_std_max = Fin 2,
               g_log_std = None, g_num_samples = None, g_distribution = None,
               g_reduction = Some TorchSum\<rparr>
             (\<lambda>i r. (Tensor [1, 2] [Fin 0, Fin 0], Tensor [2] [Fin 0, Fin 0], Map.empty))
             (\<lambda>idx. 0) Map.empty []) = Inr (actions, lp, out)
        \<and> shape actions = [1, 2] \<and> shape lp = [1, 1] \<and> tensor_dim lp = tensor_dim actions)
   \<and> snd (act \<lparr>g_clip_actions = False, g_clip_actions_min = None, g_clip_actions_max = None,
               g_clip_log_std = True, g_log_std_min = Fin (- 20), g_log_std_max = Fin 2,
               g_log_std = None, g_num_samples = None, g_distribution = None,
               g_reduction = Some TorchSum\<rparr>
             (\<lambda>i r. (Tensor [1, 2] [Fin 0, Fin 0], Tensor [2] [Fin 0, Fin 0], Map.empty))
             (\<lambda>idx. 0) Map.empty [])
       = Inr (Tensor [1, 2] [Fin 0, Fin 0], Tensor [1, 1] [Fin (- (2 * ln (sqrt (2 * pi))))],
              [''mean_actions'' \<mapsto> Tensor [1, 2] [Fin 0, Fin 0]])"
proof -
  let ?self = "\<lparr>g_clip_actions = False, g_clip_actions_min = None, g_clip_actions_max = None,
               g_clip_log_std = True, g_log_std_min = Fin (- 20), g_log_std_max = Fin 2,
               g_log_std = None, g_num_samples = None, g_distribution = None,
               g_reduction = Some TorchSum\<rparr>"
  let ?compute = "\<lambda>(i::inputs) (r::string). (Tensor [1, 2] [Fin 0, Fin 0], Tensor [2] [Fin 0, Fin 0],
      (Map.empty :: outputs))"
  have 1: "\<not> g_clip_actions ?self" by simp
  have 2: "?compute Map.empty [] = (Tensor [1, 2] [Fin 0, Fin 0], Tensor [2] [Fin 0, Fin 0], Map.empty)"
    by simp
  have 3: "shape (Tensor [1, 2] [Fin 0, Fin 0]) = [1, 2]" by simp
  have 4: "bshape [1, 2] (shape (Tensor [2] [Fin 0, Fin 0])) = Some [1, 2]"
    by (simp add: bshape_def)
  have 5: "\<forall>taken. (Map.empty :: inputs) ''taken_actions'' = Some taken \<longrightarrow>
      bshape (shape taken) [1, 2] = Some [1, 2]" by simp
  note t = act_shapes [where self = "?self" and compute = "?compute" and inputs = "Map.empty"
      and role = "[]" and mean_actions = "Tensor [1, 2] [Fin 0, Fin 0]"
      and log_std = "Tensor [2] [Fin 0, Fin 0]" and outputs = "Map.empty" and B = 1 and D = 2
      and noise = "\<lambda>idx. 0"]
  have e: "snd (act ?self ?compute (\<lambda>idx. 0) Map.empty [])
       = Inr (Tensor [1, 2] [Fin 0, Fin 0], Tensor [1, 1] [Fin (- (2 * ln (sqrt (2 * pi))))],
              [''mean_actions'' \<mapsto> Tensor [1, 2] [Fin 0, Fin 0]])"
    by (simp add: eval_defs)
  from t 3 4 have "\<exists>actions lp out.
        snd (act_body ?self ?compute (\<lambda>idx. 0) Map.empty []) = Inr (actions, lp, out)
        \<and> shape actions = [1, 2] \<and> shape lp = [1, 1] \<and> tensor_dim lp = tensor_dim actions"
    by simp
  with 3 4 e show ?thesis by simp
qed

text \<open>
  C5. Actions that \<open>act\<close> returns hold no not-a-number. When the body of \<open>act\<close> has
  produced its actions, \<open>act\<close> raises the \<open>ValueError\<close> for not-a-number (the spec's
  NumericalInstabilityError) if an element of the actions is not-a-number, returning no
  tuple, and returns the body's tuple unchanged otherwise; an exception of the body is
  passed on as it is. In particular, without clipping, mean actions of shape \<open>(B, D)\<close>
  that hold a not-a-number make \<open>act\<close> raise it.
\<close>

theorem act_nan_check:
  "(\<forall>actions lp out. snd (act self compute noise inputs role) = Inr (actions, lp, out) \<longrightarrow>
       \<not> has_nan actions)
   \<and> (\<forall>actions lp out. snd (act_body self compute noise inputs role) = Inr (actions, lp, out) \<longrightarrow>
       snd (act self compute noise inputs role) =
         (if has_nan actions then Inl (ValueError ''NaN values found in actions'')
          else Inr (actions, lp, out)))
   \<and> (\<forall>e. snd (act_body self compute noise inputs role) = Inl e \<longrightarrow>
       snd (act self compute noise inputs role) = Inl e)
   \<and> (\<not> g_clip_actions self \<and> compute inputs role = (mean_actions, log_std, outputs)
        \<and> wf_tensor mean_actions \<and> shape mean_actions = [B, D]
        \<and> bshape [B, D] (shape log_std) = Some [B, D]
        \<and> (\<forall>taken. inputs ''taken_actions'' = Some taken \<longrightarrow>
              bshape (shape taken) [B, D] = Some [B, D])
        \<and> has_nan mean_actions \<longrightarrow>
       snd (act self compute noise inputs role) = Inl (ValueError ''NaN values found in actions''))"
proof -
  have 1: "\<forall>actions lp out. snd (act self compute noise inputs role) = Inr (actions, lp, out) \<longrightarrow>
       \<not> has_nan actions"
    by (auto simp: act_def bind_Inr split: prod.splits if_splits)
  have 2: "\<forall>actions lp out. snd (act_body self compute noise inputs role) = Inr (actions, lp, out) \<longrightarrow>
       snd (act self compute noise inputs role) =
         (if has_nan actions then Inl (ValueError ''NaN values found in actions'')
          else Inr (actions, lp, out))"
    by (auto simp: act_def split: prod.splits)
  have 3: "\<forall>e. snd (act_body self compute noise inputs role) = Inl e \<longrightarrow>
       snd (act self compute noise inputs role) = Inl e"
    by (auto simp: act_def split: prod.splits)
  have 4: "\<not> g_clip_actions self \<and> compute inputs role = (mean_actions, log_std, outputs)
        \<and> wf_tensor mean_actions \<and> shape mean_actions = [B, D]
        \<and> bshape [B, D] (shape log_std) = Some [B, D]
        \<and> (\<forall>taken. inputs ''taken_actions'' = Some taken \<longrightarrow>
              bshape (shape taken) [B, D] = Some [B, D])
        \<and> has_nan mean_actions \<longrightarrow>
       snd (act self compute noise inputs role) = Inl (ValueError ''NaN values found in actions'')"
    using act_raises_on_nan_mean[where compute = compute and inputs = inputs and role = role
        and self = self and noise = noise and mean_actions = mean_actions and log_std = log_std
        and outputs = outputs and B = B and D = D]
    by blast
  from 1 2 3 4 show ?thesis by (intro conjI)
qed

text \<open>
  Mean actions holding a not-a-number: the sampled action is not-a-number and \<open>act\<close>
  raises. With the mean 0 it returns.
\<close>

theorem act_nan_check_witness:
  "has_nan (Tensor [1, 1] [NaN]) \<and> wf_tensor (Tensor [1, 1] [NaN])
   \<and> bshape [1, 1] (shape (Tensor [1] [Fin 0])) = Some [1, 1]
   \<and> snd (act_body \<lparr>g_clip_actions = False, g_clip_actions_min = None, g_clip_actions_max = None,
               g_clip_log_std = True, g_log_std_min = Fin (- 20), g_log_std_max = Fin 2,
               g_log_std = None, g_num_samples = None, g_distribution = None,
               g_reduction = Some TorchSum\<rparr>
             (\<lambda>i r. (Tensor [1, 1] [NaN], Tensor [1] [Fin 0], Map.empty))
             (\<lambda>idx. 0) Map.empty [])
       = Inr (Tensor [1, 1] [NaN], Tensor [1, 1] [NaN], [''mean_actions'' \<mapsto> Tensor [1, 1] [NaN]])
   \<and> snd (act \<lparr>g_clip_actions = False, g_clip_actions_min = None, g_clip_actions_max = None,
               g_clip_log_std = True, g_log_std_min = Fin (- 20), g_log_std_max = Fin 2,
               g_log_std = None, g_num_samples = None, g_distribution = None,
               g_reduction = Some TorchSum\<rparr>
             (\<lambda>i r. (Tensor [1, 1] [NaN], Tensor [1] [Fin 0], Map.empty))
             (\<lambda>idx. 0) Map.empty [])
       = Inl (ValueError ''NaN values found in actions'')
   \<and> \<not> has_nan (Tensor [1, 1] [Fin 0])
   \<and> snd (act \<lparr>g_clip_actions = False, g_clip_actions_min = None, g_clip_actions_max = None,
               g_clip_log_std = True, g_log_std_min = Fin (- 20), g_log_std_max = Fin 2,
               g_log_std = None, g_num_samples = None, g_distribution = None,
               g_reduction = Some TorchSum\<rparr>
             (\<lambda>i r. (Tensor [1, 1] [Fin 0], Tensor [1] [Fin 0], Map.empty))
             (\<lambda>idx. 0) Map.empty [])
       = Inr (Tensor [1, 1] [Fin 0], Tensor [1, 1] [Fin (- ln (sqrt (2 * pi)))],
              [''mean_actions'' \<mapsto> Tensor [1, 1] [Fin 0]])"
proof -
  let ?self = "\<lparr>g_clip_actions = False, g_clip_actions_min = None, g_clip_actions_max = None,
               g_clip_log_std = True, g_log_std_min = Fin (- 20), g_log_std_max = Fin 2,
               g_log_std = None, g_num_samples = None, g_distribution = None,
               g_reduction = Some TorchSum\<rparr>"
  let ?bad = "\<lambda>(i::inputs) (r::string). (Tensor [1, 1] [NaN], Tensor [1] [Fin 0], (Map.empty :: outputs))"
  let ?good = "\<lambda>(i::inputs) (r::string). (Tensor [1, 1] [Fin 0], Tensor [1] [Fin 0], (Map.empty :: outputs))"
  have b: "snd (act_body ?self ?bad (\<lambda>idx. 0) Map.empty [])
       = Inr (Tensor [1, 1] [NaN], Tensor [1, 1] [NaN], [''mean_actions'' \<mapsto> Tensor [1, 1] [NaN]])"
    by (simp add: eval_defs)
  have g: "snd (act_body ?self ?good (\<lambda>idx. 0) Map.empty [])
       = Inr (Tensor [1, 1] [Fin 0], Tensor [1, 1] [Fin (- ln (sqrt (2 * pi)))],
              [''mean_actions'' \<mapsto> Tensor [1, 1] [Fin 0]])"
    by (simp add: eval_defs)
  have n: "has_nan (Tensor [1, 1] [NaN])" "\<not> has_nan (Tensor [1, 1] [Fin 0])"
    by (simp_all add: has_nan_def)
  note tb = act_nan_check [where self = "?self" and compute = "?bad" and noise = "\<lambda>idx. 0"
      and inputs = "Map.empty" and role = "[]", THEN conjunct2, THEN conjunct1, rule_format, OF b]
  note tg = act_nan_check [where self = "?self" and compute = "?good" and noise = "\<lambda>idx. 0"
      and inputs = "Map.empty" and role = "[]", THEN conjunct2, THEN conjunct1, rule_format, OF g]
  have w: "wf_tensor (Tensor [1, 1] [NaN])" by (simp add: wf_tensor_def)
  have bs: "bshape [1, 1] (shape (Tensor [1] [Fin 0])) = Some [1, 1]" by (simp add: bshape_def)
  note t4 = act_nan_check [where self = "?self" and compute = "?bad" and noise = "\<lambda>idx. 0"
      and inputs = "Map.empty" and role = "[]" and mean_actions = "Tensor [1, 1] [NaN]"
      and log_std = "Tensor [1] [Fin 0]" and outputs = "Map.empty" and B = 1 and D = 1,
      THEN conjunct2, THEN conjunct2, THEN conjunct2]
  from t4 w bs n(1) have "snd (act ?self ?bad (\<lambda>idx. 0) Map.empty [])
      = Inl (ValueError ''NaN values found in actions'')" by simp
  with tb tg n b w bs show ?thesis by simp
qed

text \<open>
  C1. With clipping on and taken actions in the inputs, the log-probability \<open>act\<close>
  returns is the reduction (lines 189 to 192) of a tensor \<open>L\<close>, the log-probability
  before reduction, to whose shape the mean actions and the taken actions broadcast.
  Each element of \<open>L\<close> is the normal log-density, with mean the hyperbolic tangent of
  the mean action and standard deviation the exponential of the clamped log standard
  deviation, at the clamped inverse hyperbolic tangent of \<open>u\<close>, minus
  \<open>log(1 - u * u + EPS)\<close>, where \<open>u\<close> is the taken action mapped linearly from the bounds
  to the interval from -1 to 1 and \<open>EPS\<close> is one millionth.
\<close>

theorem act_taken_log_prob:
  assumes "g_clip_actions self"
    and "g_clip_actions_min self = Some mn" "g_clip_actions_max self = Some mx"
    and "compute inputs role = (mean_actions, log_std, outputs)"
    and "wf_tensor mean_actions" "wf_tensor log_std"
    and "inputs ''taken_actions'' = Some taken"
    and "snd (act self compute noise inputs role) = Inr (actions, lp, out)"
  shows "\<exists>L. lp = reduce_log_prob (g_reduction self) L actions
          \<and> fits (shape mean_actions) (shape L) \<and> fits (shape taken) (shape L)
          \<and> (\<forall>idx \<in> set (all_indices (shape L)). get L idx =
               taken_log_density (f_tanh (bget mean_actions idx))
                 (f_exp (clamped_log_std self (bget log_std idx)))
                 (bget taken idx) (bget mn idx) (bget mx idx))"
proof -
  let ?m = "map1 f_tanh mean_actions"
  let ?s = "map1 f_exp (map1 (clamped_log_std self) log_std)"
  from assms(8) have body: "snd (act_body self compute noise inputs role) = Inr (actions, lp, out)"
    by (auto simp: act_def bind_Inr split: prod.splits if_splits)
  from act_body_Inr[OF assms(4) body] assms(1) obtain d self' where
    n: "Normal ?m ?s = Inr d"
    and tail: "act_tail self' d ?m outputs noise inputs = Inr (actions, lp, out)"
    and s': "g_clip_actions self'" "g_clip_actions_min self' = Some mn"
      "g_clip_actions_max self' = Some mx" "g_reduction self' = g_reduction self"
    using assms(2,3) by auto
  from tail s'(1) obtain a lp0 mean' where
    cb: "clip_branch self' d ?m a inputs = Inr (actions, lp0, mean')"
    and lp: "lp = reduce_log_prob (g_reduction self') lp0 actions"
    by (auto simp: act_tail_def bind_Inr split: prod.splits)
  from clip_branch_Inr(3)[OF s'(2,3) cb assms(7)]
  have "taken_log_prob d taken mn mx = Inr lp0" .
  from taken_log_prob_Inr[OF this] obtain u ga l0 sq where
    u: "unscale taken mn mx = Inr u" and ga: "inverse_tanh u = Inr ga"
    and l0: "log_prob d ga = Inr l0" and sq: "tbin f_mul u u = Inr sq"
    and fin: "tbin f_sub l0 (map1 f_log (map1 (\<lambda>v. f_add v EPS) (map1 (\<lambda>v. f_sub (Fin 1) v) sq))) = Inr lp0"
    by blast
  note nb = Normal_bget[OF n]
  note ub = unscale_bget[OF u]
  from ga ub(1) have ga': "ga = map1 inverse_tanh1 u" by (simp add: inverse_tanh_bget)
  note lb = log_prob_bget[OF l0 nb(2)]
  note pf = tbin_props[OF fin] and ps = tbin_props[OF sq]
  have l0c: "fits (shape l0) (shape lp0)" by (rule pf(2))
  have dc: "fits (shape (loc d)) (shape lp0)" using lb(2) l0c by (rule fits_trans)
  have mc: "fits (shape mean_actions) (shape lp0)"
    using nb(4) dc by (auto simp: shape_map1 intro: fits_trans)
  have uc: "fits (shape u) (shape lp0)"
    using lb(4) l0c ga' by (auto simp: shape_map1 intro: fits_trans)
  have tc: "fits (shape taken) (shape lp0)" using ub(3) uc by (rule fits_trans)
  have elem: "get lp0 idx =
               taken_log_density (f_tanh (bget mean_actions idx))
                 (f_exp (clamped_log_std self (bget log_std idx)))
                 (bget taken idx) (bget mn idx) (bget mx idx)"
    if i: "idx \<in> set (all_indices (shape lp0))" for idx
  proof -
    let ?c = "shape lp0"
    have sqc: "fits (shape sq) ?c" using pf(3) by (simp add: shape_map1)
    have sc: "fits (shape log_std) ?c"
      using nb(5) dc by (auto simp: shape_map1 intro: fits_trans)
    have U: "bget u idx = to_unit (bget taken idx) (bget mn idx) (bget mx idx)"
      by (rule ub(2)[OF uc i])
    have "get lp0 idx = bget lp0 idx" using i by (simp add: bget_same)
    also have "\<dots> = f_sub (bget l0 idx)
        (bget (map1 f_log (map1 (\<lambda>v. f_add v EPS) (map1 (\<lambda>v. f_sub (Fin 1) v) sq))) idx)"
      by (rule bget_tbin[OF fin fits_refl i])
    also have "bget (map1 f_log (map1 (\<lambda>v. f_add v EPS) (map1 (\<lambda>v. f_sub (Fin 1) v) sq))) idx
        = f_log (f_add (f_sub (Fin 1) (bget sq idx)) EPS)"
      using ps(1) sqc i by (simp add: bget_map1[of _ ?c] wf_map1 shape_map1)
    also have "bget sq idx = f_mul (bget u idx) (bget u idx)"
      by (rule bget_tbin[OF sq sqc i])
    also have "bget l0 idx = normal_log_density (bget (loc d) idx) (bget (scale d) idx) (bget ga idx)"
      by (rule lb(5)[OF l0c i])
    also have "bget (loc d) idx = bget ?m idx" using nb(6)[OF dc i] by simp
    also have "bget ?m idx = f_tanh (bget mean_actions idx)"
      using assms(5) mc i by (simp add: bget_map1[of _ ?c])
    also have "bget (scale d) idx = bget ?s idx" using nb(6)[OF dc i] by simp
    also have "bget ?s idx = f_exp (clamped_log_std self (bget log_std idx))"
      using assms(6) sc i by (simp add: bget_map1[of _ ?c] wf_map1 shape_map1)
    also have "bget ga idx = inverse_tanh1 (bget u idx)"
      using ga' ub(1) uc i by (simp add: bget_map1[of _ ?c])
    finally show ?thesis
      by (simp add: taken_log_density_def Let_def U)
  qed
  show ?thesis
  proof (intro exI conjI ballI)
    show "lp = reduce_log_prob (g_reduction self) lp0 actions" using lp s'(4) by simp
  next
    show "fits (shape mean_actions) (shape lp0)" by (rule mc)
  next
    show "fits (shape taken) (shape lp0)" by (rule tc)
  next
    fix idx assume "idx \<in> set (all_indices (shape lp0))"
    then show "get lp0 idx =
               taken_log_density (f_tanh (bget mean_actions idx))
                 (f_exp (clamped_log_std self (bget log_std idx)))
                 (bget taken idx) (bget mn idx) (bget mx idx)"
      by (rule elem)
  qed
qed

text \<open>
  Bounds -2 and 4 and the taken action 1, the middle of the interval: \<open>u = 0\<close>, the normal
  log-density at 0 and the correction \<open>log(1 + EPS)\<close>.
\<close>

lemma taken_log_density_example: "taken_log_density (f_tanh (Fin 0)) (f_exp (Fin 0)) (Fin 1) (Fin (- 2)) (Fin 4)
     = Fin (- ln (sqrt (2 * pi)) - ln (1000001 / 1000000))"
  by (simp add: taken_log_density_def to_unit_def normal_log_density_def inverse_tanh1_def
      atanh1_def eval_defs)

theorem act_taken_log_prob_witness:
  "wf_tensor (Tensor [1, 1] [Fin 0]) \<and> wf_tensor (Tensor [1] [Fin 0])
   \<and> (\<exists>lp out L.
        snd (act \<lparr>g_clip_actions = True, g_clip_actions_min = Some (Tensor [1] [Fin (- 2)]),
               g_clip_actions_max = Some (Tensor [1] [Fin 4]),
               g_clip_log_std = True, g_log_std_min = Fin (- 20), g_log_std_max = Fin 2,
               g_log_std = None, g_num_samples = None, g_distribution = None,
               g_reduction = None\<rparr>
             (\<lambda>i r. (Tensor [1, 1] [Fin 0], Tensor [1] [Fin 0], Map.empty))
             (\<lambda>idx. 0) [''taken_actions'' \<mapsto> Tensor [1, 1] [Fin 1]] [])
          = Inr (Tensor [1, 1] [Fin 1], lp, out)
        \<and> lp = reduce_log_prob None L (Tensor [1, 1] [Fin 1])
        \<and> [0, 0] \<in> set (all_indices (shape L))
        \<and> get L [0, 0] = Fin (- ln (sqrt (2 * pi)) - ln (1000001 / 1000000)))"
proof -
  let ?self = "\<lparr>g_clip_actions = True, g_clip_actions_min = Some (Tensor [1] [Fin (- 2)]),
               g_clip_actions_max = Some (Tensor [1] [Fin 4]),
               g_clip_log_std = True, g_log_std_min = Fin (- 20), g_log_std_max = Fin 2,
               g_log_std = None, g_num_samples = None, g_distribution = None,
               g_reduction = None\<rparr>"
  let ?compute = "\<lambda>(i::inputs) (r::string). (Tensor [1, 1] [Fin 0], Tensor [1] [Fin 0], (Map.empty :: outputs))"
  let ?inputs = "[''taken_actions'' \<mapsto> Tensor [1, 1] [Fin 1]] :: inputs"
  have w: "wf_tensor (Tensor [1, 1] [Fin 0])" "wf_tensor (Tensor [1] [Fin 0])"
    by (simp_all add: wf_tensor_def)
  have "\<exists>lp out. snd (act ?self ?compute (\<lambda>idx. 0) ?inputs []) = Inr (Tensor [1, 1] [Fin 1], lp, out)
      \<and> shape lp = [1, 1]"
    by (simp add: eval_defs)
  then obtain lp out where
    e: "snd (act ?self ?compute (\<lambda>idx. 0) ?inputs []) = Inr (Tensor [1, 1] [Fin 1], lp, out)"
    and sl: "shape lp = [1, 1]"
    by blast
  have 1: "g_clip_actions ?self" "g_clip_actions_min ?self = Some (Tensor [1] [Fin (- 2)])"
    "g_clip_actions_max ?self = Some (Tensor [1] [Fin 4])" by simp_all
  have c: "?compute ?inputs [] = (Tensor [1, 1] [Fin 0], Tensor [1] [Fin 0], Map.empty)" by simp
  have t: "?inputs ''taken_actions'' = Some (Tensor [1, 1] [Fin 1])" by simp
  from act_taken_log_prob [where self = "?self" and compute = "?compute" and inputs = "?inputs"
      and role = "[]" and noise = "\<lambda>idx. 0", OF 1 c w t e]
  obtain L where L: "lp = reduce_log_prob (g_reduction ?self) L (Tensor [1, 1] [Fin 1])"
    and fl: "fits (shape (Tensor [1, 1] [Fin 0])) (shape L)"
    and el: "\<forall>idx \<in> set (all_indices (shape L)). get L idx =
        taken_log_density (f_tanh (bget (Tensor [1, 1] [Fin 0]) idx))
          (f_exp (clamped_log_std ?self (bget (Tensor [1] [Fin 0]) idx)))
          (bget (Tensor [1, 1] [Fin 1]) idx) (bget (Tensor [1] [Fin (- 2)]) idx)
          (bget (Tensor [1] [Fin 4]) idx)"
    by blast
  from L have L': "lp = reduce_log_prob None L (Tensor [1, 1] [Fin 1])" by simp
  have "shape L = [1, 1]"
  proof (rule ccontr)
    assume "shape L \<noteq> [1, 1]"
    with L' sl fl show False
      by (auto simp: reduce_log_prob_def tensor_dim_def unsqueeze_last_def fits_def
          split: if_splits)
  qed
  then have i: "[0, 0] \<in> set (all_indices (shape L))" by simp
  with el have "get L [0, 0] = taken_log_density (f_tanh (bget (Tensor [1, 1] [Fin 0]) [0, 0]))
          (f_exp (clamped_log_std ?self (bget (Tensor [1] [Fin 0]) [0, 0])))
          (bget (Tensor [1, 1] [Fin 1]) [0, 0]) (bget (Tensor [1] [Fin (- 2)]) [0, 0])
          (bget (Tensor [1] [Fin 4]) [0, 0])" by blast
  also have "\<dots> = taken_log_density (f_tanh (Fin 0)) (f_exp (Fin 0)) (Fin 1) (Fin (- 2)) (Fin 4)"
    by (simp add: bget_def bidx_def get_def clamped_log_std_def f_clamp_def f_lt_def)
  finally have "get L [0, 0] = Fin (- ln (sqrt (2 * pi)) - ln (1000001 / 1000000))"
    by (simp only: taken_log_density_example)
  with e L' i w show ?thesis by blast
qed

section \<open>Properties that depend on the rounding of float32\<close>

subsection \<open>Rounding\<close>

text \<open>
  Rounding moves a number by at most half a unit in the last place, and on a number
  of known magnitude the unit is known.
\<close>

lemma rhe_err: "\<bar>of_int (rhe x) - x\<bar> \<le> 1 / 2"
  unfolding rhe_def Let_def by (auto simp: abs_le_iff)

lemma rhe_eq:
  assumes "\<bar>x - of_int n\<bar> < 1 / 2"
  shows "rhe x = n"
proof -
  from assms have b: "of_int n - 1 / 2 < x" "x < of_int n + 1 / 2" by linarith+
  have "of_int (n - 1) \<le> x" using b(1) by simp
  then have 1: "n - 1 \<le> \<lfloor>x\<rfloor>" by (simp only: le_floor_iff)
  have "x < of_int n + 1" using b(2) by simp
  then have 2: "\<lfloor>x\<rfloor> \<le> n" by (simp only: floor_le_iff)
  from 1 2 consider "\<lfloor>x\<rfloor> = n" | "\<lfloor>x\<rfloor> = n - 1" by linarith
  then show ?thesis
  proof cases
    case 1
    have "x - of_int \<lfloor>x\<rfloor> < 1 / 2" using b(2) 1 by simp
    then show ?thesis using 1 by (simp add: rhe_def Let_def)
  next
    case 2
    have "1 / 2 < x - of_int \<lfloor>x\<rfloor>" using b(1) 2 by simp
    moreover from this have "\<not> x - of_int \<lfloor>x\<rfloor> < 1 / 2" by simp
    ultimately show ?thesis using 2 by (simp add: rhe_def Let_def)
  qed
qed

lemma ulp32_pos: "0 < ulp32 x"
  by (simp add: ulp32_def)

lemma rnd32_err: "\<bar>rnd32 x - x\<bar> \<le> ulp32 x / 2"
proof -
  let ?u = "ulp32 x"
  have u: "0 < ?u" by (rule ulp32_pos)
  have "\<bar>rnd32 x - x\<bar> = \<bar>of_int (rhe (x / ?u)) - x / ?u\<bar> * ?u"
  proof -
    have "rnd32 x - x = (of_int (rhe (x / ?u)) - x / ?u) * ?u"
      using u by (simp add: rnd32_def left_diff_distrib)
    then show ?thesis using u by (simp add: abs_mult)
  qed
  also have "\<dots> \<le> 1 / 2 * ?u" using u rhe_err[of "x / ?u"] by (intro mult_right_mono) simp_all
  finally show ?thesis by simp
qed

lemma powr_powi: "(2::real) powr (of_int k) = 2 powi k"
  by (simp add: powr_real_of_int')

lemma floor_log2_eq:
  assumes "2 powi k \<le> x" "x < 2 powi (k + 1)"
  shows "\<lfloor>log 2 x\<rfloor> = k"
proof -
  have p: "0 < x" using assms(1) by (smt (verit) zero_less_power_int)
  have "2 powr (of_int k) \<le> x" using assms(1) by (simp only: powr_powi)
  moreover have "x < 2 powr (of_int k + 1)"
    using assms(2) powr_powi[of "k + 1"] by simp
  ultimately show ?thesis using p by (simp add: floor_log_eq_powr_iff)
qed

lemma floor_log2_less:
  assumes "0 < x" "x < 2 powi (k + 1)"
  shows "\<lfloor>log 2 x\<rfloor> \<le> k"
proof -
  have "x < 2 powr (of_int (k + 1))" using assms(2) by (simp only: powr_powi)
  then have "log 2 x < of_int (k + 1)" using assms(1) by (simp add: log_less_iff)
  then have "\<lfloor>log 2 x\<rfloor> < k + 1" by (simp only: floor_less_iff)
  then show ?thesis by simp
qed

lemma ulp_exp_eq:
  assumes "2 powi k \<le> \<bar>x\<bar>" "\<bar>x\<bar> < 2 powi (k + 1)"
  shows "ulp_exp x = max (k - 23) (- 149)"
proof -
  have p: "0 < \<bar>x\<bar>" using assms(1) by (smt (verit) zero_less_power_int)
  have "\<lfloor>log 2 \<bar>x\<bar>\<rfloor> = k" using assms by (rule floor_log2_eq)
  with p show ?thesis by (simp add: ulp_exp_def)
qed

lemma ulp_exp_le:
  assumes "\<bar>x\<bar> < 2 powi (k + 1)" "- 149 \<le> k - 23"
  shows "ulp_exp x \<le> k - 23"
proof (cases "x = 0")
  case True
  then show ?thesis using assms by (simp add: ulp_exp_def)
next
  case False
  then have p: "0 < \<bar>x\<bar>" by simp
  have "\<lfloor>log 2 \<bar>x\<bar>\<rfloor> \<le> k" using p assms(1) by (rule floor_log2_less)
  with False assms(2) show ?thesis by (simp add: ulp_exp_def)
qed

lemma rnd32_binade:
  assumes "2 powi k \<le> \<bar>x\<bar>" "\<bar>x\<bar> < 2 powi (k + 1)" "- 126 \<le> k"
  shows "rnd32 x = of_int (rhe (x / 2 powi (k - 23))) * 2 powi (k - 23)"
proof -
  have "max (k - 23) (- 149) = k - 23" using assms(3) by simp
  with ulp_exp_eq[OF assms(1,2)] have "ulp_exp x = k - 23" by simp
  then show ?thesis by (simp add: rnd32_def ulp32_def)
qed

lemma ulp32_le:
  assumes "\<bar>x\<bar> < 2 powi (k + 1)" "- 126 \<le> k"
  shows "ulp32 x \<le> 2 powi (k - 23)"
proof -
  have "ulp_exp x \<le> k - 23" using assms by (intro ulp_exp_le) simp_all
  then show ?thesis unfolding ulp32_def by (intro power_int_increasing) simp_all
qed

lemma ulp32_lt_1: "\<bar>x\<bar> < 1 \<Longrightarrow> ulp32 x \<le> 1 / 2 ^ 24"
  using ulp32_le[of x "- 1"] by (simp add: power_int_minus field_simps)

lemma ulp32_lt_32: "\<bar>x\<bar> < 32 \<Longrightarrow> ulp32 x \<le> 1 / 2 ^ 19"
  using ulp32_le[of x 4] by (simp add: power_int_minus field_simps)

lemma ulp32_lt_64: "\<bar>x\<bar> < 64 \<Longrightarrow> ulp32 x \<le> 1 / 2 ^ 18"
  using ulp32_le[of x 5] by (simp add: power_int_minus field_simps)

lemma to_f32_lt_64:
  assumes "\<bar>x\<bar> < 64"
  shows "\<exists>v. to_f32 x = Fin v \<and> \<bar>v - x\<bar> \<le> 1 / 2 ^ 19"
proof -
  have e: "\<bar>rnd32 x - x\<bar> \<le> 1 / 2 ^ 19"
    using rnd32_err[of x] ulp32_lt_64[OF assms] by simp
  have "(1::real) / 2 ^ 19 \<le> 1" by simp
  with e have "\<bar>rnd32 x\<bar> \<le> 65" using assms by linarith
  then have "\<not> f32_max < \<bar>rnd32 x\<bar>" by (simp add: f32_max_def)
  then have "to_f32 x = Fin (rnd32 x)" by (simp add: to_f32_def)
  with e show ?thesis by simp
qed

lemma ulp32_lt_8: "\<bar>x\<bar> < 8 \<Longrightarrow> ulp32 x \<le> 1 / 2 ^ 21"
  using ulp32_le[of x 2] by (simp add: power_int_minus field_simps)

lemma ulp32_lt_16: "\<bar>x\<bar> < 16 \<Longrightarrow> ulp32 x \<le> 1 / 2 ^ 20"
  using ulp32_le[of x 3] by (simp add: power_int_minus field_simps)

lemma to_f32_lt_8:
  assumes "\<bar>x\<bar> < 8"
  shows "\<exists>v. to_f32 x = Fin v \<and> \<bar>v - x\<bar> \<le> 1 / 2 ^ 22"
proof -
  have e: "\<bar>rnd32 x - x\<bar> \<le> 1 / 2 ^ 22"
    using rnd32_err[of x] ulp32_lt_8[OF assms] by simp
  have "(1::real) / 2 ^ 22 \<le> 1" by simp
  with e have "\<bar>rnd32 x\<bar> \<le> 9" using assms by linarith
  then have "\<not> f32_max < \<bar>rnd32 x\<bar>" by (simp add: f32_max_def)
  then have "to_f32 x = Fin (rnd32 x)" by (simp add: to_f32_def)
  with e show ?thesis by simp
qed

lemma to_f32_lt_16:
  assumes "\<bar>x\<bar> < 16"
  shows "\<exists>v. to_f32 x = Fin v \<and> \<bar>v - x\<bar> \<le> 1 / 2 ^ 21"
proof -
  have e: "\<bar>rnd32 x - x\<bar> \<le> 1 / 2 ^ 21"
    using rnd32_err[of x] ulp32_lt_16[OF assms] by simp
  have "(1::real) / 2 ^ 21 \<le> 1" by simp
  with e have "\<bar>rnd32 x\<bar> \<le> 17" using assms by linarith
  then have "\<not> f32_max < \<bar>rnd32 x\<bar>" by (simp add: f32_max_def)
  then have "to_f32 x = Fin (rnd32 x)" by (simp add: to_f32_def)
  with e show ?thesis by simp
qed

subsection \<open>The scaled actions and the upper bound\<close>

text \<open>
  The hyperbolic tangent of 10 is less than \<open>2^-25\<close> below 1, so the correctly rounded
  \<^verbatim>\<open>float32\<close> result is 1 for every argument from 10 on.
\<close>

lemma exp_1_ge: "(5 / 2 :: real) \<le> exp 1"
  using exp_lower_Taylor_quadratic[of "1::real"] by simp

lemma exp_20_gt: "(2::real) ^ 26 < exp 20"
proof -
  have "(2::real) ^ 26 < (5 / 2) ^ 20" by (simp add: power_divide)
  also have "\<dots> \<le> exp 1 ^ 20" using exp_1_ge by (intro power_mono) simp_all
  also have "\<dots> = exp (20::real)" using exp_of_nat_mult[of 20 "1::real"] by simp
  finally show ?thesis .
qed

lemma tanh_10_bounds: "1 - 1 / 2 ^ 25 < tanh (10::real)" "tanh (10::real) < 1"
proof -
  let ?e = "exp (- 20 :: real)"
  have e: "?e = 1 / exp 20" by (simp add: exp_minus inverse_eq_divide)
  have pos: "0 < ?e" by simp
  have "?e < 1 / 2 ^ 26" unfolding e using exp_20_gt
    by (intro divide_strict_left_mono) simp_all
  moreover have "1 - tanh (10::real) = 2 * ?e / (1 + ?e)"
  proof -
    have ne: "1 + ?e \<noteq> 0" using pos by linarith
    have "tanh (10::real) = (1 - ?e) / (1 + ?e)" using tanh_real_altdef[of 10] by simp
    then show ?thesis using ne by (simp add: field_simps)
  qed
  moreover have "2 * ?e / (1 + ?e) \<le> 2 * ?e"
  proof -
    have p1: "0 < 1 + ?e" using pos by linarith
    have "2 * ?e \<le> 2 * ?e * (1 + ?e)" using pos by (simp add: algebra_simps)
    then show ?thesis using p1 by (simp only: pos_divide_le_eq)
  qed
  ultimately show "1 - 1 / 2 ^ 25 < tanh (10::real)" by simp
  show "tanh (10::real) < 1" by (rule tanh_real_lt_1)
qed

lemma rnd32_near_1:
  assumes "1 - 1 / 2 ^ 25 < x" "x < 1"
  shows "rnd32 x = 1"
proof -
  have 1: "2 powi (- 1) \<le> \<bar>x\<bar>" using assms(1) by (simp add: power_int_minus)
  have 2: "\<bar>x\<bar> < 2 powi (- 1 + 1)" using assms by simp
  have "\<bar>x / 2 powi (- 1 - 23) - of_int (2 ^ 24)\<bar> < 1 / 2"
    using assms by (simp add: power_int_minus field_simps)
  then have "rhe (x / 2 powi (- 1 - 23)) = 2 ^ 24" by (rule rhe_eq)
  with rnd32_binade[OF 1 2] show ?thesis by (simp add: power_int_minus)
qed

lemma rnd32_tanh_ge_10:
  assumes "10 \<le> s"
  shows "rnd32 (tanh s) = 1"
proof -
  have "tanh 10 \<le> tanh s" using assms by (simp only: tanh_real_le_iff)
  with tanh_10_bounds(1) have "1 - 1 / 2 ^ 25 < tanh s" by linarith
  then show ?thesis using tanh_real_lt_1[of s] by (rule rnd32_near_1)
qed

text \<open>
  The roundings of the evaluation below. The lower bound -0.7 is the \<^verbatim>\<open>float32\<close>
  number \<open>-11744051 / 2^24\<close>; the difference of the bounds, \<open>20132659 / 2^24\<close>,
  is halfway between two numbers of the format and goes to the even one,
  \<open>10066330 / 2^23\<close>, which is above it.
\<close>

lemma rnd32_half: "rnd32 (1 / 2) = 1 / 2"
  using rnd32_binade[of "- 1" "1 / 2"] by (simp add: power_int_minus rhe_eq[of _ "2 ^ 23"])

lemma rnd32_one: "rnd32 1 = 1"
  using rnd32_binade[of 0 1] by (simp add: power_int_minus rhe_eq[of _ "2 ^ 23"])

lemma rnd32_two: "rnd32 2 = 2"
  using rnd32_binade[of 1 2] by (simp add: power_int_minus rhe_eq[of _ "2 ^ 23"])

lemma rnd32_range: "rnd32 (20132659 / 16777216) = 5033165 / 4194304"
  using rnd32_binade[of 0 "20132659 / 16777216"]
  by (simp add: power_int_minus rhe_def)

lemma rnd32_range_again: "rnd32 (5033165 / 4194304) = 5033165 / 4194304"
  using rnd32_binade[of 0 "5033165 / 4194304"]
  by (simp add: power_int_minus rhe_eq[of _ "10066330"])

lemma rnd32_action: "rnd32 (8388609 / 16777216) = 8388609 / 16777216"
  using rnd32_binade[of "- 1" "8388609 / 16777216"]
  by (simp add: power_int_minus rhe_eq[of _ "8388609"])

lemma rnd32_low: "rnd32 (- (7 / 10)) = - (11744051 / 16777216)"
  using rnd32_binade[of "- 1" "- (7 / 10)"]
  by (simp add: power_int_minus rhe_eq[of _ "- 11744051"])

lemmas f32_eval = rescale32_def f32_add_def f32_sub_def f32_mul_def f32_div_def to_f32_def
  f32_max_def correctly_rounded_def

text \<open>
  C3. In \<^verbatim>\<open>float32\<close> line 181 returns an action above the upper bound. The bounds are
  -0.7 and 0.5, as the constructor stores them: \<open>-11744051 / 2^24\<close> and \<open>1 / 2\<close>.
  For every sampled action from 10 on the hyperbolic tangent is 1, \<open>(1 + 1) / 2\<close> is 1,
  the difference of the bounds is rounded up, and the sum with the lower bound is
  \<open>8388609 / 2^24\<close>, that is \<open>1/2 + 2^-24\<close>: the action returned is not below or equal to
  the upper bound \<open>1/2\<close>. So the actions do not always lie within the bounds of the action
  space, which is what the documentation of \<^verbatim>\<open>clip_actions\<close> promises.
\<close>

theorem rescale32_exceeds_high:
  assumes "10 \<le> s"
  shows "to_f32 (- (7 / 10)) = Fin (- (11744051 / 16777216)) \<and> to_f32 (1 / 2) = Fin (1 / 2)
   \<and> rescale32 (map1 (f32_tanh correctly_rounded) (Tensor [1, 1] [Fin s]))
        (Tensor [1] [Fin (- (11744051 / 16777216))]) (Tensor [1] [Fin (1 / 2)])
      = Inr (Tensor [1, 1] [Fin (8388609 / 16777216)])
   \<and> \<not> f_le (get (Tensor [1, 1] [Fin (8388609 / 16777216)]) [0, 0])
            (bget (Tensor [1] [Fin (1 / 2)]) [0, 0])"
  using rnd32_tanh_ge_10[OF assms]
  by (simp add: f32_eval eval_defs rnd32_half rnd32_one rnd32_two rnd32_range rnd32_range_again rnd32_action rnd32_low)

text \<open>The sampled action 10.\<close>

theorem rescale32_exceeds_high_witness:
  "rescale32 (map1 (f32_tanh correctly_rounded) (Tensor [1, 1] [Fin 10]))
        (Tensor [1] [Fin (- (11744051 / 16777216))]) (Tensor [1] [Fin (1 / 2)])
      = Inr (Tensor [1, 1] [Fin (8388609 / 16777216)])
   \<and> \<not> f_le (Fin (8388609 / 16777216)) (Fin (1 / 2))"
  using rescale32_exceeds_high [of 10] by (simp add: get_def bget_def bidx_def)

subsection \<open>The inverse hyperbolic tangent\<close>

text \<open>
  Bounds on the exact functions: the logarithm on an interval away from 0, its
  Lipschitz constant there, the exponential at 6 (from \<open>exp(1/64)\<close> by repeated
  squaring), and the hyperbolic tangent on the interval from -3 to 3.
\<close>

lemma exp_ge_pow2: "(2::real) ^ n \<le> exp (real n)"
proof -
  have "(2::real) \<le> exp 1" using exp_ge_add_one_self[of "1::real"] by simp
  then have "(2::real) ^ n \<le> exp 1 ^ n" by (intro power_mono) simp_all
  also have "\<dots> = exp (real n)" using exp_of_nat_mult[of n "1::real"] by simp
  finally show ?thesis .
qed

lemma ln_abs_bound:
  assumes "1 / 2 ^ n \<le> a" "a \<le> 2"
  shows "\<bar>ln a\<bar> \<le> real n + 1"
proof -
  have p: "0 < a" using assms(1) by (smt (verit) zero_less_power zero_less_divide_1_iff)
  have u: "ln a \<le> 1" using ln_le_minus_one[OF p] assms(2) by simp
  have "exp (- real n) = 1 / exp (real n)" by (simp add: exp_minus inverse_eq_divide)
  also have "\<dots> \<le> 1 / 2 ^ n" using exp_ge_pow2[of n] by (intro divide_left_mono) simp_all
  finally have "exp (- real n) \<le> a" using assms(1) by simp
  then have "- real n \<le> ln a" using p by (simp add: ln_ge_iff)
  with u show ?thesis by simp
qed

lemma ln_lipschitz:
  fixes a b c :: real
  assumes "0 < c" "c \<le> a" "c \<le> b"
  shows "\<bar>ln a - ln b\<bar> \<le> \<bar>a - b\<bar> / c"
proof -
  have pa: "0 < a" using assms by linarith
  have pb: "0 < b" using assms by linarith
  have 1: "ln a - ln b \<le> \<bar>a - b\<bar> / c"
  proof -
    have "ln a - ln b \<le> (a - b) / b" using pa pb by (rule ln_diff_le)
    also have "\<dots> \<le> \<bar>a - b\<bar> / b" using pb by (intro divide_right_mono) simp_all
    also have "\<dots> \<le> \<bar>a - b\<bar> / c" using assms by (intro divide_left_mono) simp_all
    finally show ?thesis .
  qed
  have 2: "ln b - ln a \<le> \<bar>a - b\<bar> / c"
  proof -
    have "ln b - ln a \<le> (b - a) / a" using pb pa by (rule ln_diff_le)
    also have "\<dots> \<le> \<bar>a - b\<bar> / a" using pa by (intro divide_right_mono) simp_all
    also have "\<dots> \<le> \<bar>a - b\<bar> / c" using assms by (intro divide_left_mono) simp_all
    finally show ?thesis .
  qed
  from 1 2 show ?thesis by linarith
qed

lemma ln_lip:
  fixes a b c e :: real
  assumes "0 < c" "c \<le> a" "c \<le> b" "\<bar>a - b\<bar> \<le> e"
  shows "\<bar>ln a - ln b\<bar> \<le> e / c"
proof -
  have "\<bar>ln a - ln b\<bar> \<le> \<bar>a - b\<bar> / c" using assms(1-3) by (rule ln_lipschitz)
  also have "\<dots> \<le> e / c" using assms(1,4) by (intro divide_right_mono) simp_all
  finally show ?thesis .
qed

lemma exp_7_ge: "(215::real) \<le> exp 7"
proof -
  have "(215::real) \<le> (5 / 2) ^ 7" by (simp add: power_divide)
  also have "\<dots> \<le> exp 1 ^ 7" using exp_1_ge by (intro power_mono) simp_all
  also have "\<dots> = exp (7::real)" using exp_of_nat_mult[of 7 "1::real"] by simp
  finally show ?thesis .
qed

lemma ln_abs_le_7:
  fixes a :: real
  assumes "1 / 215 \<le> a" "a \<le> 2"
  shows "\<bar>ln a\<bar> \<le> 7"
proof -
  have p: "0 < a" using assms(1) by linarith
  have u: "ln a \<le> 1" using ln_le_minus_one[OF p] assms(2) by simp
  have "exp (- 7 :: real) = 1 / exp 7" by (simp add: exp_minus inverse_eq_divide)
  also have "\<dots> \<le> 1 / 215" using exp_7_ge by (intro divide_left_mono) simp_all
  finally have "exp (- 7) \<le> a" using assms(1) by simp
  then have "- 7 \<le> ln a" using p by (simp add: ln_ge_iff)
  with u show ?thesis by simp
qed

lemma exp_double_le:
  fixes x a :: real
  assumes "exp x \<le> a"
  shows "exp (2 * x) \<le> a * a"
proof -
  have "exp (2 * x) = exp x * exp x" by (simp only: exp_double power2_eq_square)
  also have "\<dots> \<le> a * a"
  proof -
    have "0 < exp x" by simp
    with assms have "0 \<le> a" by linarith
    with assms show ?thesis by (intro mult_mono) simp_all
  qed
  finally show ?thesis .
qed

lemma exp_1_le: "exp (1::real) \<le> 27447 / 10000"
proof -
  have "exp (1 / 64 :: real) \<le> 4161 / 4096"
    using exp_bound[of "1 / 64"] by (simp add: power2_eq_square)
  from exp_double_le[OF this] have "exp (1 / 32 :: real) \<le> 1032 / 1000" by simp
  from exp_double_le[OF this] have "exp (1 / 16 :: real) \<le> 10651 / 10000" by simp
  from exp_double_le[OF this] have "exp (1 / 8 :: real) \<le> 11345 / 10000" by simp
  from exp_double_le[OF this] have "exp (1 / 4 :: real) \<le> 12871 / 10000" by simp
  from exp_double_le[OF this] have "exp (1 / 2 :: real) \<le> 16567 / 10000" by simp
  from exp_double_le[OF this] show ?thesis by simp
qed

lemma exp_6_le_428: "exp (6::real) \<le> 428"
proof -
  from exp_double_le[OF exp_1_le] have 2: "exp (2::real) \<le> 75334 / 10000" by simp
  from exp_double_le[OF 2] have 4: "exp (4::real) \<le> 56753 / 1000" by simp
  have "exp (6::real) = exp 4 * exp 2" using exp_add[of "4::real" 2] by simp
  also have "\<dots> \<le> (56753 / 1000) * (75334 / 10000)" using 2 4 by (intro mult_mono) simp_all
  also have "\<dots> \<le> 428" by simp
  finally show ?thesis .
qed

lemma tanh_3_bound: "tanh (3::real) \<le> 427 / 429"
proof -
  let ?e = "exp (- 6 :: real)"
  have e: "?e = 1 / exp 6" by (simp add: exp_minus inverse_eq_divide)
  have pos: "0 < ?e" by simp
  have "1 / 428 \<le> ?e" unfolding e using exp_6_le_428 by (intro divide_left_mono) simp_all
  then have k: "429 * (1 - ?e) \<le> 427 * (1 + ?e)" by simp
  have p1: "0 < 1 + ?e" using pos by linarith
  have "tanh (3::real) = (1 - ?e) / (1 + ?e)" using tanh_real_altdef[of 3] by simp
  also have "\<dots> \<le> 427 / 429"
    using p1 k by (simp add: pos_divide_le_eq)
  finally show ?thesis .
qed

lemma tanh_abs_bound:
  assumes "\<bar>r\<bar> < (3::real)"
  shows "\<bar>tanh r\<bar> \<le> 427 / 429"
proof -
  have 1: "tanh r \<le> tanh 3" using assms by (simp only: tanh_real_le_iff)
  have "tanh (- 3) \<le> tanh r" using assms by (simp only: tanh_real_le_iff)
  then have 2: "- tanh 3 \<le> tanh r" by (simp only: tanh_minus)
  from 1 2 tanh_3_bound show ?thesis by linarith
qed

text \<open>
  The error of \<open>atanh32\<close> on one element \<open>y\<close> with \<open>1 + y\<close> and \<open>1 - y\<close> at least
  \<open>2^-23\<close>: both logarithms are at most 24 in absolute value, the library is within
  \<open>2^-18\<close> of each, and the difference and the product with 0.5 are each rounded by at
  most \<open>2^-19\<close>. In particular the result is finite.
\<close>

lemma log1p32_acc:
  assumes "accurate lib" "1 / 2 ^ 23 \<le> 1 + y" "1 + y \<le> 2"
  shows "f32_log1p lib (Fin y) = Fin (log1p32 lib y)"
    and "\<bar>log1p32 lib y - ln (1 + y)\<bar> \<le> 1 / 2 ^ 18"
    and "\<bar>ln (1 + y)\<bar> \<le> 24"
proof -
  have "(0::real) < 1 / 2 ^ 23" by simp
  with assms(2) have y: "- 1 < y" by linarith
  then show "f32_log1p lib (Fin y) = Fin (log1p32 lib y)" by simp
  from ln_abs_bound[OF assms(2,3)] show b: "\<bar>ln (1 + y)\<bar> \<le> 24" by simp
  then have "ulp32 (ln (1 + y)) \<le> 1 / 2 ^ 19" by (intro ulp32_lt_32) simp
  moreover from assms(1) y have "\<bar>log1p32 lib y - ln (1 + y)\<bar> \<le> 2 * ulp32 (ln (1 + y))"
    by (simp add: accurate_def)
  ultimately show "\<bar>log1p32 lib y - ln (1 + y)\<bar> \<le> 1 / 2 ^ 18" by simp
qed

lemma err_chain:
  fixes v d l1 l2 A B e1 e2 e3 :: real
  assumes "\<bar>v - d / 2\<bar> \<le> e1" "\<bar>d - (l1 - l2)\<bar> \<le> e2" "\<bar>l1 - A\<bar> \<le> e3" "\<bar>l2 - B\<bar> \<le> e3"
  shows "\<bar>v - (A - B) / 2\<bar> \<le> e1 + e2 / 2 + e3"
  using assms unfolding abs_le_iff by (auto simp: field_simps)

lemma atanh32_1_acc:
  assumes "accurate lib" "1 / 2 ^ 23 \<le> 1 + y" "1 / 2 ^ 23 \<le> 1 - y"
  shows "\<exists>v. atanh32_1 lib (Fin y) = Fin v \<and> \<bar>v - (ln (1 + y) - ln (1 - y)) / 2\<bar> \<le> 56 / 2 ^ 23"
proof -
  have p: "(0::real) < 1 / 2 ^ 23" by simp
  have u1: "1 + y \<le> 2" using assms(3) p by linarith
  have u2: "1 + (- y) \<le> 2" using assms(2) p by linarith
  have l2: "1 / 2 ^ 23 \<le> 1 + (- y)" using assms(3) by simp
  note a = log1p32_acc[OF assms(1,2) u1]
  note b = log1p32_acc[OF assms(1) l2 u2]
  let ?l1 = "log1p32 lib y" and ?l2 = "log1p32 lib (- y)"
  let ?A = "ln (1 + y)" and ?B = "ln (1 - y)"
  have b2: "\<bar>?l2 - ?B\<bar> \<le> 1 / 2 ^ 18" and b3: "\<bar>?B\<bar> \<le> 24" using b(2,3) by simp_all
  have s: "(1::real) / 2 ^ 18 \<le> 1" by simp
  have "\<bar>?l1 - ?l2\<bar> < 64" using a(2,3) b2 b3 s by linarith
  from to_f32_lt_64[OF this] obtain d where
    d: "to_f32 (?l1 - ?l2) = Fin d" "\<bar>d - (?l1 - ?l2)\<bar> \<le> 1 / 2 ^ 19" by blast
  have s2: "(1::real) / 2 ^ 19 \<le> 1" by simp
  have "\<bar>d / 2\<bar> < 64" using d(2) a(2,3) b2 b3 s s2 by linarith
  from to_f32_lt_64[OF this] obtain v where
    v: "to_f32 (d / 2) = Fin v" "\<bar>v - d / 2\<bar> \<le> 1 / 2 ^ 19" by blast
  have "atanh32_1 lib (Fin y) = Fin v"
    using a(1) b(1) d(1) v(1) by (simp add: atanh32_1_def f32_sub_def f32_mul_def f_sub_def)
  moreover have "\<bar>v - (?A - ?B) / 2\<bar> \<le> 56 / 2 ^ 23"
  proof -
    have "\<bar>v - (?A - ?B) / 2\<bar> \<le> 1 / 2 ^ 19 + (1 / 2 ^ 19) / 2 + 1 / 2 ^ 18"
      using v(2) d(2) a(2) b2 by (rule err_chain)
    also have "\<dots> = 56 / 2 ^ 23" by simp
    finally show ?thesis .
  qed
  ultimately show ?thesis by blast
qed

text \<open>
  The same on an element \<open>y\<close> with \<open>1 + y\<close> and \<open>1 - y\<close> at least \<open>1 / 215\<close>: both
  logarithms are at most 7 in absolute value, the library is within \<open>2^-20\<close> of each,
  and the two roundings are at most \<open>2^-21\<close> and \<open>2^-22\<close>: 12 times the machine
  epsilon \<open>2^-23\<close> in all.
\<close>

lemma log1p32_fine:
  assumes "accurate lib" "1 / 215 \<le> 1 + y" "1 + y \<le> 2"
  shows "f32_log1p lib (Fin y) = Fin (log1p32 lib y)"
    and "\<bar>log1p32 lib y - ln (1 + y)\<bar> \<le> 1 / 2 ^ 20"
    and "\<bar>ln (1 + y)\<bar> \<le> 7"
proof -
  from assms(2) have y: "- 1 < y" by linarith
  then show "f32_log1p lib (Fin y) = Fin (log1p32 lib y)" by simp
  from ln_abs_le_7[OF assms(2,3)] show b: "\<bar>ln (1 + y)\<bar> \<le> 7" .
  then have "ulp32 (ln (1 + y)) \<le> 1 / 2 ^ 21" by (intro ulp32_lt_8) simp
  moreover from assms(1) y have "\<bar>log1p32 lib y - ln (1 + y)\<bar> \<le> 2 * ulp32 (ln (1 + y))"
    by (simp add: accurate_def)
  ultimately show "\<bar>log1p32 lib y - ln (1 + y)\<bar> \<le> 1 / 2 ^ 20" by simp
qed

lemma err_sum2:
  fixes v A B A0 B0 e1 eA eB :: real
  assumes "\<bar>v - (A - B) / 2\<bar> \<le> e1" "\<bar>A - A0\<bar> \<le> eA" "\<bar>B - B0\<bar> \<le> eB"
  shows "\<bar>v - (A0 - B0) / 2\<bar> \<le> e1 + (eA + eB) / 2"
  using assms unfolding abs_le_iff by (auto simp: field_simps)

lemma atanh32_1_fine:
  assumes "accurate lib" "1 / 215 \<le> 1 + y" "1 / 215 \<le> 1 - y"
  shows "\<exists>v. atanh32_1 lib (Fin y) = Fin v \<and> \<bar>v - (ln (1 + y) - ln (1 - y)) / 2\<bar> \<le> 12 / 2 ^ 23"
proof -
  have u1: "1 + y \<le> 2" using assms(3) by linarith
  have u2: "1 + (- y) \<le> 2" using assms(2) by linarith
  have l2: "1 / 215 \<le> 1 + (- y)" using assms(3) by simp
  note a = log1p32_fine[OF assms(1,2) u1]
  note b = log1p32_fine[OF assms(1) l2 u2]
  let ?l1 = "log1p32 lib y" and ?l2 = "log1p32 lib (- y)"
  let ?A = "ln (1 + y)" and ?B = "ln (1 - y)"
  have b2: "\<bar>?l2 - ?B\<bar> \<le> 1 / 2 ^ 20" and b3: "\<bar>?B\<bar> \<le> 7" using b(2,3) by simp_all
  have s: "(1::real) / 2 ^ 20 \<le> 1 / 4" by simp
  have "\<bar>?l1 - ?l2\<bar> < 16" using a(2,3) b2 b3 s by linarith
  from to_f32_lt_16[OF this] obtain d where
    d: "to_f32 (?l1 - ?l2) = Fin d" "\<bar>d - (?l1 - ?l2)\<bar> \<le> 1 / 2 ^ 21" by blast
  have s2: "(1::real) / 2 ^ 21 \<le> 1 / 4" by simp
  have "\<bar>d / 2\<bar> < 8" using d(2) a(2,3) b2 b3 s s2 by linarith
  from to_f32_lt_8[OF this] obtain v where
    v: "to_f32 (d / 2) = Fin v" "\<bar>v - d / 2\<bar> \<le> 1 / 2 ^ 22" by blast
  have "atanh32_1 lib (Fin y) = Fin v"
    using a(1) b(1) d(1) v(1) by (simp add: atanh32_1_def f32_sub_def f32_mul_def f_sub_def)
  moreover have "\<bar>v - (?A - ?B) / 2\<bar> \<le> 12 / 2 ^ 23"
  proof -
    have "\<bar>v - (?A - ?B) / 2\<bar> \<le> 1 / 2 ^ 22 + (1 / 2 ^ 21) / 2 + 1 / 2 ^ 20"
      using v(2) d(2) a(2) b2 by (rule err_chain)
    also have "\<dots> = 12 / 2 ^ 23" by simp
    finally show ?thesis .
  qed
  ultimately show ?thesis by blast
qed

text \<open>
  The round trip on one element \<open>r\<close> between -3 and 3. The library's hyperbolic
  tangent \<open>y\<close> is within the machine epsilon of the exact one, which is at most
  \<open>427 / 429\<close> in absolute value. Of \<open>1 + y\<close> and \<open>1 - y\<close> one is at least \<open>1 / 2\<close> and
  the other at least \<open>1 / 215\<close>, so the two logarithms move by at most 2 and 215 times
  the machine epsilon, their half difference by at most 108.5 times; with the 12 of the
  roundings the result is within 121 times the machine epsilon of \<open>r\<close>.
\<close>

lemma tanh32_near:
  assumes "accurate lib" "\<bar>r\<bar> < 3"
  shows "\<bar>tanh32 lib r - tanh r\<bar> \<le> finfo_eps"
    and "1 / 215 \<le> 1 + tanh32 lib r" "1 / 215 \<le> 1 - tanh32 lib r"
    and "1 / 215 \<le> 1 + tanh r" "1 / 215 \<le> 1 - tanh r"
proof -
  note t = tanh_abs_bound[OF assms(2)]
  have "\<bar>tanh r\<bar> < 1" using t by linarith
  then have "ulp32 (tanh r) \<le> 1 / 2 ^ 24" by (rule ulp32_lt_1)
  moreover from assms(1) have "\<bar>tanh32 lib r - tanh r\<bar> \<le> 2 * ulp32 (tanh r)"
    by (simp add: accurate_def)
  ultimately have e: "\<bar>tanh32 lib r - tanh r\<bar> \<le> 1 / 2 ^ 23" by simp
  then show "\<bar>tanh32 lib r - tanh r\<bar> \<le> finfo_eps" by (simp add: finfo_eps_def)
  have s: "(1::real) / 2 ^ 23 \<le> 2 / 429 - 1 / 215" by simp
  show "1 / 215 \<le> 1 + tanh32 lib r" "1 / 215 \<le> 1 - tanh32 lib r" using e t s by linarith+
  show "1 / 215 \<le> 1 + tanh r" "1 / 215 \<le> 1 - tanh r" using t by linarith+
qed

lemma roundtrip32_fine:
  assumes "accurate lib" "\<bar>r\<bar> < 3"
  shows "\<exists>v. atanh32_1 lib (f32_tanh lib (Fin r)) = Fin v \<and> \<bar>v - r\<bar> \<le> 121 * finfo_eps"
    and "f_clamp (Fin (- 1 + finfo_eps)) (Fin (1 - finfo_eps)) (f32_tanh lib (Fin r))
           = f32_tanh lib (Fin r)"
proof -
  let ?y = "tanh32 lib r" and ?t = "tanh r"
  note t = tanh32_near[OF assms]
  from atanh32_1_fine[OF assms(1) t(2,3)] obtain v where
    v: "atanh32_1 lib (Fin ?y) = Fin v" "\<bar>v - (ln (1 + ?y) - ln (1 - ?y)) / 2\<bar> \<le> 12 / 2 ^ 23"
    by blast
  have e: "finfo_eps \<le> 1 / 2" and e0: "0 < finfo_eps" by (simp_all add: finfo_eps_def)
  have dp: "\<bar>(1 + ?y) - (1 + ?t)\<bar> \<le> finfo_eps" using t(1) by simp
  have "\<bar>(1 - ?y) - (1 - ?t)\<bar> = \<bar>?y - ?t\<bar>" by linarith
  with t(1) have dm: "\<bar>(1 - ?y) - (1 - ?t)\<bar> \<le> finfo_eps" by (simp only:)
  have AB: "\<bar>ln (1 + ?y) - ln (1 + ?t)\<bar> + \<bar>ln (1 - ?y) - ln (1 - ?t)\<bar> \<le> 217 * finfo_eps"
  proof (cases "0 \<le> ?t")
    case True
    have 1: "1 / 2 \<le> 1 + ?y" "1 / 2 \<le> 1 + ?t" using True t(1) e by linarith+
    have "\<bar>ln (1 + ?y) - ln (1 + ?t)\<bar> \<le> finfo_eps / (1 / 2)"
      using 1 dp by (intro ln_lip) simp_all
    moreover have "\<bar>ln (1 - ?y) - ln (1 - ?t)\<bar> \<le> finfo_eps / (1 / 215)"
      using t(3,5) dm by (intro ln_lip) simp_all
    ultimately show ?thesis by simp
  next
    case False
    have 1: "1 / 2 \<le> 1 - ?y" "1 / 2 \<le> 1 - ?t" using False t(1) e by linarith+
    have "\<bar>ln (1 - ?y) - ln (1 - ?t)\<bar> \<le> finfo_eps / (1 / 2)"
      using 1 dm by (intro ln_lip) simp_all
    moreover have "\<bar>ln (1 + ?y) - ln (1 + ?t)\<bar> \<le> finfo_eps / (1 / 215)"
      using t(2,4) dp by (intro ln_lip) simp_all
    ultimately show ?thesis by simp
  qed
  have c: "(0::real) < 1 / 215" by simp
  have "r = artanh ?t" by (simp add: artanh_tanh_real)
  also have "\<dots> = (ln (1 + ?t) - ln (1 - ?t)) / 2"
    using t(4,5) c by (simp add: artanh_def ln_div)
  finally have r: "r = (ln (1 + ?t) - ln (1 - ?t)) / 2" .
  have "\<bar>v - (ln (1 + ?t) - ln (1 - ?t)) / 2\<bar>
      \<le> 12 / 2 ^ 23 + (\<bar>ln (1 + ?y) - ln (1 + ?t)\<bar> + \<bar>ln (1 - ?y) - ln (1 - ?t)\<bar>) / 2"
    by (rule err_sum2[OF v(2) order_refl order_refl])
  also have "\<dots> \<le> 12 / 2 ^ 23 + (217 * finfo_eps) / 2" using AB by simp
  also have "\<dots> \<le> 121 * finfo_eps" by (simp add: finfo_eps_def)
  finally have "\<bar>v - r\<bar> \<le> 121 * finfo_eps" using r by simp
  with v(1) show "\<exists>v. atanh32_1 lib (f32_tanh lib (Fin r)) = Fin v \<and> \<bar>v - r\<bar> \<le> 121 * finfo_eps"
    by simp
  have "- 1 + finfo_eps \<le> ?y" "?y \<le> 1 - finfo_eps"
    using t(2,3) by (simp_all add: finfo_eps_def)
  then show "f_clamp (Fin (- 1 + finfo_eps)) (Fin (1 - finfo_eps)) (f32_tanh lib (Fin r))
           = f32_tanh lib (Fin r)"
    by (simp add: clamp_inside)
qed

lemma accurate_correctly_rounded: "accurate correctly_rounded"
proof -
  have "\<bar>rnd32 z - z\<bar> \<le> 2 * ulp32 z" for z
    using rnd32_err[of z] ulp32_pos[of z] by linarith
  then show ?thesis by (simp add: accurate_def correctly_rounded_def)
qed

lemma atanh32_map1: "wf_tensor x \<Longrightarrow> atanh32 lib x = Inr (map1 (atanh32_1 lib) x)"
proof -
  assume w: "wf_tensor x"
  have "map2T f32_sub (map1 (f32_log1p lib) x) (map1 (f32_log1p lib) (map1 f_neg x))
      = Some (Tensor (shape x)
          (map2 f32_sub (map (f32_log1p lib) (data x)) (map (f32_log1p lib) (map f_neg (data x)))))"
    using map2T_same_shape[of "map1 (f32_log1p lib) x" "map1 (f32_log1p lib) (map1 f_neg x)" f32_sub] w
    by (simp add: wf_map1 shape_map1) (simp add: map1_def)
  moreover have "map2 f32_sub (map (f32_log1p lib) (data x)) (map (f32_log1p lib) (map f_neg (data x)))
      = map (\<lambda>v. f32_sub (f32_log1p lib v) (f32_log1p lib (f_neg v))) (data x)"
    using map2_same_list[of f32_sub "f32_log1p lib" "data x" "\<lambda>v. f32_log1p lib (f_neg v)"]
    by (simp add: comp_def)
  ultimately show ?thesis
    by (simp add: atanh32_def tbin_def map1_def atanh32_1_def)
qed

text \<open>
  Without the clamp the result can be infinite: from 10 on the correctly rounded
  hyperbolic tangent is 1, and \<open>atanh\<close> of 1 is \<open>0.5 * (log1p(1) - log1p(-1))\<close>, an
  infinity.
\<close>

lemma atanh32_infinite_from_10:
  assumes "10 \<le> s"
  shows "atanh32 correctly_rounded (map1 (f32_tanh correctly_rounded) (Tensor [1] [Fin s]))
           = Inr (Tensor [1] [PInf])"
  using rnd32_tanh_ge_10[OF assms]
  by (simp add: atanh32_def correctly_rounded_def f32_sub_def f32_mul_def f_sub_def signed_inf_def
      tbin_def map2T_def map1_def bshape_def tabulate_def bget_def get_def bidx_def)

text \<open>
  C4. In \<^verbatim>\<open>float32\<close>, with a library whose \<open>tanh\<close> and \<open>log1p\<close> are accurate to two
  units in the last place: on a tensor whose elements lie in the open interval from -3
  to 3, \<open>atanh\<close> of \<open>tanh\<close> returns a tensor of the same shape whose elements are finite
  and differ from the elements of the argument by at most 121 times the machine epsilon
  \<open>2^-23\<close> (less than \<open>1.5 * 10^-5\<close>), and \<open>inverse_tanh\<close>
  returns the same tensor (the clamp leaves the hyperbolic tangent of such an element as
  it is). On a tensor whose elements lie between -1 and 1, the two ends included, the
  clamp puts every element between \<open>-1 + eps\<close> and \<open>1 - eps\<close>, with \<open>eps\<close> the machine
  epsilon, and every element of the result of \<open>inverse_tanh\<close> is finite: neither an
  infinity nor not-a-number.
\<close>

theorem inverse_tanh32_stable:
  assumes "accurate lib" "wf_tensor t"
  shows "((\<forall>x \<in> set (data t). \<exists>r. x = Fin r \<and> - 3 < r \<and> r < 3) \<longrightarrow>
           (\<exists>z. atanh32 lib (map1 (f32_tanh lib) t) = Inr z
              \<and> inverse_tanh32 lib (map1 (f32_tanh lib) t) = Inr z
              \<and> shape z = shape t
              \<and> (\<forall>idx \<in> set (all_indices (shape t)).
                    \<exists>r v. get t idx = Fin r \<and> get z idx = Fin v \<and> \<bar>v - r\<bar> \<le> 121 * finfo_eps)))
       \<and> ((\<forall>y \<in> set (data t). \<exists>r. y = Fin r \<and> - 1 \<le> r \<and> r \<le> 1) \<longrightarrow>
           (\<forall>v \<in> set (data (map1 (f_clamp (Fin (- 1 + finfo_eps)) (Fin (1 - finfo_eps))) t)).
               \<exists>c. v = Fin c \<and> - 1 + finfo_eps \<le> c \<and> c \<le> 1 - finfo_eps)
           \<and> (\<exists>z. inverse_tanh32 lib t = Inr z \<and> shape z = shape t
                 \<and> (\<forall>v \<in> set (data z). is_fin v)))"
proof -
  note w = assms(2)
  have le: "- 1 + finfo_eps \<le> 1 - finfo_eps" using finfo_eps_bounds by simp
  have a: "\<exists>z. atanh32 lib (map1 (f32_tanh lib) t) = Inr z
              \<and> inverse_tanh32 lib (map1 (f32_tanh lib) t) = Inr z
              \<and> shape z = shape t
              \<and> (\<forall>idx \<in> set (all_indices (shape t)).
                    \<exists>r v. get t idx = Fin r \<and> get z idx = Fin v \<and> \<bar>v - r\<bar> \<le> 121 * finfo_eps)"
    if h: "\<forall>x \<in> set (data t). \<exists>r. x = Fin r \<and> - 3 < r \<and> r < 3"
  proof -
    let ?y = "map1 (f32_tanh lib) t"
    let ?z = "map1 (atanh32_1 lib) ?y"
    have wy: "wf_tensor ?y" using w by (rule wf_map1)
    have 1: "atanh32 lib ?y = Inr ?z" using wy by (rule atanh32_map1)
    have "map (\<lambda>x. f_clamp (Fin (- 1 + finfo_eps)) (Fin (1 - finfo_eps)) (f32_tanh lib x)) (data t)
        = map (f32_tanh lib) (data t)"
    proof (rule map_cong[OF refl])
      fix x assume "x \<in> set (data t)"
      with h obtain r where r: "x = Fin r" "\<bar>r\<bar> < 3" by fastforce
      from roundtrip32_fine(2)[OF assms(1) r(2)] r(1)
      show "f_clamp (Fin (- 1 + finfo_eps)) (Fin (1 - finfo_eps)) (f32_tanh lib x) = f32_tanh lib x"
        by simp
    qed
    then have "map1 (f_clamp (Fin (- 1 + finfo_eps)) (Fin (1 - finfo_eps))) ?y = ?y"
      by (simp add: map1_def comp_def)
    with 1 have 2: "inverse_tanh32 lib ?y = Inr ?z" by (simp add: inverse_tanh32_def Let_def)
    have 3: "\<exists>r v. get t idx = Fin r \<and> get ?z idx = Fin v \<and> \<bar>v - r\<bar> \<le> 121 * finfo_eps"
      if i: "idx \<in> set (all_indices (shape t))" for idx
    proof -
      have "get t idx \<in> set (data t)" using w i by (rule get_in_data)
      with h obtain r where r: "get t idx = Fin r" "\<bar>r\<bar> < 3" by fastforce
      have "get ?z idx = atanh32_1 lib (f32_tanh lib (get t idx))"
        using w wy i by (simp add: get_map1 shape_map1)
      with roundtrip32_fine(1)[OF assms(1) r(2)] r(1) show ?thesis by auto
    qed
    from 1 2 3 show ?thesis by (intro exI[of _ ?z]) (simp add: shape_map1)
  qed
  have b: "(\<forall>v \<in> set (data (map1 (f_clamp (Fin (- 1 + finfo_eps)) (Fin (1 - finfo_eps))) t)).
               \<exists>c. v = Fin c \<and> - 1 + finfo_eps \<le> c \<and> c \<le> 1 - finfo_eps)
           \<and> (\<exists>z. inverse_tanh32 lib t = Inr z \<and> shape z = shape t
                 \<and> (\<forall>v \<in> set (data z). is_fin v))"
    if h: "\<forall>y \<in> set (data t). \<exists>r. y = Fin r \<and> - 1 \<le> r \<and> r \<le> 1"
  proof -
    let ?c = "map1 (f_clamp (Fin (- 1 + finfo_eps)) (Fin (1 - finfo_eps))) t"
    have c: "\<exists>c. v = Fin c \<and> - 1 + finfo_eps \<le> c \<and> c \<le> 1 - finfo_eps"
      if "v \<in> set (data ?c)" for v
    proof -
      from that obtain y where y: "y \<in> set (data t)"
          "v = f_clamp (Fin (- 1 + finfo_eps)) (Fin (1 - finfo_eps)) y"
        by (auto simp: map1_def)
      from h y(1) obtain r where "y = Fin r" by blast
      with y(2) clamp_range[OF le, of r] show ?thesis by simp
    qed
    have i: "inverse_tanh32 lib t = Inr (map1 (atanh32_1 lib) ?c)"
      using w by (simp add: inverse_tanh32_def Let_def atanh32_map1 wf_map1)
    have "is_fin v" if "v \<in> set (data (map1 (atanh32_1 lib) ?c))" for v
    proof -
      from that obtain u where u: "u \<in> set (data ?c)" "v = atanh32_1 lib u" by (auto simp: map1_def)
      from c[OF u(1)] obtain k where k: "u = Fin k" "- 1 + finfo_eps \<le> k" "k \<le> 1 - finfo_eps"
        by blast
      from k(2,3) have "1 / 2 ^ 23 \<le> 1 + k" "1 / 2 ^ 23 \<le> 1 - k" by (simp_all add: finfo_eps_def)
      from atanh32_1_acc[OF assms(1) this] obtain q where "atanh32_1 lib (Fin k) = Fin q" by blast
      with u(2) k(1) show ?thesis by simp
    qed
    with c i show ?thesis by (simp add: shape_map1)
  qed
  from a b show ?thesis by blast
qed

text \<open>
  The correctly rounded library: the round trip at 1, and \<open>inverse_tanh\<close> at the two
  boundary values -1 and 1.
\<close>

theorem inverse_tanh32_stable_witness:
  "accurate correctly_rounded
   \<and> wf_tensor (Tensor [1] [Fin 1]) \<and> wf_tensor (Tensor [2] [Fin (- 1), Fin 1])
   \<and> (\<exists>z. atanh32 correctly_rounded (map1 (f32_tanh correctly_rounded) (Tensor [1] [Fin 1])) = Inr z
        \<and> inverse_tanh32 correctly_rounded (map1 (f32_tanh correctly_rounded) (Tensor [1] [Fin 1])) = Inr z
        \<and> shape z = [1]
        \<and> (\<exists>v. get z [0] = Fin v \<and> \<bar>v - 1\<bar> \<le> 121 * finfo_eps))
   \<and> (\<exists>z. inverse_tanh32 correctly_rounded (Tensor [2] [Fin (- 1), Fin 1]) = Inr z \<and> shape z = [2]
        \<and> list_all is_fin (data z))"
proof -
  note acc = accurate_correctly_rounded
  have w1: "wf_tensor (Tensor [1] [Fin 1])" and w2: "wf_tensor (Tensor [2] [Fin (- 1), Fin 1])"
    by (simp_all add: wf_tensor_def)
  have h1: "\<forall>x \<in> set (data (Tensor [1] [Fin 1])). \<exists>r. x = Fin r \<and> - 3 < r \<and> r < 3" by simp
  have h2: "\<forall>y \<in> set (data (Tensor [2] [Fin (- 1), Fin 1])). \<exists>r. y = Fin r \<and> - 1 \<le> r \<and> r \<le> 1"
    by simp
  have i: "[0] \<in> set (all_indices (shape (Tensor [1] [Fin 1])))" by simp
  from inverse_tanh32_stable [OF acc w1] h1 obtain z where
    z: "atanh32 correctly_rounded (map1 (f32_tanh correctly_rounded) (Tensor [1] [Fin 1])) = Inr z"
      "inverse_tanh32 correctly_rounded (map1 (f32_tanh correctly_rounded) (Tensor [1] [Fin 1])) = Inr z"
      "shape z = shape (Tensor [1] [Fin 1])"
      "\<forall>idx \<in> set (all_indices (shape (Tensor [1] [Fin 1]))).
          \<exists>r v. get (Tensor [1] [Fin 1]) idx = Fin r \<and> get z idx = Fin v \<and> \<bar>v - r\<bar> \<le> 121 * finfo_eps"
    by blast
  from z(4) i obtain r v where "get (Tensor [1] [Fin 1]) [0] = Fin r" "get z [0] = Fin v"
    "\<bar>v - r\<bar> \<le> 121 * finfo_eps" by blast
  then have "\<exists>v. get z [0] = Fin v \<and> \<bar>v - 1\<bar> \<le> 121 * finfo_eps" by (simp add: get_def)
  with z(1,2,3) have 1: "\<exists>z. atanh32 correctly_rounded (map1 (f32_tanh correctly_rounded) (Tensor [1] [Fin 1])) = Inr z
        \<and> inverse_tanh32 correctly_rounded (map1 (f32_tanh correctly_rounded) (Tensor [1] [Fin 1])) = Inr z
        \<and> shape z = [1]
        \<and> (\<exists>v. get z [0] = Fin v \<and> \<bar>v - 1\<bar> \<le> 121 * finfo_eps)" by auto
  from inverse_tanh32_stable [OF acc w2] h2
  have "\<exists>z. inverse_tanh32 correctly_rounded (Tensor [2] [Fin (- 1), Fin 1]) = Inr z
      \<and> shape z = shape (Tensor [2] [Fin (- 1), Fin 1]) \<and> (\<forall>v \<in> set (data z). is_fin v)" by blast
  then have 2: "\<exists>z. inverse_tanh32 correctly_rounded (Tensor [2] [Fin (- 1), Fin 1]) = Inr z \<and> shape z = [2]
      \<and> list_all is_fin (data z)"
    by (simp add: list_all_iff)
  from acc w1 w2 1 2 show ?thesis by blast
qed

end
